(* ===== verification/Prelude.thy ===== *)
theory Prelude
  imports Main "HOL-Library.Word"
begin

text \<open>
  Shared material of the development: the lemma collections, the machine integer types, Rust's
  \<^verbatim>\<open>[u8; 32]\<close> as a type of its own, the big-endian encoding of machine integers, the bit set
  of a word and byte-string literals.
\<close>

unbundle bit_operations_syntax

named_theorems ok_iff \<open>when an operation returns Ok, and with what\<close>
named_theorems read_simps \<open>what a typed read of the ledger returns after a write\<close>

section \<open>Machine integers\<close>

type_synonym u8 = "8 word"
type_synonym u16 = "16 word"
type_synonym u64 = "64 word"
type_synonym u128 = "128 word"

text \<open>Rust's \<^verbatim>\<open>checked_add\<close>: \<open>None\<close> where the sum does not fit the width.\<close>

definition checked_add :: "'a::len word \<Rightarrow> 'a word \<Rightarrow> 'a word option" where
  "checked_add a b = (if unat a + unat b < 2 ^ LENGTH('a) then Some (a + b) else None)"

lemma checked_add_Some_iff:
  fixes a b c :: "'a::len word"
  shows "checked_add a b = Some c \<longleftrightarrow> unat c = unat a + unat b"
proof
  assume "checked_add a b = Some c"
  then show "unat c = unat a + unat b"
    by (auto simp: checked_add_def unat_word_ariths split: if_splits)
next
  assume eq: "unat c = unat a + unat b"
  then have "unat a + unat b < 2 ^ LENGTH('a)"
    by (metis unsigned_less)
  moreover from this eq have "c = a + b"
    by (simp add: word_unat_eq_iff unat_word_ariths)
  ultimately show "checked_add a b = Some c"
    by (simp add: checked_add_def)
qed

section \<open>Big-endian bytes of a word\<close>

text \<open>\<^verbatim>\<open>to_be_bytes\<close> of the unsigned integers: the \<open>n\<close> low bytes, most significant first.\<close>

fun to_be_bytes :: "nat \<Rightarrow> 'a::len word \<Rightarrow> u8 list" where
  "to_be_bytes 0 w = []"
| "to_be_bytes (Suc n) w = to_be_bytes n (drop_bit 8 w) @ [ucast w]"

lemma length_to_be_bytes [simp]: "length (to_be_bytes n w) = n"
  by (induction n arbitrary: w) auto

lemma bit_from_low_byte:
  fixes v w :: "'a::len word"
  assumes "(ucast v :: u8) = ucast w" and "i < 8"
  shows "bit v i = bit w i"
proof -
  have "bit (ucast v :: u8) i = bit (ucast w :: u8) i"
    using assms(1) by simp
  then show ?thesis
    using assms(2) by (auto simp: bit_unsigned_iff dest: bit_imp_le_length)
qed

lemma to_be_bytes_bits:
  fixes v w :: "'a::len word"
  shows "to_be_bytes n v = to_be_bytes n w \<Longrightarrow> i < 8 * n \<Longrightarrow> bit v i = bit w i"
proof (induction n arbitrary: v w i)
  case 0
  then show ?case by simp
next
  case (Suc n)
  from Suc.prems(1) have hi: "to_be_bytes n (drop_bit 8 v) = to_be_bytes n (drop_bit 8 w)"
    and lo: "(ucast v :: u8) = ucast w"
    by simp_all
  show ?case
  proof (cases "i < 8")
    case True
    then show ?thesis using lo bit_from_low_byte by blast
  next
    case False
    with Suc.prems(2) have "i - 8 < 8 * n" by simp
    with hi have "bit (drop_bit 8 v) (i - 8) = bit (drop_bit 8 w) (i - 8)"
      by (rule Suc.IH)
    with False show ?thesis by (simp add: bit_drop_bit_eq)
  qed
qed

lemma to_be_bytes_inject:
  fixes v w :: "'a::len word"
  assumes "LENGTH('a) \<le> 8 * n"
  shows "to_be_bytes n v = to_be_bytes n w \<longleftrightarrow> v = w"
proof
  assume eq: "to_be_bytes n v = to_be_bytes n w"
  show "v = w"
  proof (rule bit_word_eqI)
    fix i assume "i < LENGTH('a)"
    with assms have "i < 8 * n" by simp
    with eq show "bit v i = bit w i" by (rule to_be_bytes_bits)
  qed
qed simp

text \<open>A byte-string literal \<^verbatim>\<open>b"..."\<close> as its bytes.\<close>

definition byte_string :: "string \<Rightarrow> u8 list" where
  "byte_string s = map of_char s"

section \<open>The array type [u8; 32]\<close>

typedef bytes32 = "{bs :: u8 list. length bs = 32}"
  morphisms bytes_of Bytes32
  by (rule exI [where x = "replicate 32 0"]) simp

setup_lifting type_definition_bytes32

lemma length_bytes_of [simp]: "length (bytes_of b) = 32"
  using bytes_of [of b] by simp

lemma bytes_of_eq_iff: "bytes_of a = bytes_of b \<longleftrightarrow> a = b"
  by (rule bytes_of_inject)

instantiation bytes32 :: equal
begin

definition equal_bytes32 :: "bytes32 \<Rightarrow> bytes32 \<Rightarrow> bool" where
  "equal_bytes32 a b \<longleftrightarrow> bytes_of a = bytes_of b"

instance
  by standard (simp add: equal_bytes32_def bytes_of_eq_iff)

end

text \<open>The array of one repeated byte, \<^verbatim>\<open>[x; 32]\<close>.\<close>

definition repeat32 :: "u8 \<Rightarrow> bytes32" where
  "repeat32 x = Bytes32 (replicate 32 x)"

lemma bytes_of_repeat32 [code abstract]: "bytes_of (repeat32 x) = replicate 32 x"
  by (simp add: repeat32_def Bytes32_inverse)

text \<open>The first 32 bytes of a list padded with zeros: how concrete arrays are written below.\<close>

definition pad32 :: "u8 list \<Rightarrow> bytes32" where
  "pad32 bs = Bytes32 (take 32 (bs @ replicate 32 0))"

lemma bytes_of_pad32 [code abstract]: "bytes_of (pad32 bs) = take 32 (bs @ replicate 32 0)"
  by (simp add: pad32_def Bytes32_inverse)

lemma pad32_eq_iff:
  "pad32 a = pad32 b \<longleftrightarrow> take 32 (a @ replicate 32 0) = take 32 (b @ replicate 32 0)"
  by (simp add: bytes_of_eq_iff [symmetric] bytes_of_pad32)

section \<open>A word as a set of bit positions\<close>

definition bits :: "'a::len word \<Rightarrow> nat set" where
  "bits w = {i. bit w i}"

lemma in_bits_iff [simp]: "i \<in> bits w \<longleftrightarrow> bit w i"
  by (simp add: bits_def)

lemma bits_bounded: "bits (w :: 'a::len word) \<subseteq> {..<LENGTH('a)}"
  by (auto simp: bits_def dest: bit_imp_le_length)

lemma finite_bits [simp]: "finite (bits w)"
  by (rule finite_subset [OF bits_bounded]) simp

lemma bits_inject: "bits v = bits w \<longleftrightarrow> v = w"
  by (auto simp: set_eq_iff intro: bit_eqI)

lemma bits_0 [simp]: "bits 0 = {}"
  by (simp add: bits_def)

lemma bits_eq_empty_iff [simp]: "bits w = {} \<longleftrightarrow> w = 0"
  using bits_inject [of w 0] by simp

lemma bits_and: "bits (v AND w) = bits v \<inter> bits w"
  by (auto simp: bit_and_iff)

lemma bits_set_bit:
  "i < LENGTH('a) \<Longrightarrow> bits (set_bit i (w :: 'a::len word)) = insert i (bits w)"
  by (auto simp: bit_set_bit_iff)

lemma bits_unset_bit: "bits (unset_bit i w) = bits w - {i}"
  by (auto simp: bit_unset_bit_iff)

end
