(* ===== verification/Errors.thy ===== *)
theory Errors
  imports Prelude
begin

text \<open>
  The errors an instruction can end with and the result type of every operation.
  \<open>endpoint_error\<close> is the enumeration of \<^verbatim>\<open>error.rs\<close>. The other classes are the errors the
  account constraints, the system program and the virtual machine raise before or inside a
  handler; the integration tests refer to them by number (2006, 3012, \<open>AccountAlreadyInUse\<close>).
\<close>

datatype endpoint_error =
    CallerNotAuthorized
  | BitmapIndexOutOfBounds
  | MaxAdaptersReached
  | AdapterAlreadyEnabled
  | AdapterAlreadyDisabled
  | AdminTransferInProgress
  | NoAdminTransferInProgress
  | InvalidChainId
  | AdapterNotEnabled
  | DuplicateMessageAttestation
  | MessageAlreadyPickedUp
  | AlreadyExecuted
  | UnknownMessageAttestation
  | InvalidMessageHash
  | InvalidDestinationChain

text \<open>Errors of Anchor's account constraints, with their codes.\<close>

datatype anchor_error =
    ConstraintMut                \<comment> \<open>2000\<close>
  | ConstraintHasOne             \<comment> \<open>2001\<close>
  | ConstraintSeeds              \<comment> \<open>2006\<close>
  | AccountDiscriminatorNotFound \<comment> \<open>3001\<close>
  | AccountDiscriminatorMismatch \<comment> \<open>3002\<close>
  | AccountDidNotDeserialize     \<comment> \<open>3003\<close>
  | AccountOwnedByWrongProgram   \<comment> \<open>3007\<close>
  | InvalidProgramId             \<comment> \<open>3008\<close>
  | AccountNotSigner             \<comment> \<open>3010\<close>
  | AccountNotSystemOwned        \<comment> \<open>3011\<close>
  | AccountNotInitialized        \<comment> \<open>3012\<close>
  | TryingToInitPayerAsProgramAccount \<comment> \<open>4101\<close>

datatype program_error =
    Endpoint_Error endpoint_error
  | Anchor_Error anchor_error
  | AccountAlreadyInUse          \<comment> \<open>the system program refuses to create the account\<close>
  | PrivilegeEscalation          \<comment> \<open>a call passes on a signature or write right it does not hold\<close>
  | MissingAccount               \<comment> \<open>a program that is called is not among the accounts passed\<close>
  | Panicked                     \<comment> \<open>a Rust panic aborts the transaction\<close>

section \<open>Results\<close>

datatype 'a result = Ok 'a | Err program_error

text \<open>The \<^verbatim>\<open>?\<close> operator: go on with the value, or return the error.\<close>

fun and_then :: "'a result \<Rightarrow> ('a \<Rightarrow> 'b result) \<Rightarrow> 'b result" where
  "and_then (Ok x) f = f x"
| "and_then (Err e) f = Err e"

text \<open>Anchor's \<^verbatim>\<open>require!\<close>, with the error it returns when the condition fails.\<close>

definition require :: "bool \<Rightarrow> program_error \<Rightarrow> unit result" where
  "require c e = (if c then Ok () else Err e)"

text \<open>\<^verbatim>\<open>Result::unwrap_or\<close>.\<close>

fun unwrap_or :: "'a result \<Rightarrow> 'a \<Rightarrow> 'a" where
  "unwrap_or (Ok x) d = x"
| "unwrap_or (Err e) d = d"

text \<open>\<^verbatim>\<open>Option::unwrap\<close>: a panic on \<open>None\<close>.\<close>

definition unwrap :: "'a option \<Rightarrow> 'a result" where
  "unwrap x = (case x of None \<Rightarrow> Err Panicked | Some v \<Rightarrow> Ok v)"

lemma and_then_eq_Ok [ok_iff]: "and_then r f = Ok y \<longleftrightarrow> (\<exists>x. r = Ok x \<and> f x = Ok y)"
  by (cases r) auto

lemma and_then_eq_Err:
  "and_then r f = Err e \<longleftrightarrow> r = Err e \<or> (\<exists>x. r = Ok x \<and> f x = Err e)"
  by (cases r) auto

lemma require_eq_Ok [ok_iff]: "require c e = Ok u \<longleftrightarrow> c"
  by (simp add: require_def)

lemma require_True [simp]: "require True e = Ok ()"
  by (simp add: require_def)

lemma require_False [simp]: "require False e = Err e"
  by (simp add: require_def)

lemma unwrap_eq_Ok [ok_iff]: "unwrap x = Ok y \<longleftrightarrow> x = Some y"
  by (auto simp: unwrap_def split: option.splits)

lemma unwrap_Some [simp]: "unwrap (Some v) = Ok v"
  by (simp add: unwrap_def)

lemma unwrap_None [simp]: "unwrap None = Err Panicked"
  by (simp add: unwrap_def)

lemma unwrap_or_False_iff: "unwrap_or r False \<longleftrightarrow> r = Ok True"
  by (cases r) auto

end
