(* ===== verification/UniversalAddr.thy ===== *)
theory UniversalAddr
  imports Prelude
begin

text \<open>
  Addresses: a Solana \<^verbatim>\<open>Pubkey\<close> (32 bytes) and the crate \<^verbatim>\<open>universal-address\<close>
  (\<^verbatim>\<open>svm/modules/universal-address/src/lib.rs\<close>), the 32-byte address form shared by all chains.
\<close>

text \<open>\<^verbatim>\<open>Pubkey\<close>: \<open>Pubkey\<close> is \<^verbatim>\<open>new_from_array\<close> and \<open>pubkey_bytes\<close> is \<^verbatim>\<open>to_bytes\<close>.\<close>

datatype pubkey = Pubkey (pubkey_bytes: bytes32)

text \<open>\<^verbatim>\<open>AsRef<[u8]>\<close> of a \<^verbatim>\<open>Pubkey\<close>: the bytes a seed list is made of.\<close>

definition as_ref :: "pubkey \<Rightarrow> u8 list" where
  "as_ref k = bytes_of (pubkey_bytes k)"

record universal_address =
  ua_bytes :: bytes32

definition from_bytes :: "bytes32 \<Rightarrow> universal_address" where
  "from_bytes b = \<lparr>ua_bytes = b\<rparr>"

definition to_bytes :: "universal_address \<Rightarrow> bytes32" where
  "to_bytes a = ua_bytes a"

definition from_pubkey :: "pubkey \<Rightarrow> universal_address" where
  "from_pubkey k = \<lparr>ua_bytes = pubkey_bytes k\<rparr>"

definition to_pubkey :: "universal_address \<Rightarrow> pubkey" where
  "to_pubkey a = Pubkey (ua_bytes a)"

text \<open>\<^verbatim>\<open>impl From<Pubkey> for UniversalAddress\<close> and \<^verbatim>\<open>impl From<UniversalAddress> for Pubkey\<close>.\<close>

definition universal_address_from :: "pubkey \<Rightarrow> universal_address" where
  "universal_address_from k = from_pubkey k"

definition pubkey_from :: "universal_address \<Rightarrow> pubkey" where
  "pubkey_from a = to_pubkey a"

lemma to_pubkey_from_pubkey [simp]: "to_pubkey (from_pubkey k) = k"
  by (simp add: to_pubkey_def from_pubkey_def)

lemma from_pubkey_to_pubkey [simp]: "from_pubkey (to_pubkey a) = a"
  by (simp add: to_pubkey_def from_pubkey_def)

lemma from_pubkey_inject [simp]: "from_pubkey k = from_pubkey l \<longleftrightarrow> k = l"
  by (metis to_pubkey_from_pubkey)

lemma to_bytes_inject: "to_bytes a = to_bytes b \<longleftrightarrow> a = b"
  by (cases a; cases b) (simp add: to_bytes_def)

lemma as_ref_inject [simp]: "as_ref k = as_ref l \<longleftrightarrow> k = l"
  by (cases k; cases l) (simp add: as_ref_def bytes_of_eq_iff)

lemma length_as_ref [simp]: "length (as_ref k) = 32"
  by (simp add: as_ref_def)

end
