(* ===== verification/Platform.thy ===== *)
theory Platform
  imports UniversalAddr
begin

text \<open>
  The code the endpoint calls and that is not part of the repository, as one record of
  functions: the \<^verbatim>\<open>bitmaps\<close> crate (\<^verbatim>\<open>bitmaps::Bitmap<128>\<close>, a type of its own, \<open>'bm\<close>),
  \<^verbatim>\<open>solana_program::keccak::hash\<close> and the two program-address functions of
  \<^verbatim>\<open>solana_program::pubkey\<close>. Every definition that uses one of them takes the record as its
  first argument. What the code relies on is stated as the laws of the two locales below; a
  theorem that needs them names the locale's predicate as a hypothesis.
\<close>

type_synonym seeds = "u8 list list"

record 'bm platform =
  bm_from_value :: "u128 \<Rightarrow> 'bm"
  bm_as_value :: "'bm \<Rightarrow> u128"
  bm_get :: "'bm \<Rightarrow> nat \<Rightarrow> bool"
  bm_set :: "'bm \<Rightarrow> nat \<Rightarrow> bool \<Rightarrow> 'bm"
  bm_and :: "'bm \<Rightarrow> 'bm \<Rightarrow> 'bm"
  bm_len :: "'bm \<Rightarrow> nat"
  bm_is_empty :: "'bm \<Rightarrow> bool"
  keccak_hash :: "u8 list \<Rightarrow> bytes32"
  find_program_address :: "seeds \<Rightarrow> pubkey \<Rightarrow> pubkey \<times> u8"
  create_program_address :: "seeds \<Rightarrow> pubkey \<Rightarrow> pubkey option"

section \<open>Laws of the bitmaps crate\<close>

text \<open>
  The documented behaviour of \<^verbatim>\<open>Bitmap<128>\<close>: the value round trip, \<^verbatim>\<open>get\<close> and \<^verbatim>\<open>set\<close> of one
  bit, \<^verbatim>\<open>&\<close>, the number of \<open>true\<close> bits and emptiness.
\<close>

locale bitmaps_crate =
  fixes P :: "'bm platform"
  assumes as_value_from_value: "bm_as_value P (bm_from_value P v) = v"
    and get_bit: "i < 128 \<Longrightarrow> bm_get P b i = bit (bm_as_value P b) i"
    and set_bits: "i < 128 \<Longrightarrow> bits (bm_as_value P (bm_set P b i x)) =
          (if x then insert i (bits (bm_as_value P b)) else bits (bm_as_value P b) - {i})"
    and and_bits: "bits (bm_as_value P (bm_and P a b)) =
          bits (bm_as_value P a) \<inter> bits (bm_as_value P b)"
    and len_bits: "bm_len P b = card (bits (bm_as_value P b))"
    and is_empty_bits: "bm_is_empty P b \<longleftrightarrow> bits (bm_as_value P b) = {}"

section \<open>Laws of program addresses\<close>

text \<open>
  \<^verbatim>\<open>find_program_address\<close> returns an address together with the bump seed for which
  \<^verbatim>\<open>create_program_address\<close> derives it.
\<close>

locale program_addresses =
  fixes P :: "'bm platform"
  assumes find_create:
    "create_program_address P (sds @ [[snd (find_program_address P sds prog)]]) prog =
       Some (fst (find_program_address P sds prog))"

text \<open>
  Two different seed lists of the set \<open>T\<close> never derive the same address of the program
  \<open>prog\<close>, whatever the bumps. Over all seed lists this is impossible (there are more of them
  than 32-byte addresses), so it is always stated for the seed lists that are in use.
\<close>

definition collision_free :: "'bm platform \<Rightarrow> pubkey \<Rightarrow> seeds set \<Rightarrow> bool" where
  "collision_free P prog T \<longleftrightarrow>
     (\<forall>s\<in>T. \<forall>t\<in>T. \<forall>b c k. create_program_address P (s @ [[b]]) prog = Some k \<longrightarrow>
        create_program_address P (t @ [[c]]) prog = Some k \<longrightarrow> s = t)"

lemma collision_freeD:
  assumes "collision_free P prog T" "s \<in> T" "t \<in> T"
    and "create_program_address P (s @ [[b]]) prog = Some k"
    and "create_program_address P (t @ [[c]]) prog = Some k"
  shows "s = t"
  using assms unfolding collision_free_def by blast

text \<open>The hash does not collide on the byte strings of \<open>M\<close>.\<close>

definition hash_collision_free :: "'bm platform \<Rightarrow> u8 list set \<Rightarrow> bool" where
  "hash_collision_free P M \<longleftrightarrow>
     (\<forall>x\<in>M. \<forall>y\<in>M. keccak_hash P x = keccak_hash P y \<longrightarrow> x = y)"

section \<open>A concrete platform\<close>

text \<open>
  A platform that satisfies the laws, for the concrete inputs of the witnesses. The bitmap is
  the word itself. The address digest keeps the length, the first and the last byte of every
  seed, which is enough to tell apart the small examples below.
\<close>

definition seed_mark :: "u8 list \<Rightarrow> u8 list" where
  "seed_mark sd = (case sd of [] \<Rightarrow> [0, 0, 0] | _ \<Rightarrow> [of_nat (length sd), hd sd, last sd])"

definition digest :: "seeds \<Rightarrow> pubkey \<Rightarrow> pubkey" where
  "digest sds prog = Pubkey (pad32 (concat (map seed_mark sds) @ [last (as_ref prog)]))"

definition sample_platform :: "u128 platform" where
  "sample_platform = \<lparr>
     bm_from_value = (\<lambda>v. v),
     bm_as_value = (\<lambda>b. b),
     bm_get = bit,
     bm_set = (\<lambda>b i x. if x then set_bit i b else unset_bit i b),
     bm_and = (AND),
     bm_len = (\<lambda>b. length (filter (bit b) [0..<128])),
     bm_is_empty = (\<lambda>b. b = 0),
     keccak_hash = (\<lambda>bs. pad32 bs),
     find_program_address = (\<lambda>sds prog. (digest (sds @ [[255]]) prog, 255)),
     create_program_address = (\<lambda>sds prog. Some (digest sds prog))\<rparr>"

lemma card_bits_filter: "card (bits (w :: u128)) = length (filter (bit w) [0..<128])"
proof -
  have "bits w = set (filter (bit w) [0..<128])"
    using bits_bounded [of w] by (auto simp: bits_def)
  moreover have "distinct (filter (bit w) [0..<128])"
    by simp
  ultimately show ?thesis
    by (metis distinct_card)
qed

interpretation sample_bits: bitmaps_crate sample_platform
  by unfold_locales
    (auto simp: sample_platform_def bits_set_bit bits_unset_bit bits_and card_bits_filter
       simp del: in_bits_iff)

interpretation sample_addr: program_addresses sample_platform
  by unfold_locales (simp add: sample_platform_def)

lemmas sample_laws = sample_bits.bitmaps_crate_axioms sample_addr.program_addresses_axioms

end
