(* ===== verification/Bitmap.thy ===== *)
theory Bitmap
  imports Errors Platform
begin

text \<open>
  \<^verbatim>\<open>utils/bitmap.rs\<close>: the 128-bit bitmap that indexes an integrator's adapters. Every operation
  goes through the \<^verbatim>\<open>bitmaps\<close> crate, as in the source. \<open>adapters_of\<close> reads a bitmap as the set
  of its indices; the laws at the end say what each operation does to that set.
\<close>

record bitmap =
  map_bits :: u128

definition BITS :: u8 where
  "BITS = 128"

definition bitmap_new :: bitmap where
  "bitmap_new = \<lparr>map_bits = 0\<rparr>"

definition bitmap_default :: bitmap where
  "bitmap_default = bitmap_new"

definition from_value :: "u128 \<Rightarrow> bitmap" where
  "from_value v = \<lparr>map_bits = v\<rparr>"

definition as_value :: "bitmap \<Rightarrow> u128" where
  "as_value self = map_bits self"

definition bitmap_set :: "'bm platform \<Rightarrow> bitmap \<Rightarrow> u8 \<Rightarrow> bool \<Rightarrow> bitmap result" where
  "bitmap_set P self index value =
     (if BITS \<le> index then Err (Endpoint_Error BitmapIndexOutOfBounds)
      else let bm = bm_from_value P (map_bits self);
               bm' = bm_set P bm (unat index) value
           in Ok (self\<lparr>map_bits := bm_as_value P bm'\<rparr>))"

definition bitmap_get :: "'bm platform \<Rightarrow> bitmap \<Rightarrow> u8 \<Rightarrow> bool result" where
  "bitmap_get P self index =
     (if BITS \<le> index then Err (Endpoint_Error BitmapIndexOutOfBounds)
      else Ok (bm_get P (bm_from_value P (map_bits self)) (unat index)))"

text \<open>\<^verbatim>\<open>try_into().expect(..)\<close>: a \<^verbatim>\<open>usize\<close> that does not fit a \<^verbatim>\<open>u8\<close> panics.\<close>

definition count_enabled_bits :: "'bm platform \<Rightarrow> bitmap \<Rightarrow> bitmap \<Rightarrow> u8 result" where
  "count_enabled_bits P self enabled =
     (let bm = bm_and P (bm_from_value P (map_bits self)) (bm_from_value P (map_bits enabled));
          n = bm_len P bm
      in if n < 256 then Ok (of_nat n) else Err Panicked)"

definition bitmap_len :: "'bm platform \<Rightarrow> bitmap \<Rightarrow> nat" where
  "bitmap_len P self = bm_len P (bm_from_value P (map_bits self))"

definition bitmap_is_empty :: "'bm platform \<Rightarrow> bitmap \<Rightarrow> bool" where
  "bitmap_is_empty P self = bm_is_empty P (bm_from_value P (map_bits self))"

section \<open>A bitmap as a set of adapter indices\<close>

definition adapters_of :: "bitmap \<Rightarrow> nat set" where
  "adapters_of b = bits (map_bits b)"

lemma adapters_of_new [simp]: "adapters_of bitmap_new = {}"
  by (simp add: adapters_of_def bitmap_new_def)

lemma adapters_of_from_value [simp]: "adapters_of (from_value v) = bits v"
  by (simp add: adapters_of_def from_value_def)

lemma finite_adapters_of [simp]: "finite (adapters_of b)"
  by (simp add: adapters_of_def)

lemma adapters_of_bounded: "i \<in> adapters_of b \<Longrightarrow> i < 128"
  using bits_bounded [of "map_bits b"] by (auto simp: adapters_of_def)

lemma adapters_of_inject: "adapters_of a = adapters_of b \<longleftrightarrow> a = b"
  by (cases a; cases b) (simp add: adapters_of_def bits_inject)

lemma as_value_eq_0_iff [simp]: "as_value b = 0 \<longleftrightarrow> adapters_of b = {}"
  by (simp add: as_value_def adapters_of_def)

lemma card_adapters_of: "card (adapters_of b) \<le> 128"
proof -
  have "adapters_of b \<subseteq> {..<128}"
    by (auto dest: adapters_of_bounded)
  then have "card (adapters_of b) \<le> card {..<128::nat}"
    by (intro card_mono) auto
  then show ?thesis by simp
qed

lemma BITS_le_iff: "BITS \<le> i \<longleftrightarrow> 128 \<le> unat i"
  by (simp add: BITS_def word_le_nat_alt)

text \<open>The reference operations: one index more, one index less.\<close>

definition with_adapter :: "nat \<Rightarrow> bitmap \<Rightarrow> bitmap" where
  "with_adapter i b = \<lparr>map_bits = set_bit i (map_bits b)\<rparr>"

definition without_adapter :: "nat \<Rightarrow> bitmap \<Rightarrow> bitmap" where
  "without_adapter i b = \<lparr>map_bits = unset_bit i (map_bits b)\<rparr>"

lemma adapters_of_with [simp]:
  "i < 128 \<Longrightarrow> adapters_of (with_adapter i b) = insert i (adapters_of b)"
  by (simp add: adapters_of_def with_adapter_def bits_set_bit)

lemma adapters_of_without [simp]: "adapters_of (without_adapter i b) = adapters_of b - {i}"
  by (simp add: adapters_of_def without_adapter_def bits_unset_bit)

text \<open>What the bitmap operations promise, from the laws of the crate.\<close>

context bitmaps_crate
begin

lemma bitmap_get_unfold:
  "bitmap_get P b i =
     (if unat i < 128 then Ok (unat i \<in> adapters_of b)
      else Err (Endpoint_Error BitmapIndexOutOfBounds))"
  by (auto simp: bitmap_get_def BITS_le_iff adapters_of_def get_bit as_value_from_value)

lemma bitmap_set_unfold:
  "bitmap_set P b i x =
     (if unat i < 128
      then Ok (if x then with_adapter (unat i) b else without_adapter (unat i) b)
      else Err (Endpoint_Error BitmapIndexOutOfBounds))"
proof (cases "unat i < 128")
  case True
  let ?b = "b\<lparr>map_bits := bm_as_value P (bm_set P (bm_from_value P (map_bits b)) (unat i) x)\<rparr>"
  have "bitmap_set P b i x = Ok ?b"
    using True by (simp add: bitmap_set_def BITS_le_iff)
  moreover have "adapters_of ?b =
      adapters_of (if x then with_adapter (unat i) b else without_adapter (unat i) b)"
    using set_bits [OF True] True by (simp add: adapters_of_def [of ?b] as_value_from_value)
      (simp add: adapters_of_def)
  ultimately show ?thesis
    using True by (simp add: adapters_of_inject)
next
  case False
  then show ?thesis by (simp add: bitmap_set_def BITS_le_iff)
qed

lemma bitmap_is_empty_unfold: "bitmap_is_empty P b \<longleftrightarrow> adapters_of b = {}"
  by (simp add: bitmap_is_empty_def adapters_of_def is_empty_bits as_value_from_value
      del: bits_eq_empty_iff)

lemma bitmap_len_unfold: "bitmap_len P b = card (adapters_of b)"
  by (simp add: bitmap_len_def adapters_of_def len_bits as_value_from_value)

lemma count_enabled_bits_unfold:
  "count_enabled_bits P b e = Ok (of_nat (card (adapters_of b \<inter> adapters_of e)))"
proof -
  have "card (adapters_of b \<inter> adapters_of e) \<le> card (adapters_of b)"
    by (intro card_mono) auto
  then have "card (adapters_of b \<inter> adapters_of e) < 256"
    using card_adapters_of [of b] by simp
  then show ?thesis
    by (simp add: count_enabled_bits_def adapters_of_def len_bits and_bits as_value_from_value)
qed

end

end
