(* ===== verification/State.thy ===== *)
theory State
  imports Bitmap
begin

text \<open>
  \<^verbatim>\<open>state/*.rs\<close>: the six account types the endpoint stores, their program-address seeds and
  the operations implemented on them. Field names carry a prefix per struct, because record
  fields share one name space: \<open>ic\<close> IntegratorConfig, \<open>cc\<close> IntegratorChainConfig, \<open>ad\<close>
  AdapterInfo, \<open>st\<close> SequenceTracker, \<open>ob\<close> OutboxMessage, \<open>at\<close> AttestationInfo.
\<close>

section \<open>Program constants\<close>

text \<open>\<^verbatim>\<open>declare_id!("FMPF1RnXz1vvZ6eovoEQqMPXYRUgYqFKFMXzTJkbWWVD")\<close>: the base-58 literal's bytes.\<close>

definition endpoint_id :: pubkey where
  "endpoint_id = Pubkey (pad32
     [213, 60, 97, 183, 54, 3, 249, 111, 155, 216, 71, 229, 164, 148, 99, 64,
      148, 47, 209, 165, 29, 186, 213, 239, 207, 174, 198, 60, 2, 252, 56, 64])"

definition CHAIN_ID :: u16 where
  "CHAIN_ID = 1"

section \<open>IntegratorConfig\<close>

record integrator_config =
  ic_bump :: u8
  ic_integrator_program_id :: pubkey
  ic_admin :: "pubkey option"
  ic_pending_admin :: "pubkey option"
  ic_adapter_infos :: "pubkey list"

definition integrator_config_seeds :: "pubkey \<Rightarrow> seeds" where
  "integrator_config_seeds program_id = [byte_string ''integrator_config'', as_ref program_id]"

definition MAX_ADAPTERS :: nat where
  "MAX_ADAPTERS = 128"

definition integrator_config_pda :: "'bm platform \<Rightarrow> pubkey \<Rightarrow> pubkey \<times> u8" where
  "integrator_config_pda P program_id =
     find_program_address P (integrator_config_seeds program_id) endpoint_id"

definition check_admin :: "integrator_config \<Rightarrow> pubkey \<Rightarrow> unit result" where
  "check_admin self signer =
     and_then (require (ic_admin self = Some signer) (Endpoint_Error CallerNotAuthorized)) (\<lambda>_.
     require (ic_pending_admin self = None) (Endpoint_Error AdminTransferInProgress))"

definition config_add_adapter :: "integrator_config \<Rightarrow> pubkey \<Rightarrow> integrator_config result" where
  "config_add_adapter self adapter =
     and_then (require (length (ic_adapter_infos self) < MAX_ADAPTERS)
                 (Endpoint_Error MaxAdaptersReached)) (\<lambda>_.
     Ok (self\<lparr>ic_adapter_infos := ic_adapter_infos self @ [adapter]\<rparr>))"

lemma check_admin_eq_Ok [ok_iff]:
  "check_admin c k = Ok u \<longleftrightarrow> ic_admin c = Some k \<and> ic_pending_admin c = None"
  by (auto simp: check_admin_def ok_iff)

lemma check_admin_branches:
  "check_admin c k =
     (if ic_admin c \<noteq> Some k then Err (Endpoint_Error CallerNotAuthorized)
      else if ic_pending_admin c \<noteq> None then Err (Endpoint_Error AdminTransferInProgress)
      else Ok ())"
  by (simp add: check_admin_def require_def)

lemma config_add_adapter_eq_Ok [ok_iff]:
  "config_add_adapter c a = Ok c' \<longleftrightarrow> length (ic_adapter_infos c) < 128 \<and>
     c' = c\<lparr>ic_adapter_infos := ic_adapter_infos c @ [a]\<rparr>"
  by (auto simp: config_add_adapter_def MAX_ADAPTERS_def ok_iff)

section \<open>IntegratorChainConfig\<close>

record integrator_chain_config =
  cc_bump :: u8
  cc_integrator_program_id :: pubkey
  cc_chain_id :: u16
  cc_send_adapter_bitmap :: bitmap
  cc_recv_adapter_bitmap :: bitmap

definition integrator_chain_config_seeds :: "pubkey \<Rightarrow> u16 \<Rightarrow> seeds" where
  "integrator_chain_config_seeds program_id chain_id =
     [byte_string ''integrator_chain_config'', as_ref program_id, to_be_bytes 2 chain_id]"

definition integrator_chain_config_pda :: "'bm platform \<Rightarrow> pubkey \<Rightarrow> u16 \<Rightarrow> pubkey \<times> u8" where
  "integrator_chain_config_pda P program_id chain_id =
     find_program_address P (integrator_chain_config_seeds program_id chain_id) endpoint_id"

section \<open>AdapterInfo\<close>

record adapter_info =
  ad_bump :: u8
  ad_integrator_program_id :: pubkey
  ad_adapter_program_id :: pubkey
  ad_index :: u8

definition adapter_info_seeds :: "pubkey \<Rightarrow> pubkey \<Rightarrow> seeds" where
  "adapter_info_seeds program_id adapter_id =
     [byte_string ''adapter_info'', as_ref program_id, as_ref adapter_id]"

definition adapter_info_pda :: "'bm platform \<Rightarrow> pubkey \<Rightarrow> pubkey \<Rightarrow> pubkey \<times> u8" where
  "adapter_info_pda P program_id adapter_id =
     find_program_address P (adapter_info_seeds program_id adapter_id) endpoint_id"

section \<open>SequenceTracker\<close>

record sequence_tracker =
  st_bump :: u8
  st_integrator_program_id :: pubkey
  st_sequence :: u64

definition sequence_tracker_seeds :: "pubkey \<Rightarrow> seeds" where
  "sequence_tracker_seeds program_id = [byte_string ''sequence_tracker'', as_ref program_id]"

definition sequence_tracker_pda :: "'bm platform \<Rightarrow> pubkey \<Rightarrow> pubkey \<times> u8" where
  "sequence_tracker_pda P program_id =
     find_program_address P (sequence_tracker_seeds program_id) endpoint_id"

text \<open>Returns the tracker with its sequence advanced, and the sequence number that was next.\<close>

definition next_sequence :: "sequence_tracker \<Rightarrow> (sequence_tracker \<times> u64) result" where
  "next_sequence self =
     (let sequence = st_sequence self in
      and_then (unwrap (checked_add (st_sequence self) 1)) (\<lambda>n.
      Ok (self\<lparr>st_sequence := n\<rparr>, sequence)))"

lemma next_sequence_eq_Ok [ok_iff]:
  "next_sequence t = Ok (t', q) \<longleftrightarrow>
     q = st_sequence t \<and> unat (st_sequence t') = unat (st_sequence t) + 1 \<and>
     t' = t\<lparr>st_sequence := st_sequence t'\<rparr>"
  by (cases t; cases t') (auto simp: next_sequence_def ok_iff checked_add_Some_iff)

lemma next_sequence_cases:
  "next_sequence t =
     (if st_sequence t = - 1 then Err Panicked
      else Ok (t\<lparr>st_sequence := st_sequence t + 1\<rparr>, st_sequence t)) \<and>
   (st_sequence t \<noteq> - 1 \<longrightarrow> st_sequence t < st_sequence t + 1)"
proof -
  have max: "unat (- 1 :: u64) = 2 ^ 64 - 1"
    by (simp add: unsigned_minus_1_eq_mask mask_eq_exp_minus_1)
  show ?thesis
  proof (cases "st_sequence t = - 1")
    case True
    then show ?thesis
      using max by (simp add: next_sequence_def checked_add_def)
  next
    case False
    then have "unat (st_sequence t) \<noteq> 2 ^ 64 - 1"
      unfolding max [symmetric] by (simp add: word_unat_eq_iff [symmetric])
    then have less: "unat (st_sequence t) + 1 < 2 ^ 64"
      using unsigned_less [where ?'a = nat, of "st_sequence t"] by simp
    then have "unat (st_sequence t + 1) = unat (st_sequence t) + 1"
      by (simp add: unat_word_ariths)
    then show ?thesis
      using False less by (simp add: next_sequence_def checked_add_def word_less_nat_alt)
  qed
qed

lemmas next_sequence_branches = next_sequence_cases [THEN conjunct1]

section \<open>OutboxMessage\<close>

record outbox_message =
  ob_src_addr :: universal_address
  ob_sequence :: u64
  ob_dst_chain :: u16
  ob_dst_addr :: universal_address
  ob_payload_hash :: bytes32
  ob_outstanding_adapters :: bitmap
  ob_refund_recipient :: pubkey

section \<open>AttestationInfo\<close>

record attestation_info =
  at_bump :: u8
  at_message_hash :: bytes32
  at_src_chain :: u16
  at_src_addr :: universal_address
  at_sequence :: u64
  at_dst_chain :: u16
  at_dst_addr :: universal_address
  at_payload_hash :: bytes32
  at_executed :: bool
  at_attested_adapters :: bitmap

text \<open>The bytes that are hashed: the six fields, packed big-endian with no separators.\<close>

definition message_bytes ::
  "u16 \<Rightarrow> universal_address \<Rightarrow> u64 \<Rightarrow> u16 \<Rightarrow> universal_address \<Rightarrow> bytes32 \<Rightarrow> u8 list" where
  "message_bytes src_chain src_addr sequence dst_chain dst_addr payload_hash =
     to_be_bytes 2 src_chain @ bytes_of (to_bytes src_addr) @ to_be_bytes 8 sequence @
     to_be_bytes 2 dst_chain @ bytes_of (to_bytes dst_addr) @ bytes_of payload_hash"

definition compute_message_hash ::
  "'bm platform \<Rightarrow> u16 \<Rightarrow> universal_address \<Rightarrow> u64 \<Rightarrow> u16 \<Rightarrow> universal_address \<Rightarrow> bytes32 \<Rightarrow> bytes32"
  where
  "compute_message_hash P src_chain src_addr sequence dst_chain dst_addr payload_hash =
     keccak_hash P (message_bytes src_chain src_addr sequence dst_chain dst_addr payload_hash)"

definition compute_own_message_hash :: "'bm platform \<Rightarrow> attestation_info \<Rightarrow> bytes32" where
  "compute_own_message_hash P self =
     compute_message_hash P (at_src_chain self) (at_src_addr self) (at_sequence self)
       (at_dst_chain self) (at_dst_addr self) (at_payload_hash self)"

definition attestation_info_new ::
  "'bm platform \<Rightarrow> u8 \<Rightarrow> u16 \<Rightarrow> universal_address \<Rightarrow> u64 \<Rightarrow> u16 \<Rightarrow> universal_address \<Rightarrow> bytes32 \<Rightarrow>
     attestation_info result" where
  "attestation_info_new P bump src_chain src_addr sequence dst_chain dst_addr payload_hash =
     and_then (require (src_chain \<noteq> 0 \<and> dst_chain \<noteq> 0) (Endpoint_Error InvalidChainId)) (\<lambda>_.
     let info = \<lparr>at_bump = bump, at_message_hash = repeat32 0, at_src_chain = src_chain,
                 at_src_addr = src_addr, at_sequence = sequence, at_dst_chain = dst_chain,
                 at_dst_addr = dst_addr, at_payload_hash = payload_hash, at_executed = False,
                 at_attested_adapters = bitmap_new\<rparr>
     in Ok (info\<lparr>at_message_hash := compute_own_message_hash P info\<rparr>))"

definition attestation_info_seeds :: "bytes32 \<Rightarrow> seeds" where
  "attestation_info_seeds message_hash =
     [byte_string ''attestation_info'', bytes_of message_hash]"

definition attestation_info_pda :: "'bm platform \<Rightarrow> bytes32 \<Rightarrow> pubkey \<times> u8" where
  "attestation_info_pda P message_hash =
     find_program_address P (attestation_info_seeds message_hash) endpoint_id"

lemma attestation_info_new_eq_Ok [ok_iff]:
  "attestation_info_new P b c a q d e h = Ok i \<longleftrightarrow> c \<noteq> 0 \<and> d \<noteq> 0 \<and>
     i = \<lparr>at_bump = b, at_message_hash = compute_message_hash P c a q d e h, at_src_chain = c,
          at_src_addr = a, at_sequence = q, at_dst_chain = d, at_dst_addr = e,
          at_payload_hash = h, at_executed = False, at_attested_adapters = bitmap_new\<rparr>"
  by (auto simp: attestation_info_new_def ok_iff Let_def compute_own_message_hash_def)

lemma length_message_bytes [simp]: "length (message_bytes c a q d e h) = 108"
  by (simp add: message_bytes_def)

text \<open>The packing has no separators, but every field has a fixed width.\<close>

lemma message_bytes_inject:
  "message_bytes c a q d e h = message_bytes c' a' q' d' e' h' \<longleftrightarrow>
     c = c' \<and> a = a' \<and> q = q' \<and> d = d' \<and> e = e' \<and> h = h'"
  by (auto simp: message_bytes_def append_eq_append_conv to_be_bytes_inject bytes_of_eq_iff
      to_bytes_inject)

section \<open>Seed lists determine their account\<close>

lemma integrator_config_seeds_inject [simp]:
  "integrator_config_seeds i = integrator_config_seeds j \<longleftrightarrow> i = j"
  by (simp add: integrator_config_seeds_def)

lemma integrator_chain_config_seeds_inject [simp]:
  "integrator_chain_config_seeds i c = integrator_chain_config_seeds j d \<longleftrightarrow> i = j \<and> c = d"
  by (simp add: integrator_chain_config_seeds_def to_be_bytes_inject)

lemma adapter_info_seeds_inject [simp]:
  "adapter_info_seeds i a = adapter_info_seeds j b \<longleftrightarrow> i = j \<and> a = b"
  by (simp add: adapter_info_seeds_def)

lemma sequence_tracker_seeds_inject [simp]:
  "sequence_tracker_seeds i = sequence_tracker_seeds j \<longleftrightarrow> i = j"
  by (simp add: sequence_tracker_seeds_def)

lemma attestation_info_seeds_inject [simp]:
  "attestation_info_seeds h = attestation_info_seeds k \<longleftrightarrow> h = k"
  by (simp add: attestation_info_seeds_def bytes_of_eq_iff)

end
