(* ===== verification/Events.thy ===== *)
theory Events
  imports UniversalAddr
begin

text \<open>
  \<^verbatim>\<open>event.rs\<close>: the events the handlers emit, one constructor per event struct with the
  struct's fields in their order.
\<close>

datatype event =
    IntegratorRegistered
      pubkey \<comment> \<open>integrator\<close>
      pubkey \<comment> \<open>admin\<close>
  | AdminUpdated
      pubkey \<comment> \<open>integrator\<close>
      pubkey \<comment> \<open>old_admin\<close>
      pubkey \<comment> \<open>new_admin\<close>
  | AdminUpdateRequested
      pubkey \<comment> \<open>integrator\<close>
      pubkey \<comment> \<open>old_admin\<close>
      pubkey \<comment> \<open>new_admin\<close>
  | MessageSent
      universal_address \<comment> \<open>sender\<close>
      u64               \<comment> \<open>sequence\<close>
      universal_address \<comment> \<open>recipient\<close>
      u16               \<comment> \<open>recipient_chain\<close>
      bytes32           \<comment> \<open>payload_digest\<close>
  | MessagePickedUp
      universal_address \<comment> \<open>src_addr\<close>
      u64               \<comment> \<open>sequence\<close>
      u16               \<comment> \<open>dst_chain\<close>
      universal_address \<comment> \<open>dst_addr\<close>
      bytes32           \<comment> \<open>payload_hash\<close>
      pubkey            \<comment> \<open>adapter\<close>
      u128              \<comment> \<open>remaining_adapters\<close>
  | MessageAttestedTo
      bytes32           \<comment> \<open>message_hash\<close>
      u16               \<comment> \<open>src_chain\<close>
      universal_address \<comment> \<open>src_addr\<close>
      u64               \<comment> \<open>sequence\<close>
      u16               \<comment> \<open>dst_chain\<close>
      universal_address \<comment> \<open>dst_addr\<close>
      bytes32           \<comment> \<open>payload_hash\<close>
      u128              \<comment> \<open>attested_bitmap\<close>
      universal_address \<comment> \<open>attesting_adapter\<close>
  | MessageReceived
      bytes32           \<comment> \<open>message_hash\<close>
      u16               \<comment> \<open>src_chain\<close>
      universal_address \<comment> \<open>src_addr\<close>
      u64               \<comment> \<open>sequence\<close>
      u16               \<comment> \<open>dst_chain\<close>
      universal_address \<comment> \<open>dst_addr\<close>
      bytes32           \<comment> \<open>payload_hash\<close>
      u128              \<comment> \<open>enabled_bitmap\<close>
      u128              \<comment> \<open>attested_bitmap\<close>
  | MessageExecuted
      bytes32           \<comment> \<open>message_hash\<close>
      u16               \<comment> \<open>src_chain\<close>
      universal_address \<comment> \<open>src_addr\<close>
      u64               \<comment> \<open>sequence\<close>
      u16               \<comment> \<open>dst_chain\<close>
      universal_address \<comment> \<open>dst_addr\<close>
      bytes32           \<comment> \<open>payload_hash\<close>
  | AdapterAdded
      pubkey \<comment> \<open>integrator\<close>
      pubkey \<comment> \<open>adapter\<close>
      u8     \<comment> \<open>adapters_num\<close>
  | SendAdapterEnabledForChain
      pubkey \<comment> \<open>integrator\<close>
      u16    \<comment> \<open>chain\<close>
      pubkey \<comment> \<open>adapter\<close>
  | RecvAdapterEnabledForChain
      pubkey \<comment> \<open>integrator\<close>
      u16    \<comment> \<open>chain\<close>
      pubkey \<comment> \<open>adapter\<close>
  | SendAdapterDisabledForChain
      pubkey \<comment> \<open>integrator\<close>
      u16    \<comment> \<open>chain\<close>
      pubkey \<comment> \<open>adapter\<close>
  | RecvAdapterDisabledForChain
      pubkey \<comment> \<open>integrator\<close>
      u16    \<comment> \<open>chain\<close>
      pubkey \<comment> \<open>adapter\<close>
  | AdminDiscarded
      pubkey \<comment> \<open>integrator\<close>

text \<open>The message hash of an event that marks a message as executed.\<close>

fun execution_hash :: "event \<Rightarrow> bytes32 option" where
  "execution_hash (MessageReceived h _ _ _ _ _ _ _ _) = Some h"
| "execution_hash (MessageExecuted h _ _ _ _ _ _) = Some h"
| "execution_hash _ = None"

text \<open>How often the log marks the message with the hash \<open>h\<close> as executed.\<close>

definition executions :: "bytes32 \<Rightarrow> event list \<Rightarrow> nat" where
  "executions h log = length (filter (\<lambda>e. execution_hash e = Some h) log)"

lemma executions_append [simp]: "executions h (xs @ ys) = executions h xs + executions h ys"
  by (simp add: executions_def)

lemma executions_Nil [simp]: "executions h [] = 0"
  by (simp add: executions_def)

lemma executions_single [simp]:
  "executions h [e] = (if execution_hash e = Some h then 1 else 0)"
  by (simp add: executions_def)

text \<open>Sender and sequence number of an event that announces a new message.\<close>

fun sent_id :: "event \<Rightarrow> (universal_address \<times> u64) option" where
  "sent_id (MessageSent sender sequence _ _ _) = Some (sender, sequence)"
| "sent_id _ = None"

definition sent_ids :: "event list \<Rightarrow> (universal_address \<times> u64) list" where
  "sent_ids log = List.map_filter sent_id log"

lemma sent_ids_append [simp]: "sent_ids (xs @ ys) = sent_ids xs @ sent_ids ys"
  by (simp add: sent_ids_def map_filter_def)

lemma sent_ids_Nil [simp]: "sent_ids [] = []"
  by (simp add: sent_ids_def map_filter_simps)

lemma sent_ids_single [simp]:
  "sent_ids [e] = (case sent_id e of None \<Rightarrow> [] | Some x \<Rightarrow> [x])"
  by (simp add: sent_ids_def map_filter_simps split: option.splits)

text \<open>An event that neither marks a message as executed nor announces one.\<close>

definition neutral :: "event \<Rightarrow> bool" where
  "neutral e \<longleftrightarrow> execution_hash e = None \<and> sent_id e = None"

lemma neutral_simps [simp]:
  "neutral (IntegratorRegistered x1 x2)" "neutral (AdminUpdated x1 x2 x3)"
  "neutral (AdminUpdateRequested x1 x2 x3)" "neutral (MessagePickedUp w1 x4 x5 x6 x7 x8 x9)"
  "neutral (MessageAttestedTo y1 y2 y3 y4 y5 y6 y7 y8 y9)" "neutral (AdapterAdded x1 x2 z)"
  "neutral (SendAdapterEnabledForChain x1 c x2)" "neutral (RecvAdapterEnabledForChain x1 c x2)"
  "neutral (SendAdapterDisabledForChain x1 c x2)" "neutral (RecvAdapterDisabledForChain x1 c x2)"
  "neutral (AdminDiscarded x1)"
  by (simp_all add: neutral_def)

end
