(* ===== verification/Ledger.thy ===== *)
theory Ledger
  imports State Events
begin

text \<open>
  The ledger the program runs on, and the account constraints of the \<^verbatim>\<open>#[derive(Accounts)]\<close>
  structs. An account has an owner program and data; the data of an account of the endpoint is
  one of its six account types, told apart by the discriminator Anchor writes in front of
  them (here: the constructor). An address with no entry is an account with no lamports,
  owned by the system program.

  Anchor evaluates a struct in three phases, which every \<open>_try_accounts\<close> definition follows:
  the fields without \<^verbatim>\<open>init\<close> are loaded in their order (\<^verbatim>\<open>Account\<close>, \<^verbatim>\<open>Signer\<close>, \<^verbatim>\<open>Program\<close>); then
  the \<^verbatim>\<open>init\<close> and \<^verbatim>\<open>init_if_needed\<close> fields are created or loaded; then the remaining constraints
  of the other fields are checked in the order of the fields, \<^verbatim>\<open>seeds\<close> before \<^verbatim>\<open>mut\<close> before
  \<^verbatim>\<open>has_one\<close> before \<^verbatim>\<open>constraint\<close>. A transaction that ends in an error changes nothing, so an
  operation returns the new ledger or an error.
\<close>

section \<open>Accounts and the ledger\<close>

datatype account_data =
    Empty_Data                      \<comment> \<open>no data\<close>
  | Zero_Data                       \<comment> \<open>allocated, every byte zero, the discriminator too\<close>
  | Other_Data "u8 list"            \<comment> \<open>anything that carries no discriminator of the endpoint\<close>
  | Integrator_Config_Data integrator_config
  | Chain_Config_Data integrator_chain_config
  | Adapter_Info_Data adapter_info
  | Sequence_Tracker_Data sequence_tracker
  | Outbox_Message_Data outbox_message
  | Attestation_Info_Data attestation_info

fun carries_discriminator :: "account_data \<Rightarrow> bool" where
  "carries_discriminator Empty_Data = False"
| "carries_discriminator Zero_Data = False"
| "carries_discriminator (Other_Data _) = False"
| "carries_discriminator _ = True"

fun as_integrator_config :: "account_data \<Rightarrow> integrator_config option" where
  "as_integrator_config (Integrator_Config_Data c) = Some c"
| "as_integrator_config _ = None"

fun as_chain_config :: "account_data \<Rightarrow> integrator_chain_config option" where
  "as_chain_config (Chain_Config_Data c) = Some c"
| "as_chain_config _ = None"

fun as_adapter_info :: "account_data \<Rightarrow> adapter_info option" where
  "as_adapter_info (Adapter_Info_Data a) = Some a"
| "as_adapter_info _ = None"

fun as_sequence_tracker :: "account_data \<Rightarrow> sequence_tracker option" where
  "as_sequence_tracker (Sequence_Tracker_Data t) = Some t"
| "as_sequence_tracker _ = None"

fun as_outbox_message :: "account_data \<Rightarrow> outbox_message option" where
  "as_outbox_message (Outbox_Message_Data m) = Some m"
| "as_outbox_message _ = None"

fun as_attestation_info :: "account_data \<Rightarrow> attestation_info option" where
  "as_attestation_info (Attestation_Info_Data i) = Some i"
| "as_attestation_info _ = None"

record account =
  owner :: pubkey
  data :: account_data

record ledger =
  accounts :: "pubkey \<rightharpoonup> account"
  events :: "event list"

text \<open>An account as an instruction passes it: its address and the rights that come with it.\<close>

record account_meta =
  key :: pubkey
  is_signer :: bool
  is_writable :: bool

text \<open>\<^verbatim>\<open>system_program::ID\<close>, the all-zero address.\<close>

definition system_program_id :: pubkey where
  "system_program_id = Pubkey (repeat32 0)"

definition owner_of :: "ledger \<Rightarrow> pubkey \<Rightarrow> pubkey" where
  "owner_of s k = (case accounts s k of None \<Rightarrow> system_program_id | Some a \<Rightarrow> owner a)"

text \<open>What the endpoint stores at an address, read as one of its account types.\<close>

definition read :: "(account_data \<Rightarrow> 'a option) \<Rightarrow> ledger \<Rightarrow> pubkey \<Rightarrow> 'a option" where
  "read proj s k = (case accounts s k of None \<Rightarrow> None
     | Some a \<Rightarrow> if owner a = endpoint_id then proj (data a) else None)"

abbreviation "config_at \<equiv> read as_integrator_config"
abbreviation "chain_config_at \<equiv> read as_chain_config"
abbreviation "adapter_info_at \<equiv> read as_adapter_info"
abbreviation "tracker_at \<equiv> read as_sequence_tracker"
abbreviation "outbox_at \<equiv> read as_outbox_message"
abbreviation "attestation_at \<equiv> read as_attestation_info"

text \<open>Writing an account of the endpoint back, emitting an event, closing an account.\<close>

definition store :: "pubkey \<Rightarrow> account_data \<Rightarrow> ledger \<Rightarrow> ledger" where
  "store k d s = s\<lparr>accounts := (accounts s)(k \<mapsto> \<lparr>owner = endpoint_id, data = d\<rparr>)\<rparr>"

definition emit_cpi :: "event \<Rightarrow> ledger \<Rightarrow> ledger" where
  "emit_cpi e s = s\<lparr>events := events s @ [e]\<rparr>"

definition close_account :: "pubkey \<Rightarrow> ledger \<Rightarrow> ledger" where
  "close_account k s = s\<lparr>accounts := (accounts s)(k := None)\<rparr>"

section \<open>Loading accounts\<close>

text \<open>Data too short to hold a discriminator.\<close>

fun short_data :: "account_data \<Rightarrow> bool" where
  "short_data Empty_Data = True"
| "short_data (Other_Data bs) = (length bs < 8)"
| "short_data _ = False"

text \<open>\<^verbatim>\<open>try_deserialize\<close> of an account type: \<^verbatim>\<open>Serialization\<close> shows that the bytes are read this way.\<close>

definition load_data :: "(account_data \<Rightarrow> 'a option) \<Rightarrow> account_data \<Rightarrow> 'a result" where
  "load_data proj d =
     (case proj d of
        None \<Rightarrow> Err (Anchor_Error (if short_data d then AccountDiscriminatorNotFound
                                  else AccountDiscriminatorMismatch))
      | Some v \<Rightarrow> Ok v)"

text \<open>\<^verbatim>\<open>Account<T>\<close>: initialised, owned by the endpoint and of the type \<^verbatim>\<open>T\<close>.\<close>

definition account_try_from ::
  "(account_data \<Rightarrow> 'a option) \<Rightarrow> ledger \<Rightarrow> account_meta \<Rightarrow> 'a result" where
  "account_try_from proj s ai =
     (case accounts s (key ai) of
        None \<Rightarrow> Err (Anchor_Error AccountNotInitialized)
      | Some a \<Rightarrow>
          if owner a \<noteq> endpoint_id then Err (Anchor_Error AccountOwnedByWrongProgram)
          else load_data proj (data a))"

text \<open>\<^verbatim>\<open>Signer\<close>.\<close>

definition signer_try_from :: "account_meta \<Rightarrow> unit result" where
  "signer_try_from ai = require (is_signer ai) (Anchor_Error AccountNotSigner)"

text \<open>\<^verbatim>\<open>Program<System>\<close>.\<close>

definition system_try_from :: "account_meta \<Rightarrow> unit result" where
  "system_try_from ai = require (key ai = system_program_id) (Anchor_Error InvalidProgramId)"

section \<open>Constraints\<close>

definition constraint_mut :: "account_meta \<Rightarrow> unit result" where
  "constraint_mut ai = require (is_writable ai) (Anchor_Error ConstraintMut)"

text \<open>\<^verbatim>\<open>seeds = .., bump = b, seeds::program = prog\<close>: the address derived with the given bump.\<close>

definition constraint_seeds_with_bump ::
  "'bm platform \<Rightarrow> seeds \<Rightarrow> u8 \<Rightarrow> pubkey \<Rightarrow> account_meta \<Rightarrow> unit result" where
  "constraint_seeds_with_bump P sds b prog ai =
     require (create_program_address P (sds @ [[b]]) prog = Some (key ai))
       (Anchor_Error ConstraintSeeds)"

text \<open>\<^verbatim>\<open>seeds = .., bump\<close>: the address with the bump that \<^verbatim>\<open>find_program_address\<close> finds.\<close>

definition constraint_seeds :: "'bm platform \<Rightarrow> seeds \<Rightarrow> account_meta \<Rightarrow> u8 result" where
  "constraint_seeds P sds ai =
     and_then (require (key ai = fst (find_program_address P sds endpoint_id))
                 (Anchor_Error ConstraintSeeds)) (\<lambda>_.
     Ok (snd (find_program_address P sds endpoint_id)))"

text \<open>
  The program address an integrator program signs with, and the one an adapter program signs
  with: both are derived from one fixed seed, under the calling program's own id.
\<close>

definition integrator_pda_seeds :: seeds where
  "integrator_pda_seeds = [byte_string ''endpoint_integrator'']"

definition adapter_pda_seeds :: seeds where
  "adapter_pda_seeds = [byte_string ''adapter_pda'']"

section \<open>Events\<close>

text \<open>
  \<^verbatim>\<open>#[event_cpi]\<close> adds two accounts to a struct: \<^verbatim>\<open>event_authority\<close>, with seeds and a bump of the
  endpoint, and \<^verbatim>\<open>program\<close>, which is not checked. \<^verbatim>\<open>emit_cpi!\<close> calls the endpoint itself, and the
  runtime finds the endpoint only among the accounts passed: the call fails when \<^verbatim>\<open>program\<close> is
  another account.
\<close>

definition event_authority_seeds :: seeds where
  "event_authority_seeds = [byte_string ''__event_authority'']"

definition event_authority :: "'bm platform \<Rightarrow> pubkey" where
  "event_authority P = fst (find_program_address P event_authority_seeds endpoint_id)"

definition event_authority_try_from :: "'bm platform \<Rightarrow> account_meta \<Rightarrow> unit result" where
  "event_authority_try_from P ai =
     and_then (constraint_seeds P event_authority_seeds ai) (\<lambda>_. Ok ())"

definition self_cpi :: "account_meta \<Rightarrow> unit result" where
  "self_cpi program = require (key program = endpoint_id) MissingAccount"

section \<open>Creating accounts\<close>

text \<open>
  The system program creates an account at an address that is not in use yet (nobody owns it
  and it holds no data; lamports sent to it beforehand do not matter). Payer and new account
  have to be writable and have to sign; for a program address the endpoint signs itself. Anchor
  refuses to create an account at the payer's own address when that address holds lamports, as
  the address of every payer does that can pay the rent.
\<close>

definition in_use :: "ledger \<Rightarrow> pubkey \<Rightarrow> bool" where
  "in_use s k = (case accounts s k of None \<Rightarrow> False
     | Some a \<Rightarrow> owner a \<noteq> system_program_id \<or> data a \<noteq> Empty_Data)"

definition create_account ::
  "account_meta \<Rightarrow> account_meta \<Rightarrow> bool \<Rightarrow> ledger \<Rightarrow> ledger result" where
  "create_account payer ai sig s =
     and_then (require (key payer \<noteq> key ai)
                 (Anchor_Error TryingToInitPayerAsProgramAccount)) (\<lambda>_.
     and_then (require (is_signer payer \<and> is_writable payer \<and> sig \<and> is_writable ai)
                 PrivilegeEscalation) (\<lambda>_.
     and_then (require (\<not> in_use s (key ai)) AccountAlreadyInUse) (\<lambda>_.
     Ok (store (key ai) Zero_Data s))))"

text \<open>\<^verbatim>\<open>init, payer = .., seeds = .., bump\<close>.\<close>

definition init_pda ::
  "'bm platform \<Rightarrow> seeds \<Rightarrow> account_meta \<Rightarrow> account_meta \<Rightarrow> ledger \<Rightarrow> (ledger \<times> u8) result" where
  "init_pda P sds payer ai s =
     and_then (constraint_seeds P sds ai) (\<lambda>b.
     and_then (create_account payer ai True s) (\<lambda>s'.
     Ok (s', b)))"

text \<open>\<^verbatim>\<open>init, payer = ..\<close> with no seeds: the account's own key signs.\<close>

definition init_keypair :: "account_meta \<Rightarrow> account_meta \<Rightarrow> ledger \<Rightarrow> ledger result" where
  "init_keypair payer ai s = create_account payer ai (is_signer ai) s"

text \<open>
  \<^verbatim>\<open>init_if_needed, payer = .., seeds = .., bump\<close>: an account the system program still owns is
  created, and its zero bytes are read as \<open>zero\<close>; any other one is loaded. Anchor also compares
  the space, the owner and the rent of a loaded account with those it would be created with; an
  account that loads as the endpoint's was created here, with exactly these.
\<close>

definition init_if_needed_pda ::
  "'bm platform \<Rightarrow> (account_data \<Rightarrow> 'a option) \<Rightarrow> 'a \<Rightarrow> seeds \<Rightarrow> account_meta \<Rightarrow> account_meta \<Rightarrow>
     ledger \<Rightarrow> (ledger \<times> 'a \<times> u8) result" where
  "init_if_needed_pda P proj zero sds payer ai s =
     and_then (constraint_seeds P sds ai) (\<lambda>b.
     if owner_of s (key ai) = system_program_id
     then and_then (create_account payer ai True s) (\<lambda>s'. Ok (s', zero, b))
     else and_then (account_try_from proj s ai) (\<lambda>v.
          and_then (constraint_mut ai) (\<lambda>_. Ok (s, v, b))))"

section \<open>When they succeed\<close>

lemma account_try_from_eq_Ok [ok_iff]:
  "account_try_from proj s ai = Ok v \<longleftrightarrow> read proj s (key ai) = Some v"
  by (auto simp: account_try_from_def load_data_def read_def split: option.splits)

lemma signer_try_from_eq_Ok [ok_iff]: "signer_try_from ai = Ok u \<longleftrightarrow> is_signer ai"
  by (simp add: signer_try_from_def ok_iff)

lemma system_try_from_eq_Ok [ok_iff]: "system_try_from ai = Ok u \<longleftrightarrow> key ai = system_program_id"
  by (simp add: system_try_from_def ok_iff)

lemma constraint_mut_eq_Ok [ok_iff]: "constraint_mut ai = Ok u \<longleftrightarrow> is_writable ai"
  by (simp add: constraint_mut_def ok_iff)

lemma constraint_seeds_with_bump_eq_Ok [ok_iff]:
  "constraint_seeds_with_bump P sds b prog ai = Ok u \<longleftrightarrow>
     create_program_address P (sds @ [[b]]) prog = Some (key ai)"
  by (simp add: constraint_seeds_with_bump_def ok_iff)

lemma constraint_seeds_eq_Ok [ok_iff]:
  "constraint_seeds P sds ai = Ok b \<longleftrightarrow> find_program_address P sds endpoint_id = (key ai, b)"
  by (auto simp: constraint_seeds_def ok_iff prod_eq_iff)

lemma event_authority_try_from_eq_Ok [ok_iff]:
  "event_authority_try_from P ai = Ok u \<longleftrightarrow> key ai = event_authority P"
  by (auto simp: event_authority_try_from_def event_authority_def ok_iff prod_eq_iff)

lemma self_cpi_eq_Ok [ok_iff]: "self_cpi ai = Ok u \<longleftrightarrow> key ai = endpoint_id"
  by (simp add: self_cpi_def ok_iff)

lemma self_cpi_branches:
  "self_cpi ai = (if key ai \<noteq> endpoint_id then Err MissingAccount else Ok ())"
  by (simp add: self_cpi_def require_def)

lemma create_account_eq_Ok [ok_iff]:
  "create_account payer ai g s = Ok s' \<longleftrightarrow> key payer \<noteq> key ai \<and>
     is_signer payer \<and> is_writable payer \<and> g \<and> is_writable ai \<and> \<not> in_use s (key ai) \<and>
     s' = store (key ai) Zero_Data s"
  by (auto simp: create_account_def ok_iff)

lemma init_pda_eq_Ok [ok_iff]:
  "init_pda P sds payer ai s = Ok (s', b) \<longleftrightarrow>
     find_program_address P sds endpoint_id = (key ai, b) \<and>
     create_account payer ai True s = Ok s'"
  by (auto simp: init_pda_def ok_iff)

lemma init_keypair_eq_Ok [ok_iff]:
  "init_keypair payer ai s = Ok s' \<longleftrightarrow> create_account payer ai (is_signer ai) s = Ok s'"
  by (simp add: init_keypair_def)

section \<open>Reading after writing\<close>

lemma endpoint_not_system [simp]:
  "endpoint_id \<noteq> system_program_id" "system_program_id \<noteq> endpoint_id"
proof -
  have "hd (as_ref endpoint_id) \<noteq> hd (as_ref system_program_id)"
    by (simp add: as_ref_def endpoint_id_def system_program_id_def bytes_of_pad32
        bytes_of_repeat32)
  then show "endpoint_id \<noteq> system_program_id" "system_program_id \<noteq> endpoint_id"
    by auto
qed

lemma read_store [read_simps]:
  "read proj (store k d s) l = (if l = k then proj d else read proj s l)"
  by (simp add: read_def store_def)

lemma read_emit [read_simps]: "read proj (emit_cpi e s) = read proj s"
  by (rule ext) (simp add: read_def emit_cpi_def)

lemma read_close [read_simps]:
  "read proj (close_account k s) l = (if l = k then None else read proj s l)"
  by (simp add: read_def close_account_def)

lemma store_store [simp]: "store k d (store k d' s) = store k d s"
  by (simp add: store_def)

lemma store_store_swap: "k \<noteq> l \<Longrightarrow> store k d (store l e s) = store l e (store k d s)"
  by (simp add: store_def fun_upd_twist)

lemma events_store [simp]: "events (store k d s) = events s"
  by (simp add: store_def)

lemma events_emit [simp]: "events (emit_cpi e s) = events s @ [e]"
  by (simp add: emit_cpi_def)

lemma events_close [simp]: "events (close_account k s) = events s"
  by (simp add: close_account_def)

lemma owner_of_store [read_simps]:
  "owner_of (store k d s) l = (if l = k then endpoint_id else owner_of s l)"
  by (simp add: owner_of_def store_def)

lemma owner_of_emit [read_simps]: "owner_of (emit_cpi e s) = owner_of s"
  by (rule ext) (simp add: owner_of_def emit_cpi_def)

lemma in_use_store [read_simps]:
  "in_use (store k d s) l = (if l = k then True else in_use s l)"
  by (simp add: in_use_def store_def)

lemma in_use_emit [read_simps]: "in_use (emit_cpi e s) = in_use s"
  by (rule ext) (simp add: in_use_def emit_cpi_def)

lemma in_use_close [read_simps]:
  "in_use (close_account k s) l \<longleftrightarrow> l \<noteq> k \<and> in_use s l"
  by (simp add: in_use_def close_account_def)

lemma read_SomeD: "read proj s k = Some v \<Longrightarrow> owner_of s k = endpoint_id \<and> in_use s k"
  by (auto simp: read_def owner_of_def in_use_def split: option.splits if_splits)

lemma read_not_in_use: "\<not> in_use s k \<Longrightarrow> read proj s k = None"
  using read_SomeD by (metis option.exhaust)

lemma not_in_use_system: "\<not> in_use s k \<Longrightarrow> owner_of s k = system_program_id"
  by (auto simp: owner_of_def in_use_def split: option.splits)

lemma init_if_needed_pda_eq_Ok [ok_iff]:
  "init_if_needed_pda P proj zero sds payer ai s = Ok (s', v, b) \<longleftrightarrow>
     find_program_address P sds endpoint_id = (key ai, b) \<and> is_writable ai \<and>
     (\<not> in_use s (key ai) \<and> key payer \<noteq> key ai \<and> is_signer payer \<and> is_writable payer \<and>
        v = zero \<and>
        s' = store (key ai) Zero_Data s \<or>
      read proj s (key ai) = Some v \<and> s' = s)"
  using read_SomeD [of proj s "key ai" v] not_in_use_system [of s "key ai"]
  by (auto simp: init_if_needed_pda_def ok_iff)

section \<open>Account types\<close>

text \<open>
  The contract between \<^verbatim>\<open>Account<T>\<close> and the type \<^verbatim>\<open>T\<close>: what was written with the type's
  discriminator is read back, and nothing else is read as a \<^verbatim>\<open>T\<close>.
\<close>

locale account_type =
  fixes emb :: "'a \<Rightarrow> account_data"
    and proj :: "account_data \<Rightarrow> 'a option"
  assumes proj_emb: "proj (emb v) = Some v"
    and proj_only: "proj d = Some v \<Longrightarrow> d = emb v"
    and emb_typed: "carries_discriminator (emb v)"
begin

lemma read_Some_iff:
  "read proj s k = Some v \<longleftrightarrow> accounts s k = Some \<lparr>owner = endpoint_id, data = emb v\<rparr>"
proof
  assume "read proj s k = Some v"
  then obtain a where a: "accounts s k = Some a" "owner a = endpoint_id" "proj (data a) = Some v"
    by (auto simp: read_def split: option.splits if_splits)
  then have "a = \<lparr>owner = endpoint_id, data = emb v\<rparr>"
    using proj_only [OF a(3)] by (cases a) auto
  with a(1) show "accounts s k = Some \<lparr>owner = endpoint_id, data = emb v\<rparr>" by simp
qed (simp add: read_def proj_emb)

lemma proj_untyped: "\<not> carries_discriminator d \<Longrightarrow> proj d = None"
  using emb_typed proj_only by (metis option.exhaust)

lemma read_store_emb: "read proj (store k (emb v) s) k = Some v"
  by (simp add: read_store proj_emb)

text \<open>Creating an account does not change what is read as a \<^verbatim>\<open>T\<close> anywhere.\<close>

lemma read_created: "\<not> in_use s k \<Longrightarrow> read proj (store k Zero_Data s) l = read proj s l"
  by (auto simp: read_store read_not_in_use proj_untyped)

end

interpretation config: account_type Integrator_Config_Data as_integrator_config
  by unfold_locales (auto elim: as_integrator_config.elims)

interpretation chain_config: account_type Chain_Config_Data as_chain_config
  by unfold_locales (auto elim: as_chain_config.elims)

interpretation adapter_account: account_type Adapter_Info_Data as_adapter_info
  by unfold_locales (auto elim: as_adapter_info.elims)

interpretation tracker: account_type Sequence_Tracker_Data as_sequence_tracker
  by unfold_locales (auto elim: as_sequence_tracker.elims)

interpretation outbox: account_type Outbox_Message_Data as_outbox_message
  by unfold_locales (auto elim: as_outbox_message.elims)

interpretation attestation: account_type Attestation_Info_Data as_attestation_info
  by unfold_locales (auto elim: as_attestation_info.elims)

text \<open>An account is read as one type only.\<close>

lemma read_Some_conflict:
  "config_at s k = Some c \<Longrightarrow> chain_config_at s k = None"
  "adapter_info_at s k = Some a \<Longrightarrow> chain_config_at s k = None"
  by (auto simp: config.read_Some_iff adapter_account.read_Some_iff
      read_def [of as_chain_config])

end
