(* ===== verification/Register.thy ===== *)
theory Register
  imports Ledger
begin

text \<open>\<^verbatim>\<open>instructions/register.rs\<close>: registering an integrator program.\<close>

record register_args =
  ra_integrator_program_id :: pubkey
  ra_integrator_program_pda_bump :: u8
  ra_admin :: pubkey

record register_accounts =
  rg_payer :: account_meta
  rg_integrator_config :: account_meta
  rg_sequence_tracker :: account_meta
  rg_integrator_program_pda :: account_meta
  rg_system_program :: account_meta
  rg_event_authority :: account_meta
  rg_program :: account_meta

text \<open>Returns the ledger with both accounts created and their bumps.\<close>

definition register_try_accounts ::
  "'bm platform \<Rightarrow> register_accounts \<Rightarrow> register_args \<Rightarrow> ledger \<Rightarrow> (ledger \<times> u8 \<times> u8) result" where
  "register_try_accounts P acs args s =
     and_then (signer_try_from (rg_payer acs)) (\<lambda>_.
     and_then (signer_try_from (rg_integrator_program_pda acs)) (\<lambda>_.
     and_then (system_try_from (rg_system_program acs)) (\<lambda>_.
     and_then (init_pda P (integrator_config_seeds (ra_integrator_program_id args))
                 (rg_payer acs) (rg_integrator_config acs) s) (\<lambda>(s1, config_bump).
     and_then (init_pda P (sequence_tracker_seeds (ra_integrator_program_id args))
                 (rg_payer acs) (rg_sequence_tracker acs) s1) (\<lambda>(s2, tracker_bump).
     and_then (constraint_mut (rg_payer acs)) (\<lambda>_.
     and_then (constraint_seeds_with_bump P integrator_pda_seeds
                 (ra_integrator_program_pda_bump args) (ra_integrator_program_id args)
                 (rg_integrator_program_pda acs)) (\<lambda>_.
     and_then (event_authority_try_from P (rg_event_authority acs)) (\<lambda>_.
     Ok (s2, config_bump, tracker_bump)))))))))"

definition register ::
  "'bm platform \<Rightarrow> register_accounts \<Rightarrow> register_args \<Rightarrow> ledger \<Rightarrow> ledger result" where
  "register P acs args s =
     and_then (register_try_accounts P acs args s) (\<lambda>(s, config_bump, tracker_bump).
     let integrator_config = \<lparr>ic_bump = config_bump,
           ic_integrator_program_id = ra_integrator_program_id args,
           ic_admin = Some (ra_admin args),
           ic_pending_admin = None,
           ic_adapter_infos = []\<rparr>;
         sequence_tracker = \<lparr>st_bump = tracker_bump,
           st_integrator_program_id = ra_integrator_program_id args,
           st_sequence = 0\<rparr>
     in and_then (self_cpi (rg_program acs)) (\<lambda>_.
     Ok (emit_cpi (IntegratorRegistered (ra_integrator_program_id args) (ra_admin args))
             (store (key (rg_sequence_tracker acs)) (Sequence_Tracker_Data sequence_tracker)
             (store (key (rg_integrator_config acs)) (Integrator_Config_Data integrator_config)
              s)))))"

section \<open>Behaviour\<close>

lemma register_eq_Ok:
  "register P acs args s = Ok s' \<longleftrightarrow>
     is_signer (rg_payer acs) \<and> is_writable (rg_payer acs) \<and>
     key (rg_payer acs) \<noteq> key (rg_integrator_config acs) \<and>
     key (rg_payer acs) \<noteq> key (rg_sequence_tracker acs) \<and>
     is_signer (rg_integrator_program_pda acs) \<and>
     key (rg_system_program acs) = system_program_id \<and>
     (\<exists>cb tb. integrator_config_pda P (ra_integrator_program_id args) =
                (key (rg_integrator_config acs), cb) \<and>
        sequence_tracker_pda P (ra_integrator_program_id args) =
                (key (rg_sequence_tracker acs), tb) \<and>
        s' = emit_cpi (IntegratorRegistered (ra_integrator_program_id args) (ra_admin args))
               (store (key (rg_sequence_tracker acs))
                  (Sequence_Tracker_Data \<lparr>st_bump = tb,
                     st_integrator_program_id = ra_integrator_program_id args, st_sequence = 0\<rparr>)
               (store (key (rg_integrator_config acs))
                  (Integrator_Config_Data \<lparr>ic_bump = cb,
                     ic_integrator_program_id = ra_integrator_program_id args,
                     ic_admin = Some (ra_admin args), ic_pending_admin = None,
                     ic_adapter_infos = []\<rparr>) s))) \<and>
     is_writable (rg_integrator_config acs) \<and> \<not> in_use s (key (rg_integrator_config acs)) \<and>
     is_writable (rg_sequence_tracker acs) \<and> \<not> in_use s (key (rg_sequence_tracker acs)) \<and>
     key (rg_sequence_tracker acs) \<noteq> key (rg_integrator_config acs) \<and>
     create_program_address P (integrator_pda_seeds @ [[ra_integrator_program_pda_bump args]])
       (ra_integrator_program_id args) = Some (key (rg_integrator_program_pda acs)) \<and>
     key (rg_event_authority acs) = event_authority P \<and> key (rg_program acs) = endpoint_id"
  unfolding register_def register_try_accounts_def integrator_config_pda_def
    sequence_tracker_pda_def
  by (auto simp: ok_iff read_simps Let_def store_store_swap split: if_splits)

end
