(* ===== verification/Admin.thy ===== *)
theory Admin
  imports Ledger
begin

text \<open>
  \<^verbatim>\<open>instructions/update_admin.rs\<close>, \<^verbatim>\<open>transfer_admin.rs\<close> (\<^verbatim>\<open>transfer_admin\<close> and \<^verbatim>\<open>claim_admin\<close>)
  and \<^verbatim>\<open>discard_admin.rs\<close>: who administers an integrator's configuration.
\<close>

section \<open>update\_admin\<close>

record update_admin_args =
  ua_new_admin :: pubkey
  ua_integrator_program_id :: pubkey

record update_admin_accounts =
  up_admin :: account_meta
  up_integrator_config :: account_meta
  up_event_authority :: account_meta
  up_program :: account_meta

definition update_admin_try_accounts ::
  "'bm platform \<Rightarrow> update_admin_accounts \<Rightarrow> update_admin_args \<Rightarrow> ledger \<Rightarrow>
     integrator_config result" where
  "update_admin_try_accounts P acs args s =
     and_then (signer_try_from (up_admin acs)) (\<lambda>_.
     and_then (account_try_from as_integrator_config s (up_integrator_config acs)) (\<lambda>config.
     and_then (constraint_seeds_with_bump P
                 (integrator_config_seeds (ua_integrator_program_id args)) (ic_bump config)
                 endpoint_id (up_integrator_config acs)) (\<lambda>_.
     and_then (constraint_mut (up_integrator_config acs)) (\<lambda>_.
     and_then (event_authority_try_from P (up_event_authority acs)) (\<lambda>_.
     Ok config)))))"

definition update_admin_validate :: "update_admin_accounts \<Rightarrow> integrator_config \<Rightarrow> unit result" where
  "update_admin_validate acs config = check_admin config (key (up_admin acs))"

text \<open>The event is built after the assignment, so its \<^verbatim>\<open>old_admin\<close> reads the new value.\<close>

definition update_admin ::
  "'bm platform \<Rightarrow> update_admin_accounts \<Rightarrow> update_admin_args \<Rightarrow> ledger \<Rightarrow> ledger result" where
  "update_admin P acs args s =
     and_then (update_admin_try_accounts P acs args s) (\<lambda>config.
     and_then (update_admin_validate acs config) (\<lambda>_.
     let config = config\<lparr>ic_admin := Some (ua_new_admin args)\<rparr> in
     and_then (unwrap (ic_admin config)) (\<lambda>old_admin.
     and_then (self_cpi (up_program acs)) (\<lambda>_.
     Ok (emit_cpi (AdminUpdated (ua_integrator_program_id args) old_admin (ua_new_admin args))
          (store (key (up_integrator_config acs)) (Integrator_Config_Data config) s))))))"

section \<open>transfer\_admin\<close>

record transfer_admin_args =
  ta_new_admin :: pubkey
  ta_integrator_program_id :: pubkey

record transfer_admin_accounts =
  tr_admin :: account_meta
  tr_integrator_config :: account_meta
  tr_event_authority :: account_meta
  tr_program :: account_meta

definition transfer_admin_try_accounts ::
  "'bm platform \<Rightarrow> transfer_admin_accounts \<Rightarrow> transfer_admin_args \<Rightarrow> ledger \<Rightarrow>
     integrator_config result" where
  "transfer_admin_try_accounts P acs args s =
     and_then (signer_try_from (tr_admin acs)) (\<lambda>_.
     and_then (account_try_from as_integrator_config s (tr_integrator_config acs)) (\<lambda>config.
     and_then (constraint_seeds_with_bump P
                 (integrator_config_seeds (ta_integrator_program_id args)) (ic_bump config)
                 endpoint_id (tr_integrator_config acs)) (\<lambda>_.
     and_then (constraint_mut (tr_integrator_config acs)) (\<lambda>_.
     and_then (event_authority_try_from P (tr_event_authority acs)) (\<lambda>_.
     Ok config)))))"

definition transfer_admin_validate ::
  "transfer_admin_accounts \<Rightarrow> integrator_config \<Rightarrow> unit result" where
  "transfer_admin_validate acs config = check_admin config (key (tr_admin acs))"

definition transfer_admin ::
  "'bm platform \<Rightarrow> transfer_admin_accounts \<Rightarrow> transfer_admin_args \<Rightarrow> ledger \<Rightarrow> ledger result" where
  "transfer_admin P acs args s =
     and_then (transfer_admin_try_accounts P acs args s) (\<lambda>config.
     and_then (transfer_admin_validate acs config) (\<lambda>_.
     let config = config\<lparr>ic_pending_admin := Some (ta_new_admin args)\<rparr> in
     and_then (self_cpi (tr_program acs)) (\<lambda>_.
     Ok (emit_cpi (AdminUpdateRequested (ta_integrator_program_id args) (key (tr_admin acs))
                     (ta_new_admin args))
          (store (key (tr_integrator_config acs)) (Integrator_Config_Data config) s)))))"

section \<open>claim\_admin\<close>

record claim_admin_accounts =
  cl_new_admin :: account_meta
  cl_integrator_config :: account_meta
  cl_event_authority :: account_meta
  cl_program :: account_meta

text \<open>This struct has no seeds: any IntegratorConfig account of the endpoint is accepted.\<close>

definition claim_admin_try_accounts ::
  "'bm platform \<Rightarrow> claim_admin_accounts \<Rightarrow> ledger \<Rightarrow> integrator_config result" where
  "claim_admin_try_accounts P acs s =
     and_then (signer_try_from (cl_new_admin acs)) (\<lambda>_.
     and_then (account_try_from as_integrator_config s (cl_integrator_config acs)) (\<lambda>config.
     and_then (constraint_mut (cl_integrator_config acs)) (\<lambda>_.
     and_then (require (ic_admin config \<noteq> None) (Endpoint_Error CallerNotAuthorized)) (\<lambda>_.
     and_then (require (ic_pending_admin config \<noteq> None)
                 (Endpoint_Error NoAdminTransferInProgress)) (\<lambda>_.
     and_then (require (ic_pending_admin config = Some (key (cl_new_admin acs)) \<or>
                        ic_admin config = Some (key (cl_new_admin acs)))
                 (Endpoint_Error CallerNotAuthorized)) (\<lambda>_.
     and_then (event_authority_try_from P (cl_event_authority acs)) (\<lambda>_.
     Ok config)))))))"

text \<open>Here too the event's \<^verbatim>\<open>old_admin\<close> is read after the assignment.\<close>

definition claim_admin :: "'bm platform \<Rightarrow> claim_admin_accounts \<Rightarrow> ledger \<Rightarrow> ledger result" where
  "claim_admin P acs s =
     and_then (claim_admin_try_accounts P acs s) (\<lambda>config.
     let config = config\<lparr>ic_admin := Some (key (cl_new_admin acs))\<rparr>;
         config = config\<lparr>ic_pending_admin := None\<rparr> in
     and_then (unwrap (ic_admin config)) (\<lambda>old_admin.
     and_then (self_cpi (cl_program acs)) (\<lambda>_.
     Ok (emit_cpi (AdminUpdated (ic_integrator_program_id config) old_admin
                     (key (cl_new_admin acs)))
          (store (key (cl_integrator_config acs)) (Integrator_Config_Data config) s)))))"

section \<open>discard\_admin\<close>

record discard_admin_accounts =
  di_admin :: account_meta
  di_integrator_config :: account_meta
  di_event_authority :: account_meta
  di_program :: account_meta

text \<open>The seeds are taken from the account itself.\<close>

definition discard_admin_try_accounts ::
  "'bm platform \<Rightarrow> discard_admin_accounts \<Rightarrow> ledger \<Rightarrow> integrator_config result" where
  "discard_admin_try_accounts P acs s =
     and_then (signer_try_from (di_admin acs)) (\<lambda>_.
     and_then (account_try_from as_integrator_config s (di_integrator_config acs)) (\<lambda>config.
     and_then (constraint_seeds_with_bump P
                 (integrator_config_seeds (ic_integrator_program_id config)) (ic_bump config)
                 endpoint_id (di_integrator_config acs)) (\<lambda>_.
     and_then (constraint_mut (di_integrator_config acs)) (\<lambda>_.
     and_then (event_authority_try_from P (di_event_authority acs)) (\<lambda>_.
     Ok config)))))"

definition discard_admin_validate ::
  "discard_admin_accounts \<Rightarrow> integrator_config \<Rightarrow> unit result" where
  "discard_admin_validate acs config = check_admin config (key (di_admin acs))"

definition discard_admin ::
  "'bm platform \<Rightarrow> discard_admin_accounts \<Rightarrow> ledger \<Rightarrow> ledger result" where
  "discard_admin P acs s =
     and_then (discard_admin_try_accounts P acs s) (\<lambda>config.
     and_then (discard_admin_validate acs config) (\<lambda>_.
     let config = config\<lparr>ic_admin := None\<rparr> in
     and_then (self_cpi (di_program acs)) (\<lambda>_.
     Ok (emit_cpi (AdminDiscarded (ic_integrator_program_id config))
          (store (key (di_integrator_config acs)) (Integrator_Config_Data config) s)))))"

section \<open>When they succeed\<close>

lemma update_admin_try_accounts_eq_Ok [ok_iff]:
  "update_admin_try_accounts P acs args s = Ok c \<longleftrightarrow>
     is_signer (up_admin acs) \<and> config_at s (key (up_integrator_config acs)) = Some c \<and>
     create_program_address P (integrator_config_seeds (ua_integrator_program_id args) @
       [[ic_bump c]]) endpoint_id = Some (key (up_integrator_config acs)) \<and>
     is_writable (up_integrator_config acs) \<and>
     key (up_event_authority acs) = event_authority P"
  unfolding update_admin_try_accounts_def by (auto simp: ok_iff)

lemma update_admin_eq_Ok:
  "update_admin P acs args s = Ok s' \<longleftrightarrow>
     (\<exists>c. update_admin_try_accounts P acs args s = Ok c \<and>
        ic_admin c = Some (key (up_admin acs)) \<and> ic_pending_admin c = None \<and>
        key (up_program acs) = endpoint_id \<and>
        s' = emit_cpi (AdminUpdated (ua_integrator_program_id args) (ua_new_admin args)
                         (ua_new_admin args))
               (store (key (up_integrator_config acs))
                  (Integrator_Config_Data (c\<lparr>ic_admin := Some (ua_new_admin args)\<rparr>)) s))"
  unfolding update_admin_def update_admin_validate_def
  by (auto simp: and_then_eq_Ok check_admin_eq_Ok self_cpi_eq_Ok Let_def)

lemma transfer_admin_try_accounts_eq_Ok [ok_iff]:
  "transfer_admin_try_accounts P acs args s = Ok c \<longleftrightarrow>
     is_signer (tr_admin acs) \<and> config_at s (key (tr_integrator_config acs)) = Some c \<and>
     create_program_address P (integrator_config_seeds (ta_integrator_program_id args) @
       [[ic_bump c]]) endpoint_id = Some (key (tr_integrator_config acs)) \<and>
     is_writable (tr_integrator_config acs) \<and>
     key (tr_event_authority acs) = event_authority P"
  unfolding transfer_admin_try_accounts_def by (auto simp: ok_iff)

lemma transfer_admin_eq_Ok:
  "transfer_admin P acs args s = Ok s' \<longleftrightarrow>
     (\<exists>c. transfer_admin_try_accounts P acs args s = Ok c \<and>
        ic_admin c = Some (key (tr_admin acs)) \<and> ic_pending_admin c = None \<and>
        key (tr_program acs) = endpoint_id \<and>
        s' = emit_cpi (AdminUpdateRequested (ta_integrator_program_id args) (key (tr_admin acs))
                         (ta_new_admin args))
               (store (key (tr_integrator_config acs))
                  (Integrator_Config_Data (c\<lparr>ic_pending_admin := Some (ta_new_admin args)\<rparr>)) s))"
  unfolding transfer_admin_def transfer_admin_validate_def
  by (auto simp: and_then_eq_Ok check_admin_eq_Ok self_cpi_eq_Ok Let_def)

lemma claim_admin_try_accounts_eq_Ok [ok_iff]:
  "claim_admin_try_accounts P acs s = Ok c \<longleftrightarrow>
     is_signer (cl_new_admin acs) \<and> config_at s (key (cl_integrator_config acs)) = Some c \<and>
     is_writable (cl_integrator_config acs) \<and>
     ic_admin c \<noteq> None \<and> ic_pending_admin c \<noteq> None \<and>
     (ic_pending_admin c = Some (key (cl_new_admin acs)) \<or>
      ic_admin c = Some (key (cl_new_admin acs))) \<and>
     key (cl_event_authority acs) = event_authority P"
  unfolding claim_admin_try_accounts_def by (auto simp: ok_iff)

lemma claim_admin_eq_Ok:
  "claim_admin P acs s = Ok s' \<longleftrightarrow>
     (\<exists>c. claim_admin_try_accounts P acs s = Ok c \<and>
        key (cl_program acs) = endpoint_id \<and>
        s' = emit_cpi (AdminUpdated (ic_integrator_program_id c) (key (cl_new_admin acs))
                         (key (cl_new_admin acs)))
               (store (key (cl_integrator_config acs))
                  (Integrator_Config_Data (c\<lparr>ic_admin := Some (key (cl_new_admin acs)),
                     ic_pending_admin := None\<rparr>)) s))"
  unfolding claim_admin_def by (auto simp: and_then_eq_Ok self_cpi_eq_Ok Let_def)

lemma discard_admin_try_accounts_eq_Ok [ok_iff]:
  "discard_admin_try_accounts P acs s = Ok c \<longleftrightarrow>
     is_signer (di_admin acs) \<and> config_at s (key (di_integrator_config acs)) = Some c \<and>
     create_program_address P (integrator_config_seeds (ic_integrator_program_id c) @
       [[ic_bump c]]) endpoint_id = Some (key (di_integrator_config acs)) \<and>
     is_writable (di_integrator_config acs) \<and>
     key (di_event_authority acs) = event_authority P"
  unfolding discard_admin_try_accounts_def by (auto simp: ok_iff)

lemma discard_admin_eq_Ok:
  "discard_admin P acs s = Ok s' \<longleftrightarrow>
     (\<exists>c. discard_admin_try_accounts P acs s = Ok c \<and>
        ic_admin c = Some (key (di_admin acs)) \<and> ic_pending_admin c = None \<and>
        key (di_program acs) = endpoint_id \<and>
        s' = emit_cpi (AdminDiscarded (ic_integrator_program_id c))
               (store (key (di_integrator_config acs))
                  (Integrator_Config_Data (c\<lparr>ic_admin := None\<rparr>)) s))"
  unfolding discard_admin_def discard_admin_validate_def
  by (auto simp: and_then_eq_Ok check_admin_eq_Ok self_cpi_eq_Ok Let_def)

end
