(* ===== verification/Adapters.thy ===== *)
theory Adapters
  imports Ledger
begin

text \<open>
  \<^verbatim>\<open>instructions/add_adapter.rs\<close>, \<^verbatim>\<open>enable_adapter.rs\<close> and \<^verbatim>\<open>disable_adapter.rs\<close>: an integrator's
  list of adapters and, per chain, which of them send and which of them receive.
\<close>

section \<open>add\_adapter\<close>

record add_adapter_args =
  aa_integrator_program_id :: pubkey
  aa_adapter_program_id :: pubkey

record add_adapter_accounts =
  aa_payer :: account_meta
  aa_admin :: account_meta
  aa_integrator_config :: account_meta
  aa_adapter_info :: account_meta
  aa_system_program :: account_meta
  aa_event_authority :: account_meta
  aa_program :: account_meta

definition add_adapter_try_accounts ::
  "'bm platform \<Rightarrow> add_adapter_accounts \<Rightarrow> add_adapter_args \<Rightarrow> ledger \<Rightarrow>
     (ledger \<times> integrator_config \<times> u8) result" where
  "add_adapter_try_accounts P acs args s =
     and_then (signer_try_from (aa_payer acs)) (\<lambda>_.
     and_then (signer_try_from (aa_admin acs)) (\<lambda>_.
     and_then (account_try_from as_integrator_config s (aa_integrator_config acs)) (\<lambda>config.
     and_then (system_try_from (aa_system_program acs)) (\<lambda>_.
     and_then (init_pda P
                 (adapter_info_seeds (aa_integrator_program_id args) (aa_adapter_program_id args))
                 (aa_payer acs) (aa_adapter_info acs) s) (\<lambda>(s, bump).
     and_then (constraint_mut (aa_payer acs)) (\<lambda>_.
     and_then (constraint_seeds_with_bump P
                 (integrator_config_seeds (aa_integrator_program_id args)) (ic_bump config)
                 endpoint_id (aa_integrator_config acs)) (\<lambda>_.
     and_then (constraint_mut (aa_integrator_config acs)) (\<lambda>_.
     and_then (event_authority_try_from P (aa_event_authority acs)) (\<lambda>_.
     Ok (s, config, bump))))))))))"

definition add_adapter_validate :: "add_adapter_accounts \<Rightarrow> integrator_config \<Rightarrow> unit result" where
  "add_adapter_validate acs config = check_admin config (key (aa_admin acs))"

text \<open>The index is the old length of the list, truncated to 8 bits (\<^verbatim>\<open>as u8\<close>).\<close>

definition add_adapter ::
  "'bm platform \<Rightarrow> add_adapter_accounts \<Rightarrow> add_adapter_args \<Rightarrow> ledger \<Rightarrow> ledger result" where
  "add_adapter P acs args s =
     and_then (add_adapter_try_accounts P acs args s) (\<lambda>(s, config, bump).
     and_then (add_adapter_validate acs config) (\<lambda>_.
     let index = of_nat (length (ic_adapter_infos config)) in
     and_then (config_add_adapter config (aa_adapter_program_id args)) (\<lambda>config.
     let adapter_info = \<lparr>ad_bump = bump,
           ad_integrator_program_id = aa_integrator_program_id args,
           ad_adapter_program_id = aa_adapter_program_id args,
           ad_index = index\<rparr>
     in and_then (self_cpi (aa_program acs)) (\<lambda>_.
     Ok (emit_cpi (AdapterAdded (aa_integrator_program_id args) (aa_adapter_program_id args)
                        index)
             (store (key (aa_adapter_info acs)) (Adapter_Info_Data adapter_info)
             (store (key (aa_integrator_config acs)) (Integrator_Config_Data config) s)))))))"

section \<open>enable\_recv\_adapter and enable\_send\_adapter\<close>

record adapter_info_args =
  aia_chain_id :: u16
  aia_adapter_program_id :: pubkey
  aia_integrator_program_id :: pubkey

record enable_adapter_accounts =
  en_payer :: account_meta
  en_admin :: account_meta
  en_integrator_config :: account_meta
  en_integrator_chain_config :: account_meta
  en_adapter_info :: account_meta
  en_system_program :: account_meta
  en_event_authority :: account_meta
  en_program :: account_meta

text \<open>An IntegratorChainConfig read from zero bytes.\<close>

definition zero_chain_config :: integrator_chain_config where
  "zero_chain_config = \<lparr>cc_bump = 0, cc_integrator_program_id = Pubkey (repeat32 0),
     cc_chain_id = 0, cc_send_adapter_bitmap = bitmap_new, cc_recv_adapter_bitmap = bitmap_new\<rparr>"

definition enable_adapter_try_accounts ::
  "'bm platform \<Rightarrow> enable_adapter_accounts \<Rightarrow> adapter_info_args \<Rightarrow> ledger \<Rightarrow>
     (ledger \<times> integrator_config \<times> adapter_info \<times> integrator_chain_config \<times> u8) result" where
  "enable_adapter_try_accounts P acs args s =
     and_then (signer_try_from (en_payer acs)) (\<lambda>_.
     and_then (signer_try_from (en_admin acs)) (\<lambda>_.
     and_then (account_try_from as_integrator_config s (en_integrator_config acs)) (\<lambda>config.
     and_then (account_try_from as_adapter_info s (en_adapter_info acs)) (\<lambda>adapter.
     and_then (system_try_from (en_system_program acs)) (\<lambda>_.
     and_then (init_if_needed_pda P as_chain_config zero_chain_config
                 (integrator_chain_config_seeds (aia_integrator_program_id args)
                    (aia_chain_id args))
                 (en_payer acs) (en_integrator_chain_config acs) s) (\<lambda>(s, chain_config, bump).
     and_then (constraint_mut (en_payer acs)) (\<lambda>_.
     and_then (constraint_seeds_with_bump P
                 (integrator_config_seeds (aia_integrator_program_id args)) (ic_bump config)
                 endpoint_id (en_integrator_config acs)) (\<lambda>_.
     and_then (constraint_seeds_with_bump P
                 (adapter_info_seeds (aia_integrator_program_id args)
                    (aia_adapter_program_id args)) (ad_bump adapter)
                 endpoint_id (en_adapter_info acs)) (\<lambda>_.
     and_then (event_authority_try_from P (en_event_authority acs)) (\<lambda>_.
     Ok (s, config, adapter, chain_config, bump)))))))))))"

definition enable_adapter_validate ::
  "enable_adapter_accounts \<Rightarrow> integrator_config \<Rightarrow> adapter_info_args \<Rightarrow> unit result" where
  "enable_adapter_validate acs config args =
     and_then (check_admin config (key (en_admin acs))) (\<lambda>_.
     require (aia_chain_id args \<noteq> 0) (Endpoint_Error InvalidChainId))"

text \<open>The first use of a chain fills in the account that \<^verbatim>\<open>init_if_needed\<close> created.\<close>

definition initial_chain_config ::
  "adapter_info_args \<Rightarrow> u8 \<Rightarrow> integrator_chain_config \<Rightarrow> integrator_chain_config" where
  "initial_chain_config args bump chain_config =
     (if cc_chain_id chain_config = 0
      then \<lparr>cc_bump = bump, cc_integrator_program_id = aia_integrator_program_id args,
            cc_chain_id = aia_chain_id args, cc_send_adapter_bitmap = bitmap_new,
            cc_recv_adapter_bitmap = bitmap_new\<rparr>
      else chain_config)"

definition enable_recv_adapter ::
  "'bm platform \<Rightarrow> enable_adapter_accounts \<Rightarrow> adapter_info_args \<Rightarrow> ledger \<Rightarrow> ledger result" where
  "enable_recv_adapter P acs args s =
     and_then (enable_adapter_try_accounts P acs args s)
       (\<lambda>(s, config, adapter, chain_config, bump).
     and_then (enable_adapter_validate acs config args) (\<lambda>_.
     let chain_config = initial_chain_config args bump chain_config in
     and_then (bitmap_get P (cc_recv_adapter_bitmap chain_config) (ad_index adapter)) (\<lambda>enabled.
     if enabled then Err (Endpoint_Error AdapterAlreadyEnabled) else
     and_then (bitmap_set P (cc_recv_adapter_bitmap chain_config) (ad_index adapter) True)
       (\<lambda>bitmap.
     let chain_config = chain_config\<lparr>cc_recv_adapter_bitmap := bitmap\<rparr> in
     and_then (self_cpi (en_program acs)) (\<lambda>_.
     Ok (emit_cpi (RecvAdapterEnabledForChain (aia_integrator_program_id args)
                     (aia_chain_id args) (aia_adapter_program_id args))
          (store (key (en_integrator_chain_config acs)) (Chain_Config_Data chain_config) s)))))))"

definition enable_send_adapter ::
  "'bm platform \<Rightarrow> enable_adapter_accounts \<Rightarrow> adapter_info_args \<Rightarrow> ledger \<Rightarrow> ledger result" where
  "enable_send_adapter P acs args s =
     and_then (enable_adapter_try_accounts P acs args s)
       (\<lambda>(s, config, adapter, chain_config, bump).
     and_then (enable_adapter_validate acs config args) (\<lambda>_.
     let chain_config = initial_chain_config args bump chain_config in
     and_then (bitmap_get P (cc_send_adapter_bitmap chain_config) (ad_index adapter)) (\<lambda>enabled.
     if enabled then Err (Endpoint_Error AdapterAlreadyEnabled) else
     and_then (bitmap_set P (cc_send_adapter_bitmap chain_config) (ad_index adapter) True)
       (\<lambda>bitmap.
     let chain_config = chain_config\<lparr>cc_send_adapter_bitmap := bitmap\<rparr> in
     and_then (self_cpi (en_program acs)) (\<lambda>_.
     Ok (emit_cpi (SendAdapterEnabledForChain (aia_integrator_program_id args)
                     (aia_chain_id args) (aia_adapter_program_id args))
          (store (key (en_integrator_chain_config acs)) (Chain_Config_Data chain_config) s)))))))"

section \<open>disable\_recv\_adapter and disable\_send\_adapter\<close>

record disable_adapter_accounts =
  ds_admin :: account_meta
  ds_integrator_config :: account_meta
  ds_integrator_chain_config :: account_meta
  ds_adapter_info :: account_meta
  ds_event_authority :: account_meta
  ds_program :: account_meta

definition disable_adapter_try_accounts ::
  "'bm platform \<Rightarrow> disable_adapter_accounts \<Rightarrow> adapter_info_args \<Rightarrow> ledger \<Rightarrow>
     (integrator_config \<times> integrator_chain_config \<times> adapter_info) result" where
  "disable_adapter_try_accounts P acs args s =
     and_then (signer_try_from (ds_admin acs)) (\<lambda>_.
     and_then (account_try_from as_integrator_config s (ds_integrator_config acs)) (\<lambda>config.
     and_then (account_try_from as_chain_config s (ds_integrator_chain_config acs))
       (\<lambda>chain_config.
     and_then (account_try_from as_adapter_info s (ds_adapter_info acs)) (\<lambda>adapter.
     and_then (constraint_seeds_with_bump P
                 (integrator_config_seeds (aia_integrator_program_id args)) (ic_bump config)
                 endpoint_id (ds_integrator_config acs)) (\<lambda>_.
     and_then (constraint_seeds P
                 (integrator_chain_config_seeds (aia_integrator_program_id args)
                    (aia_chain_id args)) (ds_integrator_chain_config acs)) (\<lambda>_.
     and_then (constraint_mut (ds_integrator_chain_config acs)) (\<lambda>_.
     and_then (constraint_seeds_with_bump P
                 (adapter_info_seeds (aia_integrator_program_id args)
                    (aia_adapter_program_id args)) (ad_bump adapter)
                 endpoint_id (ds_adapter_info acs)) (\<lambda>_.
     and_then (event_authority_try_from P (ds_event_authority acs)) (\<lambda>_.
     Ok (config, chain_config, adapter))))))))))"

definition disable_adapter_validate ::
  "disable_adapter_accounts \<Rightarrow> integrator_config \<Rightarrow> unit result" where
  "disable_adapter_validate acs config = check_admin config (key (ds_admin acs))"

definition disable_recv_adapter ::
  "'bm platform \<Rightarrow> disable_adapter_accounts \<Rightarrow> adapter_info_args \<Rightarrow> ledger \<Rightarrow> ledger result" where
  "disable_recv_adapter P acs args s =
     and_then (disable_adapter_try_accounts P acs args s) (\<lambda>(config, chain_config, adapter).
     and_then (disable_adapter_validate acs config) (\<lambda>_.
     and_then (bitmap_get P (cc_recv_adapter_bitmap chain_config) (ad_index adapter)) (\<lambda>enabled.
     if \<not> enabled then Err (Endpoint_Error AdapterAlreadyDisabled) else
     and_then (bitmap_set P (cc_recv_adapter_bitmap chain_config) (ad_index adapter) False)
       (\<lambda>bitmap.
     let chain_config = chain_config\<lparr>cc_recv_adapter_bitmap := bitmap\<rparr> in
     and_then (self_cpi (ds_program acs)) (\<lambda>_.
     Ok (emit_cpi (RecvAdapterDisabledForChain (aia_integrator_program_id args)
                     (aia_chain_id args) (aia_adapter_program_id args))
          (store (key (ds_integrator_chain_config acs)) (Chain_Config_Data chain_config) s)))))))"

definition disable_send_adapter ::
  "'bm platform \<Rightarrow> disable_adapter_accounts \<Rightarrow> adapter_info_args \<Rightarrow> ledger \<Rightarrow> ledger result" where
  "disable_send_adapter P acs args s =
     and_then (disable_adapter_try_accounts P acs args s) (\<lambda>(config, chain_config, adapter).
     and_then (disable_adapter_validate acs config) (\<lambda>_.
     and_then (bitmap_get P (cc_send_adapter_bitmap chain_config) (ad_index adapter)) (\<lambda>enabled.
     if \<not> enabled then Err (Endpoint_Error AdapterAlreadyDisabled) else
     and_then (bitmap_set P (cc_send_adapter_bitmap chain_config) (ad_index adapter) False)
       (\<lambda>bitmap.
     let chain_config = chain_config\<lparr>cc_send_adapter_bitmap := bitmap\<rparr> in
     and_then (self_cpi (ds_program acs)) (\<lambda>_.
     Ok (emit_cpi (SendAdapterDisabledForChain (aia_integrator_program_id args)
                     (aia_chain_id args) (aia_adapter_program_id args))
          (store (key (ds_integrator_chain_config acs)) (Chain_Config_Data chain_config) s)))))))"

section \<open>When they succeed\<close>

lemma add_adapter_try_accounts_eq_Ok [ok_iff]:
  "add_adapter_try_accounts P acs args s = Ok (s1, c, b) \<longleftrightarrow>
     is_signer (aa_payer acs) \<and> is_writable (aa_payer acs) \<and> is_signer (aa_admin acs) \<and>
     config_at s (key (aa_integrator_config acs)) = Some c \<and>
     key (aa_system_program acs) = system_program_id \<and>
     adapter_info_pda P (aa_integrator_program_id args) (aa_adapter_program_id args) =
       (key (aa_adapter_info acs), b) \<and>
     key (aa_payer acs) \<noteq> key (aa_adapter_info acs) \<and>
     is_writable (aa_adapter_info acs) \<and> \<not> in_use s (key (aa_adapter_info acs)) \<and>
     s1 = store (key (aa_adapter_info acs)) Zero_Data s \<and>
     create_program_address P (integrator_config_seeds (aa_integrator_program_id args) @
       [[ic_bump c]]) endpoint_id = Some (key (aa_integrator_config acs)) \<and>
     is_writable (aa_integrator_config acs) \<and>
     key (aa_event_authority acs) = event_authority P"
  unfolding add_adapter_try_accounts_def adapter_info_pda_def by (auto simp: ok_iff)

lemma add_adapter_eq_Ok:
  "add_adapter P acs args s = Ok s' \<longleftrightarrow>
     (\<exists>s1 c b. add_adapter_try_accounts P acs args s = Ok (s1, c, b) \<and>
        ic_admin c = Some (key (aa_admin acs)) \<and> ic_pending_admin c = None \<and>
        length (ic_adapter_infos c) < 128 \<and>
        key (aa_program acs) = endpoint_id \<and>
        s' = emit_cpi (AdapterAdded (aa_integrator_program_id args) (aa_adapter_program_id args)
                         (of_nat (length (ic_adapter_infos c))))
               (store (key (aa_adapter_info acs)) (Adapter_Info_Data
                  \<lparr>ad_bump = b, ad_integrator_program_id = aa_integrator_program_id args,
                   ad_adapter_program_id = aa_adapter_program_id args,
                   ad_index = of_nat (length (ic_adapter_infos c))\<rparr>)
               (store (key (aa_integrator_config acs)) (Integrator_Config_Data
                  (c\<lparr>ic_adapter_infos := ic_adapter_infos c @ [aa_adapter_program_id args]\<rparr>)) s)))"
proof (cases "add_adapter_try_accounts P acs args s")
  case (Ok t)
  obtain s1 c b where t: "t = (s1, c, b)"
    by (cases t)
  have "key (aa_integrator_config acs) \<noteq> key (aa_adapter_info acs)"
    and "s1 = store (key (aa_adapter_info acs)) Zero_Data s"
    using Ok read_SomeD [of as_integrator_config s "key (aa_integrator_config acs)" c]
    by (auto simp: t add_adapter_try_accounts_eq_Ok)
  then show ?thesis
    using Ok unfolding add_adapter_def add_adapter_validate_def
    by (auto simp: t and_then_eq_Ok check_admin_eq_Ok config_add_adapter_eq_Ok self_cpi_eq_Ok Let_def
        store_store_swap)
next
  case (Err e)
  then show ?thesis by (simp add: add_adapter_def)
qed

lemma enable_adapter_try_accounts_eq_Ok [ok_iff]:
  "enable_adapter_try_accounts P acs args s = Ok (s1, c, a, cc, b) \<longleftrightarrow>
     is_signer (en_payer acs) \<and> is_writable (en_payer acs) \<and> is_signer (en_admin acs) \<and>
     config_at s (key (en_integrator_config acs)) = Some c \<and>
     adapter_info_at s (key (en_adapter_info acs)) = Some a \<and>
     key (en_system_program acs) = system_program_id \<and>
     integrator_chain_config_pda P (aia_integrator_program_id args) (aia_chain_id args) =
       (key (en_integrator_chain_config acs), b) \<and>
     is_writable (en_integrator_chain_config acs) \<and>
     (\<not> in_use s (key (en_integrator_chain_config acs)) \<and>
        key (en_payer acs) \<noteq> key (en_integrator_chain_config acs) \<and> cc = zero_chain_config \<and>
        s1 = store (key (en_integrator_chain_config acs)) Zero_Data s \<or>
      chain_config_at s (key (en_integrator_chain_config acs)) = Some cc \<and> s1 = s) \<and>
     create_program_address P (integrator_config_seeds (aia_integrator_program_id args) @
       [[ic_bump c]]) endpoint_id = Some (key (en_integrator_config acs)) \<and>
     create_program_address P (adapter_info_seeds (aia_integrator_program_id args)
       (aia_adapter_program_id args) @ [[ad_bump a]]) endpoint_id =
         Some (key (en_adapter_info acs)) \<and>
     key (en_event_authority acs) = event_authority P"
  unfolding enable_adapter_try_accounts_def integrator_chain_config_pda_def
  by (auto simp: ok_iff)

lemma disable_adapter_try_accounts_eq_Ok [ok_iff]:
  "disable_adapter_try_accounts P acs args s = Ok (c, cc, a) \<longleftrightarrow>
     is_signer (ds_admin acs) \<and>
     config_at s (key (ds_integrator_config acs)) = Some c \<and>
     chain_config_at s (key (ds_integrator_chain_config acs)) = Some cc \<and>
     adapter_info_at s (key (ds_adapter_info acs)) = Some a \<and>
     create_program_address P (integrator_config_seeds (aia_integrator_program_id args) @
       [[ic_bump c]]) endpoint_id = Some (key (ds_integrator_config acs)) \<and>
     fst (integrator_chain_config_pda P (aia_integrator_program_id args) (aia_chain_id args)) =
       key (ds_integrator_chain_config acs) \<and>
     is_writable (ds_integrator_chain_config acs) \<and>
     create_program_address P (adapter_info_seeds (aia_integrator_program_id args)
       (aia_adapter_program_id args) @ [[ad_bump a]]) endpoint_id =
         Some (key (ds_adapter_info acs)) \<and>
     key (ds_event_authority acs) = event_authority P"
  unfolding disable_adapter_try_accounts_def integrator_chain_config_pda_def
  by (auto simp: ok_iff prod_eq_iff)

lemma enable_adapter_validate_eq_Ok [ok_iff]:
  "enable_adapter_validate acs c args = Ok u \<longleftrightarrow>
     ic_admin c = Some (key (en_admin acs)) \<and> ic_pending_admin c = None \<and> aia_chain_id args \<noteq> 0"
  by (auto simp: enable_adapter_validate_def ok_iff)

section \<open>The contract of the two directions\<close>

text \<open>
  The source writes the receive and the send variant out separately. What they promise is the
  same up to the bitmap they use and the event they emit: the locale states it for one
  direction, the two interpretations below show that each pair of handlers keeps it.
\<close>

locale adapter_direction =
  fixes bitmap_of :: "integrator_chain_config \<Rightarrow> bitmap"
    and other_of :: "integrator_chain_config \<Rightarrow> bitmap"
    and put_bitmap :: "bitmap \<Rightarrow> integrator_chain_config \<Rightarrow> integrator_chain_config"
    and enabled_event :: "pubkey \<Rightarrow> u16 \<Rightarrow> pubkey \<Rightarrow> event"
    and disabled_event :: "pubkey \<Rightarrow> u16 \<Rightarrow> pubkey \<Rightarrow> event"
    and enable :: "'bm platform \<Rightarrow> enable_adapter_accounts \<Rightarrow> adapter_info_args \<Rightarrow> ledger \<Rightarrow>
           ledger result"
    and disable :: "'bm platform \<Rightarrow> disable_adapter_accounts \<Rightarrow> adapter_info_args \<Rightarrow> ledger \<Rightarrow>
           ledger result"
  assumes two_bitmaps:
      "bitmap_of = cc_recv_adapter_bitmap \<and> other_of = cc_send_adapter_bitmap \<or>
       bitmap_of = cc_send_adapter_bitmap \<and> other_of = cc_recv_adapter_bitmap"
    and neutral_events: "neutral (enabled_event i ch ad)" "neutral (disabled_event i ch ad)"
    and bitmap_of_put: "bitmap_of (put_bitmap bm cc) = bm"
    and other_of_put: "other_of (put_bitmap bm cc) = other_of cc"
    and identity_put: "cc_bump (put_bitmap bm cc) = cc_bump cc"
      "cc_integrator_program_id (put_bitmap bm cc) = cc_integrator_program_id cc"
      "cc_chain_id (put_bitmap bm cc) = cc_chain_id cc"
    and put_put: "put_bitmap bm (put_bitmap bm' cc) = put_bitmap bm cc"
    and put_bitmap_of: "put_bitmap (bitmap_of cc) cc = cc"
    and enable_branches: "\<lbrakk>bitmaps_crate P;
           enable_adapter_try_accounts P acs args s = Ok (s1, c, a, cc, b)\<rbrakk> \<Longrightarrow>
         enable P acs args s =
           (let cc1 = initial_chain_config args b cc; i = unat (ad_index a) in
            if ic_admin c \<noteq> Some (key (en_admin acs))
            then Err (Endpoint_Error CallerNotAuthorized)
            else if ic_pending_admin c \<noteq> None then Err (Endpoint_Error AdminTransferInProgress)
            else if aia_chain_id args = 0 then Err (Endpoint_Error InvalidChainId)
            else if 128 \<le> i then Err (Endpoint_Error BitmapIndexOutOfBounds)
            else if i \<in> adapters_of (bitmap_of cc1)
            then Err (Endpoint_Error AdapterAlreadyEnabled)
            else if key (en_program acs) \<noteq> endpoint_id then Err MissingAccount
            else Ok (emit_cpi (enabled_event (aia_integrator_program_id args)
                                 (aia_chain_id args) (aia_adapter_program_id args))
                   (store (key (en_integrator_chain_config acs))
                      (Chain_Config_Data (put_bitmap (with_adapter i (bitmap_of cc1)) cc1)) s)))"
    and enable_Err: "enable_adapter_try_accounts P acs args s = Err e \<Longrightarrow> enable P acs args s = Err e"
    and disable_branches: "\<lbrakk>bitmaps_crate P;
           disable_adapter_try_accounts P dacs args s = Ok (c, cc, a)\<rbrakk> \<Longrightarrow>
         disable P dacs args s =
           (let i = unat (ad_index a) in
            if ic_admin c \<noteq> Some (key (ds_admin dacs))
            then Err (Endpoint_Error CallerNotAuthorized)
            else if ic_pending_admin c \<noteq> None then Err (Endpoint_Error AdminTransferInProgress)
            else if 128 \<le> i then Err (Endpoint_Error BitmapIndexOutOfBounds)
            else if i \<notin> adapters_of (bitmap_of cc)
            then Err (Endpoint_Error AdapterAlreadyDisabled)
            else if key (ds_program dacs) \<noteq> endpoint_id then Err MissingAccount
            else Ok (emit_cpi (disabled_event (aia_integrator_program_id args)
                                 (aia_chain_id args) (aia_adapter_program_id args))
                   (store (key (ds_integrator_chain_config dacs))
                      (Chain_Config_Data (put_bitmap (without_adapter i (bitmap_of cc)) cc)) s)))"
    and disable_Err: "disable_adapter_try_accounts P dacs args s = Err e \<Longrightarrow>
         disable P dacs args s = Err e"
begin

lemma enable_eq_Ok:
  assumes "bitmaps_crate P"
  shows "enable P acs args s = Ok s' \<longleftrightarrow>
     (\<exists>s1 c a cc b. enable_adapter_try_accounts P acs args s = Ok (s1, c, a, cc, b) \<and>
        ic_admin c = Some (key (en_admin acs)) \<and> ic_pending_admin c = None \<and>
        aia_chain_id args \<noteq> 0 \<and> unat (ad_index a) < 128 \<and>
        key (en_program acs) = endpoint_id \<and>
        (let cc1 = initial_chain_config args b cc in
         unat (ad_index a) \<notin> adapters_of (bitmap_of cc1) \<and>
         s' = emit_cpi (enabled_event (aia_integrator_program_id args)
                          (aia_chain_id args) (aia_adapter_program_id args))
                (store (key (en_integrator_chain_config acs))
                   (Chain_Config_Data
                      (put_bitmap (with_adapter (unat (ad_index a)) (bitmap_of cc1)) cc1)) s)))"
proof (cases "enable_adapter_try_accounts P acs args s")
  case (Ok x)
  then show ?thesis
    using enable_branches [OF assms] by (cases x) (auto simp: Let_def not_le)
next
  case (Err e)
  then show ?thesis using enable_Err [OF Err] by simp
qed

lemma disable_eq_Ok:
  assumes "bitmaps_crate P"
  shows "disable P acs args s = Ok s' \<longleftrightarrow>
     (\<exists>c cc a. disable_adapter_try_accounts P acs args s = Ok (c, cc, a) \<and>
        ic_admin c = Some (key (ds_admin acs)) \<and> ic_pending_admin c = None \<and>
        unat (ad_index a) \<in> adapters_of (bitmap_of cc) \<and>
        key (ds_program acs) = endpoint_id \<and>
        s' = emit_cpi (disabled_event (aia_integrator_program_id args)
                         (aia_chain_id args) (aia_adapter_program_id args))
               (store (key (ds_integrator_chain_config acs))
                  (Chain_Config_Data
                     (put_bitmap (without_adapter (unat (ad_index a)) (bitmap_of cc)) cc)) s))"
proof (cases "disable_adapter_try_accounts P acs args s")
  case (Ok x)
  then show ?thesis
    using disable_branches [OF assms]
    by (cases x) (auto simp: Let_def not_le dest: adapters_of_bounded)
next
  case (Err e)
  then show ?thesis using disable_Err [OF Err] by simp
qed

text \<open>Disabling what was just enabled gives the old bitmaps back.\<close>

lemma enable_then_disable:
  assumes crate: "bitmaps_crate P" and en: "enable P acs args s = Ok s1"
    and cc: "chain_config_at s (key (en_integrator_chain_config acs)) = Some cc"
    and chain: "cc_chain_id cc \<noteq> 0"
    and same: "key (ds_admin dacs) = key (en_admin acs)"
      "key (ds_integrator_config dacs) = key (en_integrator_config acs)"
      "key (ds_integrator_chain_config dacs) = key (en_integrator_chain_config acs)"
      "key (ds_adapter_info dacs) = key (en_adapter_info acs)"
      "key (ds_event_authority dacs) = key (en_event_authority acs)"
      "key (ds_program dacs) = key (en_program acs)"
    and rights: "is_signer (ds_admin dacs)" "is_writable (ds_integrator_chain_config dacs)"
  shows "\<exists>s2. disable P dacs args s1 = Ok s2 \<and>
     chain_config_at s2 (key (en_integrator_chain_config acs)) = Some cc"
proof -
  obtain s0 c a cc0 b where acc: "enable_adapter_try_accounts P acs args s = Ok (s0, c, a, cc0, b)"
    and adm: "ic_admin c = Some (key (en_admin acs))" "ic_pending_admin c = None"
    and i: "unat (ad_index a) < 128" and prog: "key (en_program acs) = endpoint_id"
    and new: "unat (ad_index a) \<notin> adapters_of (bitmap_of (initial_chain_config args b cc0))"
    and s1: "s1 = emit_cpi (enabled_event (aia_integrator_program_id args)
                          (aia_chain_id args) (aia_adapter_program_id args))
                (store (key (en_integrator_chain_config acs))
                   (Chain_Config_Data (put_bitmap (with_adapter (unat (ad_index a))
                      (bitmap_of (initial_chain_config args b cc0)))
                      (initial_chain_config args b cc0))) s)"
    using en unfolding enable_eq_Ok [OF crate] Let_def by blast
  have cc0: "initial_chain_config args b cc0 = cc"
    using acc cc chain read_SomeD [OF cc]
    by (auto simp: enable_adapter_try_accounts_eq_Ok initial_chain_config_def)
  let ?bm = "with_adapter (unat (ad_index a)) (bitmap_of cc)"
  have "disable_adapter_try_accounts P dacs args s1 = Ok (c, put_bitmap ?bm cc, a)"
    using acc cc same rights unfolding s1 cc0
    by (auto simp: enable_adapter_try_accounts_eq_Ok disable_adapter_try_accounts_eq_Ok
        read_simps read_Some_conflict)
  moreover have "without_adapter (unat (ad_index a)) ?bm = bitmap_of cc"
    using new i unfolding cc0 adapters_of_inject [symmetric] by simp
  ultimately show ?thesis
    using adm i prog same(1,3,6) unfolding disable_eq_Ok [OF crate]
    by (auto simp: bitmap_of_put put_put put_bitmap_of read_simps)
qed

end

lemmas direction_unfolds =
  enable_adapter_validate_def disable_adapter_validate_def check_admin_branches self_cpi_branches
  bitmaps_crate.bitmap_get_unfold bitmaps_crate.bitmap_set_unfold

lemma store_over_opened:
  "enable_adapter_try_accounts P acs args s = Ok (s1, c, a, cc, b) \<Longrightarrow>
     store (key (en_integrator_chain_config acs)) d s1 =
     store (key (en_integrator_chain_config acs)) d s"
  by (auto simp: enable_adapter_try_accounts_eq_Ok)

interpretation recv: adapter_direction cc_recv_adapter_bitmap cc_send_adapter_bitmap
  "\<lambda>b. cc_recv_adapter_bitmap_update (\<lambda>_. b)"
  RecvAdapterEnabledForChain RecvAdapterDisabledForChain
  enable_recv_adapter disable_recv_adapter
  by unfold_locales
    (auto simp: enable_recv_adapter_def disable_recv_adapter_def direction_unfolds Let_def
       store_over_opened not_le)

interpretation send: adapter_direction cc_send_adapter_bitmap cc_recv_adapter_bitmap
  "\<lambda>b. cc_send_adapter_bitmap_update (\<lambda>_. b)"
  SendAdapterEnabledForChain SendAdapterDisabledForChain
  enable_send_adapter disable_send_adapter
  by unfold_locales
    (auto simp: enable_send_adapter_def disable_send_adapter_def direction_unfolds Let_def
       store_over_opened not_le)

end
