(* ===== verification/Outbound.thy ===== *)
theory Outbound
  imports Ledger
begin

text \<open>
  \<^verbatim>\<open>instructions/send_message.rs\<close> and \<^verbatim>\<open>pick_up_message.rs\<close>: an integrator puts a message into
  the outbox, and every adapter that was enabled for sending at that time picks it up once.
\<close>

section \<open>send\_message\<close>

record send_message_args =
  sm_integrator_program_id :: pubkey
  sm_integrator_program_pda_bump :: u8
  sm_dst_chain :: u16
  sm_dst_addr :: universal_address
  sm_payload_hash :: bytes32

record send_message_accounts =
  sm_payer :: account_meta
  sm_integrator_program_pda :: account_meta
  sm_integrator_chain_config :: account_meta
  sm_sequence_tracker :: account_meta
  sm_outbox_message :: account_meta
  sm_system_program :: account_meta
  sm_event_authority :: account_meta
  sm_program :: account_meta

definition send_message_try_accounts ::
  "'bm platform \<Rightarrow> send_message_accounts \<Rightarrow> send_message_args \<Rightarrow> ledger \<Rightarrow>
     (ledger \<times> integrator_chain_config \<times> sequence_tracker) result" where
  "send_message_try_accounts P acs args s =
     and_then (signer_try_from (sm_payer acs)) (\<lambda>_.
     and_then (signer_try_from (sm_integrator_program_pda acs)) (\<lambda>_.
     and_then (account_try_from as_chain_config s (sm_integrator_chain_config acs))
       (\<lambda>chain_config.
     and_then (account_try_from as_sequence_tracker s (sm_sequence_tracker acs)) (\<lambda>tracker.
     and_then (system_try_from (sm_system_program acs)) (\<lambda>_.
     and_then (init_keypair (sm_payer acs) (sm_outbox_message acs) s) (\<lambda>s.
     and_then (constraint_mut (sm_payer acs)) (\<lambda>_.
     and_then (constraint_seeds_with_bump P integrator_pda_seeds
                 (sm_integrator_program_pda_bump args) (sm_integrator_program_id args)
                 (sm_integrator_program_pda acs)) (\<lambda>_.
     and_then (constraint_seeds_with_bump P
                 (integrator_chain_config_seeds (sm_integrator_program_id args)
                    (sm_dst_chain args)) (cc_bump chain_config)
                 endpoint_id (sm_integrator_chain_config acs)) (\<lambda>_.
     and_then (constraint_seeds_with_bump P
                 (sequence_tracker_seeds (sm_integrator_program_id args)) (st_bump tracker)
                 endpoint_id (sm_sequence_tracker acs)) (\<lambda>_.
     and_then (constraint_mut (sm_sequence_tracker acs)) (\<lambda>_.
     and_then (event_authority_try_from P (sm_event_authority acs)) (\<lambda>_.
     Ok (s, chain_config, tracker)))))))))))))"

text \<open>The event reads the tracker after \<^verbatim>\<open>next_sequence\<close> advanced it.\<close>

definition send_message ::
  "'bm platform \<Rightarrow> send_message_accounts \<Rightarrow> send_message_args \<Rightarrow> ledger \<Rightarrow> ledger result" where
  "send_message P acs args s =
     and_then (send_message_try_accounts P acs args s) (\<lambda>(s, chain_config, tracker).
     and_then (require (\<not> bitmap_is_empty P (cc_send_adapter_bitmap chain_config))
                 (Endpoint_Error AdapterNotEnabled)) (\<lambda>_.
     and_then (next_sequence tracker) (\<lambda>(tracker, sequence).
     let outbox_message = \<lparr>ob_src_addr = universal_address_from (sm_integrator_program_id args),
           ob_sequence = sequence,
           ob_dst_chain = sm_dst_chain args,
           ob_dst_addr = sm_dst_addr args,
           ob_payload_hash = sm_payload_hash args,
           ob_outstanding_adapters = cc_send_adapter_bitmap chain_config,
           ob_refund_recipient = key (sm_payer acs)\<rparr>
     in and_then (self_cpi (sm_program acs)) (\<lambda>_.
     Ok (emit_cpi (MessageSent (universal_address_from (sm_integrator_program_id args))
                        (st_sequence tracker) (sm_dst_addr args) (sm_dst_chain args)
                        (sm_payload_hash args))
             (store (key (sm_outbox_message acs)) (Outbox_Message_Data outbox_message)
             (store (key (sm_sequence_tracker acs)) (Sequence_Tracker_Data tracker) s)))))))"

section \<open>pick\_up\_message\<close>

record pick_up_message_args =
  pu_adapter_program_id :: pubkey
  pu_adapter_pda_bump :: u8

record pick_up_message_accounts =
  pu_outbox_message :: account_meta
  pu_adapter_info :: account_meta
  pu_adapter_pda :: account_meta
  pu_refund_recipient :: account_meta
  pu_system_program :: account_meta
  pu_event_authority :: account_meta
  pu_program :: account_meta

definition pick_up_message_try_accounts ::
  "'bm platform \<Rightarrow> pick_up_message_accounts \<Rightarrow> pick_up_message_args \<Rightarrow> ledger \<Rightarrow>
     (outbox_message \<times> adapter_info) result" where
  "pick_up_message_try_accounts P acs args s =
     and_then (account_try_from as_outbox_message s (pu_outbox_message acs)) (\<lambda>outbox.
     and_then (account_try_from as_adapter_info s (pu_adapter_info acs)) (\<lambda>adapter.
     and_then (signer_try_from (pu_adapter_pda acs)) (\<lambda>_.
     and_then (system_try_from (pu_system_program acs)) (\<lambda>_.
     and_then (constraint_mut (pu_outbox_message acs)) (\<lambda>_.
     and_then (require (ob_refund_recipient outbox = key (pu_refund_recipient acs))
                 (Anchor_Error ConstraintHasOne)) (\<lambda>_.
     and_then (constraint_seeds_with_bump P
                 (adapter_info_seeds (to_pubkey (ob_src_addr outbox))
                    (pu_adapter_program_id args)) (ad_bump adapter)
                 endpoint_id (pu_adapter_info acs)) (\<lambda>_.
     and_then (constraint_seeds_with_bump P adapter_pda_seeds
                 (pu_adapter_pda_bump args) (pu_adapter_program_id args)
                 (pu_adapter_pda acs)) (\<lambda>_.
     and_then (constraint_mut (pu_refund_recipient acs)) (\<lambda>_.
     and_then (event_authority_try_from P (pu_event_authority acs)) (\<lambda>_.
     Ok (outbox, adapter)))))))))))"

definition pick_up_message ::
  "'bm platform \<Rightarrow> pick_up_message_accounts \<Rightarrow> pick_up_message_args \<Rightarrow> ledger \<Rightarrow>
     ledger result" where
  "pick_up_message P acs args s =
     and_then (pick_up_message_try_accounts P acs args s) (\<lambda>(outbox, adapter).
     let adapter_index = ad_index adapter in
     and_then (require
                 (unwrap_or (bitmap_get P (ob_outstanding_adapters outbox) adapter_index) False)
                 (Endpoint_Error MessageAlreadyPickedUp)) (\<lambda>_.
     and_then (bitmap_set P (ob_outstanding_adapters outbox) adapter_index False) (\<lambda>bitmap.
     let outbox = outbox\<lparr>ob_outstanding_adapters := bitmap\<rparr> in
     and_then (self_cpi (pu_program acs)) (\<lambda>_.
     let s = emit_cpi (MessagePickedUp (ob_src_addr outbox) (ob_sequence outbox)
               (ob_dst_chain outbox) (ob_dst_addr outbox) (ob_payload_hash outbox)
               (pu_adapter_program_id args) (as_value (ob_outstanding_adapters outbox))) s
     in if as_value (ob_outstanding_adapters outbox) = 0
        then Ok (close_account (key (pu_outbox_message acs)) s)
        else Ok (store (key (pu_outbox_message acs)) (Outbox_Message_Data outbox) s)))))"

section \<open>When they succeed\<close>

lemma send_message_try_accounts_eq_Ok [ok_iff]:
  "send_message_try_accounts P acs args s = Ok (s1, cc, t) \<longleftrightarrow>
     is_signer (sm_payer acs) \<and> is_writable (sm_payer acs) \<and>
     is_signer (sm_integrator_program_pda acs) \<and>
     chain_config_at s (key (sm_integrator_chain_config acs)) = Some cc \<and>
     tracker_at s (key (sm_sequence_tracker acs)) = Some t \<and>
     key (sm_system_program acs) = system_program_id \<and>
     is_signer (sm_outbox_message acs) \<and> is_writable (sm_outbox_message acs) \<and>
     \<not> in_use s (key (sm_outbox_message acs)) \<and>
     key (sm_payer acs) \<noteq> key (sm_outbox_message acs) \<and>
     s1 = store (key (sm_outbox_message acs)) Zero_Data s \<and>
     create_program_address P (integrator_pda_seeds @ [[sm_integrator_program_pda_bump args]])
       (sm_integrator_program_id args) = Some (key (sm_integrator_program_pda acs)) \<and>
     create_program_address P (integrator_chain_config_seeds (sm_integrator_program_id args)
       (sm_dst_chain args) @ [[cc_bump cc]]) endpoint_id =
         Some (key (sm_integrator_chain_config acs)) \<and>
     create_program_address P (sequence_tracker_seeds (sm_integrator_program_id args) @
       [[st_bump t]]) endpoint_id = Some (key (sm_sequence_tracker acs)) \<and>
     is_writable (sm_sequence_tracker acs) \<and>
     key (sm_event_authority acs) = event_authority P"
  unfolding send_message_try_accounts_def by (auto simp: ok_iff)

text \<open>The outbox account is new, so it is not the tracker's account.\<close>

lemma send_message_try_accounts_distinct:
  assumes "send_message_try_accounts P acs args s = Ok (s1, cc, t)"
  shows "key (sm_sequence_tracker acs) \<noteq> key (sm_outbox_message acs)"
  using assms read_SomeD [of as_sequence_tracker s "key (sm_sequence_tracker acs)" t]
  by (auto simp: send_message_try_accounts_eq_Ok)

lemma send_message_eq_Ok:
  "send_message P acs args s = Ok s' \<longleftrightarrow>
     (\<exists>s1 cc t t' q. send_message_try_accounts P acs args s = Ok (s1, cc, t) \<and>
        \<not> bitmap_is_empty P (cc_send_adapter_bitmap cc) \<and>
        next_sequence t = Ok (t', q) \<and>
        key (sm_program acs) = endpoint_id \<and>
        s' = emit_cpi (MessageSent (from_pubkey (sm_integrator_program_id args))
                         (st_sequence t') (sm_dst_addr args) (sm_dst_chain args)
                         (sm_payload_hash args))
               (store (key (sm_outbox_message acs)) (Outbox_Message_Data
                  \<lparr>ob_src_addr = from_pubkey (sm_integrator_program_id args), ob_sequence = q,
                   ob_dst_chain = sm_dst_chain args, ob_dst_addr = sm_dst_addr args,
                   ob_payload_hash = sm_payload_hash args,
                   ob_outstanding_adapters = cc_send_adapter_bitmap cc,
                   ob_refund_recipient = key (sm_payer acs)\<rparr>)
               (store (key (sm_sequence_tracker acs)) (Sequence_Tracker_Data t') s)))"
proof (cases "send_message_try_accounts P acs args s")
  case (Ok x)
  obtain s1 cc t where x: "x = (s1, cc, t)"
    by (cases x)
  have "key (sm_sequence_tracker acs) \<noteq> key (sm_outbox_message acs)"
    and "s1 = store (key (sm_outbox_message acs)) Zero_Data s"
    using Ok send_message_try_accounts_distinct [of P acs args s s1 cc t]
    by (auto simp: x send_message_try_accounts_eq_Ok)
  then show ?thesis
    using Ok unfolding send_message_def universal_address_from_def
    by (auto simp: x and_then_eq_Ok require_eq_Ok self_cpi_eq_Ok Let_def store_store_swap)
next
  case (Err e)
  then show ?thesis by (simp add: send_message_def)
qed

lemma pick_up_message_try_accounts_eq_Ok [ok_iff]:
  "pick_up_message_try_accounts P acs args s = Ok (m, a) \<longleftrightarrow>
     outbox_at s (key (pu_outbox_message acs)) = Some m \<and>
     adapter_info_at s (key (pu_adapter_info acs)) = Some a \<and>
     is_signer (pu_adapter_pda acs) \<and> key (pu_system_program acs) = system_program_id \<and>
     is_writable (pu_outbox_message acs) \<and>
     ob_refund_recipient m = key (pu_refund_recipient acs) \<and>
     create_program_address P (adapter_info_seeds (to_pubkey (ob_src_addr m))
       (pu_adapter_program_id args) @ [[ad_bump a]]) endpoint_id =
         Some (key (pu_adapter_info acs)) \<and>
     create_program_address P (adapter_pda_seeds @ [[pu_adapter_pda_bump args]])
       (pu_adapter_program_id args) = Some (key (pu_adapter_pda acs)) \<and>
     is_writable (pu_refund_recipient acs) \<and>
     key (pu_event_authority acs) = event_authority P"
  unfolding pick_up_message_try_accounts_def by (auto simp: ok_iff)

text \<open>A pick-up that leaves the message in place does not disturb another adapter's accounts.\<close>

lemma pick_up_other_accounts:
  assumes "pick_up_message_try_accounts P acs args s = Ok (m, a)"
    and "key (pu_outbox_message acs') = key (pu_outbox_message acs)"
    and "pick_up_message_try_accounts P acs' args' s = Ok (m, a')"
  shows "pick_up_message_try_accounts P acs' args'
     (store (key (pu_outbox_message acs))
       (Outbox_Message_Data (m\<lparr>ob_outstanding_adapters := bm\<rparr>)) (emit_cpi e s)) =
     Ok (m\<lparr>ob_outstanding_adapters := bm\<rparr>, a')"
proof -
  have "key (pu_adapter_info acs') \<noteq> key (pu_outbox_message acs)"
    using assms by (auto simp: pick_up_message_try_accounts_eq_Ok outbox.read_Some_iff
        adapter_account.read_Some_iff)
  then show ?thesis
    using assms by (simp add: pick_up_message_try_accounts_eq_Ok read_simps)
qed

context bitmaps_crate
begin

lemma pick_up_message_branches:
  assumes "pick_up_message_try_accounts P acs args s = Ok (m, a)"
  shows "pick_up_message P acs args s =
     (if unat (ad_index a) \<notin> adapters_of (ob_outstanding_adapters m)
      then Err (Endpoint_Error MessageAlreadyPickedUp)
      else if key (pu_program acs) \<noteq> endpoint_id then Err MissingAccount
      else let bm = without_adapter (unat (ad_index a)) (ob_outstanding_adapters m);
               s1 = emit_cpi (MessagePickedUp (ob_src_addr m) (ob_sequence m)
                 (ob_dst_chain m) (ob_dst_addr m) (ob_payload_hash m)
                 (pu_adapter_program_id args) (as_value bm)) s
           in if adapters_of bm = {} then Ok (close_account (key (pu_outbox_message acs)) s1)
              else Ok (store (key (pu_outbox_message acs))
                     (Outbox_Message_Data (m\<lparr>ob_outstanding_adapters := bm\<rparr>)) s1))"
  using assms adapters_of_bounded [of "unat (ad_index a)" "ob_outstanding_adapters m"]
  by (auto simp: pick_up_message_def bitmap_get_unfold bitmap_set_unfold self_cpi_branches Let_def)

lemma pick_up_message_eq_Ok:
  "pick_up_message P acs args s = Ok s' \<longleftrightarrow>
     (\<exists>m a. pick_up_message_try_accounts P acs args s = Ok (m, a) \<and>
        unat (ad_index a) \<in> adapters_of (ob_outstanding_adapters m) \<and>
        key (pu_program acs) = endpoint_id \<and>
        s' = (let bm = without_adapter (unat (ad_index a)) (ob_outstanding_adapters m);
                  s1 = emit_cpi (MessagePickedUp (ob_src_addr m) (ob_sequence m)
                    (ob_dst_chain m) (ob_dst_addr m) (ob_payload_hash m)
                    (pu_adapter_program_id args) (as_value bm)) s
              in if adapters_of bm = {} then close_account (key (pu_outbox_message acs)) s1
                 else store (key (pu_outbox_message acs))
                        (Outbox_Message_Data (m\<lparr>ob_outstanding_adapters := bm\<rparr>)) s1))"
proof (cases "pick_up_message_try_accounts P acs args s")
  case (Ok x)
  then show ?thesis
    by (cases x) (auto simp: pick_up_message_branches Let_def)
next
  case (Err e)
  then show ?thesis by (simp add: pick_up_message_def)
qed

text \<open>A pick-up that succeeds either closes the message, or leaves it for the other adapters.\<close>

lemma pick_up_message_OkE:
  assumes "pick_up_message P acs args s = Ok s'"
  obtains (last) m a where
      "pick_up_message_try_accounts P acs args s = Ok (m, a)"
      "adapters_of (ob_outstanding_adapters m) = {unat (ad_index a)}"
      "s' = close_account (key (pu_outbox_message acs))
         (emit_cpi (MessagePickedUp (ob_src_addr m) (ob_sequence m) (ob_dst_chain m)
           (ob_dst_addr m) (ob_payload_hash m) (pu_adapter_program_id args) 0) s)"
  | (more) m a bm where
      "pick_up_message_try_accounts P acs args s = Ok (m, a)"
      "unat (ad_index a) \<in> adapters_of (ob_outstanding_adapters m)"
      "adapters_of bm = adapters_of (ob_outstanding_adapters m) - {unat (ad_index a)}"
      "adapters_of bm \<noteq> {}"
      "s' = store (key (pu_outbox_message acs))
         (Outbox_Message_Data (m\<lparr>ob_outstanding_adapters := bm\<rparr>))
         (emit_cpi (MessagePickedUp (ob_src_addr m) (ob_sequence m) (ob_dst_chain m)
           (ob_dst_addr m) (ob_payload_hash m) (pu_adapter_program_id args) (as_value bm)) s)"
proof -
  from assms obtain m a where acc: "pick_up_message_try_accounts P acs args s = Ok (m, a)"
    and mem: "unat (ad_index a) \<in> adapters_of (ob_outstanding_adapters m)"
    by (auto simp: pick_up_message_eq_Ok)
  let ?bm = "without_adapter (unat (ad_index a)) (ob_outstanding_adapters m)"
  show thesis
  proof (cases "adapters_of ?bm = {}")
    case True
    then have "as_value ?bm = 0"
      by (simp only: as_value_eq_0_iff)
    moreover have "adapters_of (ob_outstanding_adapters m) = {unat (ad_index a)}"
      using True mem by auto
    ultimately show thesis
      using assms True mem unfolding pick_up_message_branches [OF acc]
      by (intro last [OF acc]) (simp_all add: Let_def del: as_value_eq_0_iff split: if_splits)
  next
    case False
    then show thesis
      using assms mem by (intro more [OF acc mem, of ?bm])
        (simp_all add: pick_up_message_branches [OF acc] Let_def split: if_splits)
  qed
qed

end

end
