(* ===== verification/Inbound.thy ===== *)
theory Inbound
  imports Ledger
begin

text \<open>
  \<^verbatim>\<open>instructions/attest_message.rs\<close>, \<^verbatim>\<open>recv_message.rs\<close> and \<^verbatim>\<open>exec_message.rs\<close>: adapters attest
  to an incoming message, and the receiving integrator marks it as executed, once.
\<close>

text \<open>An AttestationInfo read from zero bytes.\<close>

definition zero_attestation_info :: attestation_info where
  "zero_attestation_info = \<lparr>at_bump = 0, at_message_hash = repeat32 0, at_src_chain = 0,
     at_src_addr = from_bytes (repeat32 0), at_sequence = 0, at_dst_chain = 0,
     at_dst_addr = from_bytes (repeat32 0), at_payload_hash = repeat32 0, at_executed = False,
     at_attested_adapters = bitmap_new\<rparr>"

section \<open>attest\_message\<close>

record attest_message_args =
  am_adapter_program_id :: pubkey
  am_adapter_pda_bump :: u8
  am_src_chain :: u16
  am_src_addr :: universal_address
  am_sequence :: u64
  am_dst_chain :: u16
  am_integrator_program_id :: pubkey
  am_payload_hash :: bytes32

record attest_message_accounts =
  am_payer :: account_meta
  am_adapter_info :: account_meta
  am_adapter_pda :: account_meta
  am_integrator_chain_config :: account_meta
  am_attestation_info :: account_meta
  am_system_program :: account_meta
  am_event_authority :: account_meta
  am_program :: account_meta

definition am_message_hash :: "'bm platform \<Rightarrow> attest_message_args \<Rightarrow> bytes32" where
  "am_message_hash P args = compute_message_hash P (am_src_chain args) (am_src_addr args)
     (am_sequence args) (am_dst_chain args) (from_pubkey (am_integrator_program_id args))
     (am_payload_hash args)"

definition attest_message_try_accounts ::
  "'bm platform \<Rightarrow> attest_message_accounts \<Rightarrow> attest_message_args \<Rightarrow> ledger \<Rightarrow>
     (ledger \<times> adapter_info \<times> integrator_chain_config \<times> attestation_info \<times> u8) result" where
  "attest_message_try_accounts P acs args s =
     and_then (signer_try_from (am_payer acs)) (\<lambda>_.
     and_then (account_try_from as_adapter_info s (am_adapter_info acs)) (\<lambda>adapter.
     and_then (signer_try_from (am_adapter_pda acs)) (\<lambda>_.
     and_then (account_try_from as_chain_config s (am_integrator_chain_config acs))
       (\<lambda>chain_config.
     and_then (system_try_from (am_system_program acs)) (\<lambda>_.
     and_then (init_if_needed_pda P as_attestation_info zero_attestation_info
                 (attestation_info_seeds (am_message_hash P args))
                 (am_payer acs) (am_attestation_info acs) s) (\<lambda>(s, info, bump).
     and_then (constraint_mut (am_payer acs)) (\<lambda>_.
     and_then (constraint_seeds_with_bump P
                 (adapter_info_seeds (am_integrator_program_id args)
                    (am_adapter_program_id args)) (ad_bump adapter)
                 endpoint_id (am_adapter_info acs)) (\<lambda>_.
     and_then (constraint_seeds_with_bump P adapter_pda_seeds
                 (am_adapter_pda_bump args) (am_adapter_program_id args)
                 (am_adapter_pda acs)) (\<lambda>_.
     and_then (constraint_seeds_with_bump P
                 (integrator_chain_config_seeds (am_integrator_program_id args)
                    (am_src_chain args)) (cc_bump chain_config)
                 endpoint_id (am_integrator_chain_config acs)) (\<lambda>_.
     and_then (event_authority_try_from P (am_event_authority acs)) (\<lambda>_.
     Ok (s, adapter, chain_config, info, bump))))))))))))"

definition attest_message ::
  "'bm platform \<Rightarrow> attest_message_accounts \<Rightarrow> attest_message_args \<Rightarrow> ledger \<Rightarrow> ledger result" where
  "attest_message P acs args s =
     and_then (attest_message_try_accounts P acs args s)
       (\<lambda>(s, adapter, chain_config, info, bump).
     and_then (require (am_dst_chain args = CHAIN_ID)
                 (Endpoint_Error InvalidDestinationChain)) (\<lambda>_.
     and_then (require
                 (unwrap_or (bitmap_get P (cc_recv_adapter_bitmap chain_config)
                    (ad_index adapter)) False)
                 (Endpoint_Error AdapterNotEnabled)) (\<lambda>_.
     and_then (if at_src_chain info = 0
               then attestation_info_new P bump (am_src_chain args) (am_src_addr args)
                      (am_sequence args) (am_dst_chain args)
                      (from_pubkey (am_integrator_program_id args)) (am_payload_hash args)
               else Ok info) (\<lambda>info.
     and_then (require
                 (\<not> unwrap_or (bitmap_get P (at_attested_adapters info) (ad_index adapter)) False)
                 (Endpoint_Error DuplicateMessageAttestation)) (\<lambda>_.
     and_then (bitmap_set P (at_attested_adapters info) (ad_index adapter) True) (\<lambda>bitmap.
     let info = info\<lparr>at_attested_adapters := bitmap\<rparr> in
     and_then (self_cpi (am_program acs)) (\<lambda>_.
     Ok (emit_cpi (MessageAttestedTo (at_message_hash info) (am_src_chain args)
                     (am_src_addr args) (am_sequence args) (am_dst_chain args)
                     (from_pubkey (am_integrator_program_id args)) (am_payload_hash args)
                     (as_value (at_attested_adapters info))
                     (from_pubkey (am_adapter_program_id args)))
          (store (key (am_attestation_info acs)) (Attestation_Info_Data info) s)))))))))"

section \<open>recv\_message\<close>

record recv_message_args =
  rm_integrator_program_pda_bump :: u8
  rm_src_chain :: u16
  rm_src_addr :: universal_address
  rm_sequence :: u64
  rm_dst_chain :: u16
  rm_integrator_program_id :: pubkey
  rm_payload_hash :: bytes32

record recv_message_accounts =
  rm_payer :: account_meta
  rm_integrator_program_pda :: account_meta
  rm_integrator_chain_config :: account_meta
  rm_attestation_info :: account_meta
  rm_system_program :: account_meta
  rm_event_authority :: account_meta
  rm_program :: account_meta

definition rm_message_hash :: "'bm platform \<Rightarrow> recv_message_args \<Rightarrow> bytes32" where
  "rm_message_hash P args = compute_message_hash P (rm_src_chain args) (rm_src_addr args)
     (rm_sequence args) (rm_dst_chain args) (from_pubkey (rm_integrator_program_id args))
     (rm_payload_hash args)"

definition recv_message_try_accounts ::
  "'bm platform \<Rightarrow> recv_message_accounts \<Rightarrow> recv_message_args \<Rightarrow> ledger \<Rightarrow>
     (integrator_chain_config \<times> attestation_info) result" where
  "recv_message_try_accounts P acs args s =
     and_then (signer_try_from (rm_payer acs)) (\<lambda>_.
     and_then (signer_try_from (rm_integrator_program_pda acs)) (\<lambda>_.
     and_then (account_try_from as_chain_config s (rm_integrator_chain_config acs))
       (\<lambda>chain_config.
     and_then (account_try_from as_attestation_info s (rm_attestation_info acs)) (\<lambda>info.
     and_then (system_try_from (rm_system_program acs)) (\<lambda>_.
     and_then (constraint_mut (rm_payer acs)) (\<lambda>_.
     and_then (constraint_seeds_with_bump P integrator_pda_seeds
                 (rm_integrator_program_pda_bump args) (rm_integrator_program_id args)
                 (rm_integrator_program_pda acs)) (\<lambda>_.
     and_then (constraint_seeds_with_bump P
                 (integrator_chain_config_seeds (rm_integrator_program_id args)
                    (rm_src_chain args)) (cc_bump chain_config)
                 endpoint_id (rm_integrator_chain_config acs)) (\<lambda>_.
     and_then (constraint_seeds_with_bump P
                 (attestation_info_seeds (rm_message_hash P args)) (at_bump info)
                 endpoint_id (rm_attestation_info acs)) (\<lambda>_.
     and_then (constraint_mut (rm_attestation_info acs)) (\<lambda>_.
     and_then (event_authority_try_from P (rm_event_authority acs)) (\<lambda>_.
     Ok (chain_config, info))))))))))))"

definition recv_message ::
  "'bm platform \<Rightarrow> recv_message_accounts \<Rightarrow> recv_message_args \<Rightarrow> ledger \<Rightarrow> ledger result" where
  "recv_message P acs args s =
     and_then (recv_message_try_accounts P acs args s) (\<lambda>(chain_config, info).
     and_then (require (\<not> at_executed info) (Endpoint_Error AlreadyExecuted)) (\<lambda>_.
     let info = info\<lparr>at_executed := True\<rparr> in
     and_then (self_cpi (rm_program acs)) (\<lambda>_.
     Ok (emit_cpi (MessageReceived (at_message_hash info) (at_src_chain info)
                     (at_src_addr info) (at_sequence info) (at_dst_chain info)
                     (at_dst_addr info) (at_payload_hash info)
                     (as_value (cc_recv_adapter_bitmap chain_config))
                     (as_value (at_attested_adapters info)))
          (store (key (rm_attestation_info acs)) (Attestation_Info_Data info) s)))))"

section \<open>exec\_message\<close>

record exec_message_args =
  em_integrator_program_pda_bump :: u8
  em_src_chain :: u16
  em_src_addr :: universal_address
  em_sequence :: u64
  em_dst_chain :: u16
  em_integrator_program_id :: pubkey
  em_payload_hash :: bytes32

record exec_message_accounts =
  em_payer :: account_meta
  em_integrator_program_pda :: account_meta
  em_attestation_info :: account_meta
  em_system_program :: account_meta
  em_event_authority :: account_meta
  em_program :: account_meta

definition em_message_hash :: "'bm platform \<Rightarrow> exec_message_args \<Rightarrow> bytes32" where
  "em_message_hash P args = compute_message_hash P (em_src_chain args) (em_src_addr args)
     (em_sequence args) (em_dst_chain args) (from_pubkey (em_integrator_program_id args))
     (em_payload_hash args)"

definition exec_message_try_accounts ::
  "'bm platform \<Rightarrow> exec_message_accounts \<Rightarrow> exec_message_args \<Rightarrow> ledger \<Rightarrow>
     (ledger \<times> attestation_info \<times> u8) result" where
  "exec_message_try_accounts P acs args s =
     and_then (signer_try_from (em_payer acs)) (\<lambda>_.
     and_then (signer_try_from (em_integrator_program_pda acs)) (\<lambda>_.
     and_then (system_try_from (em_system_program acs)) (\<lambda>_.
     and_then (init_if_needed_pda P as_attestation_info zero_attestation_info
                 (attestation_info_seeds (em_message_hash P args))
                 (em_payer acs) (em_attestation_info acs) s) (\<lambda>(s, info, bump).
     and_then (constraint_mut (em_payer acs)) (\<lambda>_.
     and_then (constraint_seeds_with_bump P integrator_pda_seeds
                 (em_integrator_program_pda_bump args) (em_integrator_program_id args)
                 (em_integrator_program_pda acs)) (\<lambda>_.
     and_then (event_authority_try_from P (em_event_authority acs)) (\<lambda>_.
     Ok (s, info, bump))))))))"

definition exec_message ::
  "'bm platform \<Rightarrow> exec_message_accounts \<Rightarrow> exec_message_args \<Rightarrow> ledger \<Rightarrow> ledger result" where
  "exec_message P acs args s =
     and_then (exec_message_try_accounts P acs args s) (\<lambda>(s, info, bump).
     and_then (require (\<not> at_executed info) (Endpoint_Error AlreadyExecuted)) (\<lambda>_.
     and_then (if at_src_chain info = 0
               then attestation_info_new P bump (em_src_chain args) (em_src_addr args)
                      (em_sequence args) (em_dst_chain args)
                      (from_pubkey (em_integrator_program_id args)) (em_payload_hash args)
               else Ok info) (\<lambda>info.
     let info = info\<lparr>at_executed := True\<rparr> in
     and_then (self_cpi (em_program acs)) (\<lambda>_.
     Ok (emit_cpi (MessageExecuted (at_message_hash info) (em_src_chain args)
                     (em_src_addr args) (em_sequence args) (em_dst_chain args)
                     (from_pubkey (em_integrator_program_id args)) (em_payload_hash args))
          (store (key (em_attestation_info acs)) (Attestation_Info_Data info) s))))))"

section \<open>When they succeed\<close>

lemma attest_message_try_accounts_eq_Ok [ok_iff]:
  "attest_message_try_accounts P acs args s = Ok (s1, a, cc, i, b) \<longleftrightarrow>
     is_signer (am_payer acs) \<and> is_writable (am_payer acs) \<and>
     adapter_info_at s (key (am_adapter_info acs)) = Some a \<and>
     is_signer (am_adapter_pda acs) \<and>
     chain_config_at s (key (am_integrator_chain_config acs)) = Some cc \<and>
     key (am_system_program acs) = system_program_id \<and>
     attestation_info_pda P (am_message_hash P args) = (key (am_attestation_info acs), b) \<and>
     is_writable (am_attestation_info acs) \<and>
     (\<not> in_use s (key (am_attestation_info acs)) \<and>
        key (am_payer acs) \<noteq> key (am_attestation_info acs) \<and> i = zero_attestation_info \<and>
        s1 = store (key (am_attestation_info acs)) Zero_Data s \<or>
      attestation_at s (key (am_attestation_info acs)) = Some i \<and> s1 = s) \<and>
     create_program_address P (adapter_info_seeds (am_integrator_program_id args)
       (am_adapter_program_id args) @ [[ad_bump a]]) endpoint_id =
         Some (key (am_adapter_info acs)) \<and>
     create_program_address P (adapter_pda_seeds @ [[am_adapter_pda_bump args]])
       (am_adapter_program_id args) = Some (key (am_adapter_pda acs)) \<and>
     create_program_address P (integrator_chain_config_seeds (am_integrator_program_id args)
       (am_src_chain args) @ [[cc_bump cc]]) endpoint_id =
         Some (key (am_integrator_chain_config acs)) \<and>
     key (am_event_authority acs) = event_authority P"
  unfolding attest_message_try_accounts_def attestation_info_pda_def
  by (auto simp: ok_iff)

lemma recv_message_try_accounts_eq_Ok [ok_iff]:
  "recv_message_try_accounts P acs args s = Ok (cc, i) \<longleftrightarrow>
     is_signer (rm_payer acs) \<and> is_writable (rm_payer acs) \<and>
     is_signer (rm_integrator_program_pda acs) \<and>
     chain_config_at s (key (rm_integrator_chain_config acs)) = Some cc \<and>
     attestation_at s (key (rm_attestation_info acs)) = Some i \<and>
     key (rm_system_program acs) = system_program_id \<and>
     create_program_address P (integrator_pda_seeds @ [[rm_integrator_program_pda_bump args]])
       (rm_integrator_program_id args) = Some (key (rm_integrator_program_pda acs)) \<and>
     create_program_address P (integrator_chain_config_seeds (rm_integrator_program_id args)
       (rm_src_chain args) @ [[cc_bump cc]]) endpoint_id =
         Some (key (rm_integrator_chain_config acs)) \<and>
     create_program_address P (attestation_info_seeds (rm_message_hash P args) @
       [[at_bump i]]) endpoint_id = Some (key (rm_attestation_info acs)) \<and>
     is_writable (rm_attestation_info acs) \<and>
     key (rm_event_authority acs) = event_authority P"
  unfolding recv_message_try_accounts_def by (auto simp: ok_iff)

lemma recv_message_eq_Ok:
  "recv_message P acs args s = Ok s' \<longleftrightarrow>
     (\<exists>cc i. recv_message_try_accounts P acs args s = Ok (cc, i) \<and> \<not> at_executed i \<and>
        key (rm_program acs) = endpoint_id \<and>
        s' = emit_cpi (MessageReceived (at_message_hash i) (at_src_chain i) (at_src_addr i)
                 (at_sequence i) (at_dst_chain i) (at_dst_addr i) (at_payload_hash i)
                 (as_value (cc_recv_adapter_bitmap cc)) (as_value (at_attested_adapters i)))
               (store (key (rm_attestation_info acs))
                  (Attestation_Info_Data (i\<lparr>at_executed := True\<rparr>)) s))"
  unfolding recv_message_def by (auto simp: and_then_eq_Ok require_eq_Ok self_cpi_eq_Ok Let_def)

lemma exec_message_try_accounts_eq_Ok [ok_iff]:
  "exec_message_try_accounts P acs args s = Ok (s1, i, b) \<longleftrightarrow>
     is_signer (em_payer acs) \<and> is_writable (em_payer acs) \<and>
     is_signer (em_integrator_program_pda acs) \<and>
     key (em_system_program acs) = system_program_id \<and>
     attestation_info_pda P (em_message_hash P args) = (key (em_attestation_info acs), b) \<and>
     is_writable (em_attestation_info acs) \<and>
     (\<not> in_use s (key (em_attestation_info acs)) \<and>
        key (em_payer acs) \<noteq> key (em_attestation_info acs) \<and> i = zero_attestation_info \<and>
        s1 = store (key (em_attestation_info acs)) Zero_Data s \<or>
      attestation_at s (key (em_attestation_info acs)) = Some i \<and> s1 = s) \<and>
     create_program_address P (integrator_pda_seeds @ [[em_integrator_program_pda_bump args]])
       (em_integrator_program_id args) = Some (key (em_integrator_program_pda acs)) \<and>
     key (em_event_authority acs) = event_authority P"
  unfolding exec_message_try_accounts_def attestation_info_pda_def
  by (auto simp: ok_iff)

text \<open>
  Both handlers that may create the account go on with the attestation of the message: the
  stored one, or a fresh one that passed the chain check of \<^verbatim>\<open>AttestationInfo::new\<close>.
\<close>

lemma exec_message_eq_Ok:
  "exec_message P acs args s = Ok s' \<longleftrightarrow>
     (\<exists>s1 i0 b i. exec_message_try_accounts P acs args s = Ok (s1, i0, b) \<and>
        \<not> at_executed i0 \<and>
        (if at_src_chain i0 = 0
         then attestation_info_new P b (em_src_chain args) (em_src_addr args)
                (em_sequence args) (em_dst_chain args)
                (from_pubkey (em_integrator_program_id args)) (em_payload_hash args) = Ok i
         else i = i0) \<and>
        key (em_program acs) = endpoint_id \<and>
        s' = emit_cpi (MessageExecuted (at_message_hash i) (em_src_chain args)
                 (em_src_addr args) (em_sequence args) (em_dst_chain args)
                 (from_pubkey (em_integrator_program_id args)) (em_payload_hash args))
               (store (key (em_attestation_info acs))
                  (Attestation_Info_Data (i\<lparr>at_executed := True\<rparr>)) s))"
proof (cases "exec_message_try_accounts P acs args s")
  case (Ok x)
  obtain s1 i0 b where x: "x = (s1, i0, b)"
    by (cases x)
  have "store (key (em_attestation_info acs)) d s1 = store (key (em_attestation_info acs)) d s"
    for d
    using Ok by (auto simp: x exec_message_try_accounts_eq_Ok)
  then show ?thesis
    using Ok unfolding exec_message_def
    by (auto simp: x and_then_eq_Ok require_eq_Ok self_cpi_eq_Ok Let_def)
next
  case (Err e)
  then show ?thesis by (simp add: exec_message_def)
qed

context bitmaps_crate
begin

lemma attest_message_eq_Ok:
  "attest_message P acs args s = Ok s' \<longleftrightarrow>
     (\<exists>s1 a cc i0 b i. attest_message_try_accounts P acs args s = Ok (s1, a, cc, i0, b) \<and>
        am_dst_chain args = CHAIN_ID \<and>
        unat (ad_index a) \<in> adapters_of (cc_recv_adapter_bitmap cc) \<and>
        (if at_src_chain i0 = 0
         then attestation_info_new P b (am_src_chain args) (am_src_addr args)
                (am_sequence args) (am_dst_chain args)
                (from_pubkey (am_integrator_program_id args)) (am_payload_hash args) = Ok i
         else i = i0) \<and>
        unat (ad_index a) \<notin> adapters_of (at_attested_adapters i) \<and>
        key (am_program acs) = endpoint_id \<and>
        s' = (let bm = with_adapter (unat (ad_index a)) (at_attested_adapters i) in emit_cpi (MessageAttestedTo (at_message_hash i) (am_src_chain args)
                 (am_src_addr args) (am_sequence args) (am_dst_chain args)
                 (from_pubkey (am_integrator_program_id args)) (am_payload_hash args)
                 (as_value bm) (from_pubkey (am_adapter_program_id args)))
               (store (key (am_attestation_info acs))
                  (Attestation_Info_Data (i\<lparr>at_attested_adapters := bm\<rparr>)) s)))"
proof (cases "attest_message_try_accounts P acs args s")
  case (Ok x)
  obtain s1 a cc i0 b where x: "x = (s1, a, cc, i0, b)"
    by (cases x)
  have "store (key (am_attestation_info acs)) d s1 = store (key (am_attestation_info acs)) d s"
    for d
    using Ok by (auto simp: x attest_message_try_accounts_eq_Ok)
  then show ?thesis
    using Ok unfolding attest_message_def
    by (auto simp: x and_then_eq_Ok require_eq_Ok self_cpi_eq_Ok unwrap_or_False_iff bitmap_get_unfold
        bitmap_set_unfold Let_def dest: adapters_of_bounded split: if_splits)
next
  case (Err e)
  then show ?thesis by (simp add: attest_message_def)
qed

lemma attest_message_OkE:
  assumes "attest_message P acs args s = Ok s'"
  obtains s1 a cc i0 b i bm where
    "attest_message_try_accounts P acs args s = Ok (s1, a, cc, i0, b)"
    "am_dst_chain args = CHAIN_ID"
    "unat (ad_index a) \<in> adapters_of (cc_recv_adapter_bitmap cc)"
    "if at_src_chain i0 = 0
     then attestation_info_new P b (am_src_chain args) (am_src_addr args)
            (am_sequence args) (am_dst_chain args)
            (from_pubkey (am_integrator_program_id args)) (am_payload_hash args) = Ok i
     else i = i0"
    "unat (ad_index a) \<notin> adapters_of (at_attested_adapters i)"
    "adapters_of bm = insert (unat (ad_index a)) (adapters_of (at_attested_adapters i))"
    "s' = emit_cpi (MessageAttestedTo (at_message_hash i) (am_src_chain args)
             (am_src_addr args) (am_sequence args) (am_dst_chain args)
             (from_pubkey (am_integrator_program_id args)) (am_payload_hash args)
             (as_value bm) (from_pubkey (am_adapter_program_id args)))
           (store (key (am_attestation_info acs))
              (Attestation_Info_Data (i\<lparr>at_attested_adapters := bm\<rparr>)) s)"
  using assms unfolding attest_message_eq_Ok Let_def
  by (metis adapters_of_with adapters_of_bounded)

end

end
