(* ===== verification/Endpoint.thy ===== *)
theory Endpoint
  imports Register Admin Adapters Outbound Inbound
begin

text \<open>
  \<^verbatim>\<open>lib.rs\<close>: the program's instructions and their dispatch, and the runs of the program. A run is
  a sequence of steps; a step is one instruction that succeeds (a failed one changes nothing),
  or something other programs do to the rest of the ledger.
\<close>

datatype instruction =
    Register register_accounts register_args
  | Add_Adapter add_adapter_accounts add_adapter_args
  | Enable_Recv_Adapter enable_adapter_accounts adapter_info_args
  | Enable_Send_Adapter enable_adapter_accounts adapter_info_args
  | Disable_Recv_Adapter disable_adapter_accounts adapter_info_args
  | Disable_Send_Adapter disable_adapter_accounts adapter_info_args
  | Update_Admin update_admin_accounts update_admin_args
  | Transfer_Admin transfer_admin_accounts transfer_admin_args
  | Claim_Admin claim_admin_accounts
  | Discard_Admin discard_admin_accounts
  | Send_Message send_message_accounts send_message_args
  | Pick_Up_Message pick_up_message_accounts pick_up_message_args
  | Attest_Message attest_message_accounts attest_message_args
  | Exec_Message exec_message_accounts exec_message_args
  | Recv_Message recv_message_accounts recv_message_args

fun process :: "'bm platform \<Rightarrow> instruction \<Rightarrow> ledger \<Rightarrow> ledger result" where
  "process P (Register acs args) s = register P acs args s"
| "process P (Add_Adapter acs args) s = add_adapter P acs args s"
| "process P (Enable_Recv_Adapter acs args) s = enable_recv_adapter P acs args s"
| "process P (Enable_Send_Adapter acs args) s = enable_send_adapter P acs args s"
| "process P (Disable_Recv_Adapter acs args) s = disable_recv_adapter P acs args s"
| "process P (Disable_Send_Adapter acs args) s = disable_send_adapter P acs args s"
| "process P (Update_Admin acs args) s = update_admin P acs args s"
| "process P (Transfer_Admin acs args) s = transfer_admin P acs args s"
| "process P (Claim_Admin acs) s = claim_admin P acs s"
| "process P (Discard_Admin acs) s = discard_admin P acs s"
| "process P (Send_Message acs args) s = send_message P acs args s"
| "process P (Pick_Up_Message acs args) s = pick_up_message P acs args s"
| "process P (Attest_Message acs args) s = attest_message P acs args s"
| "process P (Exec_Message acs args) s = exec_message P acs args s"
| "process P (Recv_Message acs args) s = recv_message P acs args s"

section \<open>The endpoint's part of the ledger\<close>

text \<open>The data of the endpoint's own accounts: what it owns and what carries a discriminator.\<close>

definition view :: "ledger \<Rightarrow> pubkey \<Rightarrow> account_data option" where
  "view s k = (case accounts s k of None \<Rightarrow> None
     | Some a \<Rightarrow> if owner a = endpoint_id \<and> carries_discriminator (data a) then Some (data a)
                 else None)"

lemma view_store [read_simps]:
  "view (store k d s) l =
     (if l = k then if carries_discriminator d then Some d else None else view s l)"
  by (simp add: view_def store_def)

lemma view_emit [read_simps]: "view (emit_cpi e s) = view s"
  by (rule ext) (simp add: view_def emit_cpi_def)

lemma view_close [read_simps]:
  "view (close_account k s) l = (if l = k then None else view s l)"
  by (simp add: view_def close_account_def)

lemma view_not_in_use: "\<not> in_use s k \<Longrightarrow> view s k = None"
  by (auto simp: view_def in_use_def split: option.splits)

context account_type
begin

lemma read_eq_view: "read proj s k = Option.bind (view s k) proj"
  using emb_typed proj_only
  by (auto simp: read_def view_def proj_untyped split: option.splits)

lemma view_emb_iff: "view s k = Some (emb v) \<longleftrightarrow> read proj s k = Some v"
  using emb_typed [of v]
  by (auto simp: view_def read_Some_iff split: option.splits if_splits)

end

lemmas view_iff_read =
  config.view_emb_iff chain_config.view_emb_iff adapter_account.view_emb_iff
  tracker.view_emb_iff outbox.view_emb_iff attestation.view_emb_iff

lemmas view_if_read =
  config.view_emb_iff [THEN iffD2] chain_config.view_emb_iff [THEN iffD2]
  adapter_account.view_emb_iff [THEN iffD2] tracker.view_emb_iff [THEN iffD2]
  outbox.view_emb_iff [THEN iffD2] attestation.view_emb_iff [THEN iffD2]

section \<open>Seeds in use\<close>

text \<open>The seed lists under the endpoint's own id that an instruction's constraints evaluate.\<close>

fun seeds_used :: "'bm platform \<Rightarrow> ledger \<Rightarrow> instruction \<Rightarrow> seeds set" where
  "seeds_used P s (Register acs args) =
     {integrator_config_seeds (ra_integrator_program_id args),
      sequence_tracker_seeds (ra_integrator_program_id args)}"
| "seeds_used P s (Add_Adapter acs args) =
     {integrator_config_seeds (aa_integrator_program_id args),
      adapter_info_seeds (aa_integrator_program_id args) (aa_adapter_program_id args)}"
| "seeds_used P s (Enable_Recv_Adapter acs args) =
     {integrator_config_seeds (aia_integrator_program_id args),
      integrator_chain_config_seeds (aia_integrator_program_id args) (aia_chain_id args),
      adapter_info_seeds (aia_integrator_program_id args) (aia_adapter_program_id args)}"
| "seeds_used P s (Enable_Send_Adapter acs args) =
     {integrator_config_seeds (aia_integrator_program_id args),
      integrator_chain_config_seeds (aia_integrator_program_id args) (aia_chain_id args),
      adapter_info_seeds (aia_integrator_program_id args) (aia_adapter_program_id args)}"
| "seeds_used P s (Disable_Recv_Adapter acs args) =
     {integrator_config_seeds (aia_integrator_program_id args),
      integrator_chain_config_seeds (aia_integrator_program_id args) (aia_chain_id args),
      adapter_info_seeds (aia_integrator_program_id args) (aia_adapter_program_id args)}"
| "seeds_used P s (Disable_Send_Adapter acs args) =
     {integrator_config_seeds (aia_integrator_program_id args),
      integrator_chain_config_seeds (aia_integrator_program_id args) (aia_chain_id args),
      adapter_info_seeds (aia_integrator_program_id args) (aia_adapter_program_id args)}"
| "seeds_used P s (Update_Admin acs args) =
     {integrator_config_seeds (ua_integrator_program_id args)}"
| "seeds_used P s (Transfer_Admin acs args) =
     {integrator_config_seeds (ta_integrator_program_id args)}"
| "seeds_used P s (Claim_Admin acs) = {}"
| "seeds_used P s (Discard_Admin acs) =
     (case config_at s (key (di_integrator_config acs)) of None \<Rightarrow> {}
      | Some c \<Rightarrow> {integrator_config_seeds (ic_integrator_program_id c)})"
| "seeds_used P s (Send_Message acs args) =
     {integrator_chain_config_seeds (sm_integrator_program_id args) (sm_dst_chain args),
      sequence_tracker_seeds (sm_integrator_program_id args)}"
| "seeds_used P s (Pick_Up_Message acs args) =
     (case outbox_at s (key (pu_outbox_message acs)) of None \<Rightarrow> {}
      | Some m \<Rightarrow> {adapter_info_seeds (to_pubkey (ob_src_addr m)) (pu_adapter_program_id args)})"
| "seeds_used P s (Attest_Message acs args) =
     {adapter_info_seeds (am_integrator_program_id args) (am_adapter_program_id args),
      integrator_chain_config_seeds (am_integrator_program_id args) (am_src_chain args),
      attestation_info_seeds (am_message_hash P args)}"
| "seeds_used P s (Exec_Message acs args) =
     {attestation_info_seeds (em_message_hash P args)}"
| "seeds_used P s (Recv_Message acs args) =
     {integrator_chain_config_seeds (rm_integrator_program_id args) (rm_src_chain args),
      attestation_info_seeds (rm_message_hash P args)}"

section \<open>Runs\<close>

text \<open>
  Other programs change neither the data of the endpoint's accounts nor its events. They may
  do everything else: fund addresses, create accounts of their own or empty ones for the
  endpoint.
\<close>

definition outside_step :: "ledger \<Rightarrow> ledger \<Rightarrow> bool" where
  "outside_step s s' \<longleftrightarrow> view s' = view s \<and> events s' = events s"

text \<open>A step whose instruction uses seed lists of \<open>T\<close> only; \<open>T = UNIV\<close> is no restriction.\<close>

inductive step :: "'bm platform \<Rightarrow> seeds set \<Rightarrow> ledger \<Rightarrow> ledger \<Rightarrow> bool" for P T where
  instruction_step: "seeds_used P s ix \<subseteq> T \<Longrightarrow> process P ix s = Ok s' \<Longrightarrow> step P T s s'"
| other_step: "outside_step s s' \<Longrightarrow> step P T s s'"

inductive_cases stepE [elim]: "step P T s s'"

definition initial :: "ledger \<Rightarrow> bool" where
  "initial s \<longleftrightarrow> (\<forall>k. view s k = None) \<and> events s = []"

inductive reachable :: "'bm platform \<Rightarrow> seeds set \<Rightarrow> ledger \<Rightarrow> bool" for P T where
  reachable_initial: "initial s \<Longrightarrow> reachable P T s"
| reachable_step: "reachable P T s \<Longrightarrow> step P T s s' \<Longrightarrow> reachable P T s'"

lemma reachable_steps:
  "rtranclp (step P T) s s' \<Longrightarrow> reachable P T s \<Longrightarrow> reachable P T s'"
  by (induction rule: rtranclp_induct) (auto intro: reachable_step)

text \<open>A list of instructions, each of which has to succeed.\<close>

fun run :: "'bm platform \<Rightarrow> instruction list \<Rightarrow> ledger \<Rightarrow> ledger result" where
  "run P [] s = Ok s"
| "run P (ix # ixs) s = and_then (process P ix s) (run P ixs)"

lemma run_steps: "run P ixs s = Ok s' \<Longrightarrow> rtranclp (step P UNIV) s s'"
proof (induction ixs arbitrary: s)
  case Nil
  then show ?case by simp
next
  case (Cons ix ixs)
  then obtain s1 where "process P ix s = Ok s1" and run: "run P ixs s1 = Ok s'"
    by (auto simp: and_then_eq_Ok)
  then have "step P UNIV s s1"
    by (auto intro: instruction_step)
  then show ?case
    using Cons.IH [OF run] by (rule converse_rtranclp_into_rtranclp)
qed

text \<open>
  Pick-ups by all outstanding adapters, in any order: every one succeeds, the last one closes
  the message, and no other account changes.
\<close>

context bitmaps_crate
begin

lemma pick_ups_drain:
  assumes "calls \<noteq> []" "distinct (map (\<lambda>(_, _, i). i) calls)"
    and "set (map (\<lambda>(_, _, i). i) calls) = adapters_of (ob_outstanding_adapters m)"
    and "\<And>acs args i. (acs, args, i) \<in> set calls \<Longrightarrow> key (pu_outbox_message acs) = k \<and>
           key (pu_program acs) = endpoint_id \<and>
           (\<exists>a. pick_up_message_try_accounts P acs args s = Ok (m, a) \<and> unat (ad_index a) = i)"
  shows "\<exists>s'. run P (map (\<lambda>(acs, args, _). Pick_Up_Message acs args) calls) s = Ok s' \<and>
     accounts s' k = None \<and> (\<forall>l. l \<noteq> k \<longrightarrow> accounts s' l = accounts s l)"
  using assms
proof (induction calls arbitrary: s m)
  case Nil
  then show ?case by simp
next
  case (Cons x calls)
  obtain acs args i where x: "x = (acs, args, i)" by (cases x)
  with Cons.prems(4) obtain a where k: "key (pu_outbox_message acs) = k"
      "key (pu_program acs) = endpoint_id"
    and acc: "pick_up_message_try_accounts P acs args s = Ok (m, a)" and i: "unat (ad_index a) = i"
    by (metis list.set_intros(1))
  let ?bm = "without_adapter i (ob_outstanding_adapters m)"
  let ?e = "MessagePickedUp (ob_src_addr m) (ob_sequence m) (ob_dst_chain m) (ob_dst_addr m)
     (ob_payload_hash m) (pu_adapter_program_id args) (as_value ?bm)"
  have out: "adapters_of (ob_outstanding_adapters m) =
      insert i (set (map (\<lambda>(_, _, i). i) calls))"
    and new: "i \<notin> set (map (\<lambda>(_, _, i). i) calls)"
    using Cons.prems(2,3) by (simp_all add: x)
  have mem: "i \<in> adapters_of (ob_outstanding_adapters m)"
    and rest: "set (map (\<lambda>(_, _, i). i) calls) = adapters_of ?bm"
    unfolding adapters_of_without out using new by blast+
  show ?case
  proof (cases "calls = []")
    case True
    then have "adapters_of ?bm = {}" using rest by simp
    then have "pick_up_message P acs args s = Ok (close_account k (emit_cpi ?e s))"
      using mem by (simp add: pick_up_message_branches [OF acc] i k)
    then show ?thesis
      by (simp add: x True close_account_def emit_cpi_def)
  next
    case False
    then have "adapters_of ?bm \<noteq> {}" using rest by (metis set_empty map_is_Nil_conv)
    then have step: "pick_up_message P acs args s =
        Ok (store k (Outbox_Message_Data (m\<lparr>ob_outstanding_adapters := ?bm\<rparr>)) (emit_cpi ?e s))"
      (is "_ = Ok ?s1")
      using mem by (simp add: pick_up_message_branches [OF acc] i k Let_def)
    have "\<exists>s'. run P (map (\<lambda>(acs, args, _). Pick_Up_Message acs args) calls) ?s1 = Ok s' \<and>
        accounts s' k = None \<and> (\<forall>l. l \<noteq> k \<longrightarrow> accounts s' l = accounts ?s1 l)"
    proof (rule Cons.IH [OF False])
      show "set (map (\<lambda>(_, _, i). i) calls) =
          adapters_of (ob_outstanding_adapters (m\<lparr>ob_outstanding_adapters := ?bm\<rparr>))"
        using rest by simp
      fix acs' args' j assume "(acs', args', j) \<in> set calls"
      then obtain a' where "key (pu_outbox_message acs') = k" "key (pu_program acs') = endpoint_id"
        "pick_up_message_try_accounts P acs' args' s = Ok (m, a')" "unat (ad_index a') = j"
        using Cons.prems(4) by (metis list.set_intros(2))
      with pick_up_other_accounts [OF acc, of acs' args' a'] k
      show "key (pu_outbox_message acs') = k \<and> key (pu_program acs') = endpoint_id \<and>
        (\<exists>a. pick_up_message_try_accounts P acs' args' ?s1 =
           Ok (m\<lparr>ob_outstanding_adapters := ?bm\<rparr>, a) \<and> unat (ad_index a) = j)"
        by auto
    qed (use Cons.prems(2) in auto)
    then show ?thesis
      using step by (auto simp: x store_def emit_cpi_def)
  qed
qed

end

text \<open>The empty ledger, the start of the concrete runs below.\<close>

definition empty_ledger :: ledger where
  "empty_ledger = \<lparr>accounts = Map.empty, events = []\<rparr>"

lemma initial_empty_ledger [simp]: "initial empty_ledger"
  by (simp add: initial_def empty_ledger_def view_def)

end
