(* ===== verification/Invariants.thy ===== *)
theory Invariants
  imports Endpoint
begin

text \<open>
  What holds of every account of the endpoint, whatever happened before: its data satisfies the
  rules of its type, and an account of a type with seeds stands at the program address of the
  data it holds (an outbox message has no seeds, its account is created with a keypair).
  \<open>account_ok\<close> states it per account, \<open>wf_ledger\<close> for the whole ledger; every instruction
  preserves it. Nothing here needs program addresses to be collision-free.
\<close>

section \<open>Well-formed accounts\<close>

text \<open>The account \<open>k\<close> is the program address of a seed list of \<open>T\<close>, with the canonical bump.\<close>

definition derived :: "'bm platform \<Rightarrow> seeds set \<Rightarrow> pubkey \<Rightarrow> seeds \<Rightarrow> u8 \<Rightarrow> bool" where
  "derived P T k sds b \<longleftrightarrow> sds \<in> T \<and> find_program_address P sds endpoint_id = (k, b)"

fun account_ok :: "'bm platform \<Rightarrow> seeds set \<Rightarrow> pubkey \<Rightarrow> account_data \<Rightarrow> bool" where
  "account_ok P T k (Integrator_Config_Data c) \<longleftrightarrow>
     derived P T k (integrator_config_seeds (ic_integrator_program_id c)) (ic_bump c) \<and>
     length (ic_adapter_infos c) \<le> MAX_ADAPTERS \<and>
     (ic_admin c = None \<longrightarrow> ic_pending_admin c = None)"
| "account_ok P T k (Chain_Config_Data c) \<longleftrightarrow>
     derived P T k (integrator_chain_config_seeds (cc_integrator_program_id c) (cc_chain_id c))
       (cc_bump c) \<and> cc_chain_id c \<noteq> 0"
| "account_ok P T k (Adapter_Info_Data a) \<longleftrightarrow>
     derived P T k (adapter_info_seeds (ad_integrator_program_id a) (ad_adapter_program_id a))
       (ad_bump a) \<and> unat (ad_index a) < MAX_ADAPTERS"
| "account_ok P T k (Sequence_Tracker_Data t) \<longleftrightarrow>
     derived P T k (sequence_tracker_seeds (st_integrator_program_id t)) (st_bump t)"
| "account_ok P T k (Outbox_Message_Data m) \<longleftrightarrow>
     adapters_of (ob_outstanding_adapters m) \<noteq> {}"
| "account_ok P T k (Attestation_Info_Data i) \<longleftrightarrow>
     derived P T k (attestation_info_seeds (at_message_hash i)) (at_bump i) \<and>
     at_message_hash i = compute_own_message_hash P i \<and>
     at_src_chain i \<noteq> 0 \<and> at_dst_chain i \<noteq> 0 \<and>
     (at_executed i \<or> adapters_of (at_attested_adapters i) \<noteq> {})"
| "account_ok P T k _ \<longleftrightarrow> True"

definition wf_ledger :: "'bm platform \<Rightarrow> seeds set \<Rightarrow> ledger \<Rightarrow> bool" where
  "wf_ledger P T s \<longleftrightarrow> (\<forall>k d. view s k = Some d \<longrightarrow> account_ok P T k d)"

lemma wf_initial: "initial s \<Longrightarrow> wf_ledger P T s"
  by (simp add: wf_ledger_def initial_def)

lemma wf_outside: "wf_ledger P T s \<Longrightarrow> outside_step s s' \<Longrightarrow> wf_ledger P T s'"
  by (simp add: wf_ledger_def outside_step_def)

lemma wf_store [intro!]: "wf_ledger P T s \<Longrightarrow> account_ok P T k d \<Longrightarrow> wf_ledger P T (store k d s)"
  by (auto simp: wf_ledger_def read_simps split: if_splits)

lemma wf_emit [simp]: "wf_ledger P T (emit_cpi e s) \<longleftrightarrow> wf_ledger P T s"
  by (simp add: wf_ledger_def read_simps)

lemma wf_close [intro!]: "wf_ledger P T s \<Longrightarrow> wf_ledger P T (close_account k s)"
  by (auto simp: wf_ledger_def read_simps split: if_splits)

lemma wf_viewD: "wf_ledger P T s \<Longrightarrow> view s k = Some d \<Longrightarrow> account_ok P T k d"
  by (simp add: wf_ledger_def)

context account_type
begin

lemma wf_readD: "wf_ledger P T s \<Longrightarrow> read proj s k = Some v \<Longrightarrow> account_ok P T k (emb v)"
  by (auto intro: wf_viewD simp: view_emb_iff)

end

lemmas wf_readD =
  config.wf_readD chain_config.wf_readD adapter_account.wf_readD tracker.wf_readD
  outbox.wf_readD attestation.wf_readD

section \<open>Every instruction keeps accounts well-formed\<close>

lemmas pda_defs =
  integrator_config_pda_def integrator_chain_config_pda_def adapter_info_pda_def
  sequence_tracker_pda_def attestation_info_pda_def

lemma register_wf:
  assumes "wf_ledger P T s" "register P acs args s = Ok s'" "seeds_used P s (Register acs args) \<subseteq> T"
  shows "wf_ledger P T s'"
  using assms by (auto simp: register_eq_Ok pda_defs derived_def intro!: wf_store)

lemma add_adapter_wf:
  assumes "wf_ledger P T s" "add_adapter P acs args s = Ok s'"
    and "seeds_used P s (Add_Adapter acs args) \<subseteq> T"
  shows "wf_ledger P T s'"
proof -
  obtain s1 c b where acc: "add_adapter_try_accounts P acs args s = Ok (s1, c, b)"
    and len: "length (ic_adapter_infos c) < 128"
    and s': "s' = emit_cpi (AdapterAdded (aa_integrator_program_id args)
                 (aa_adapter_program_id args) (of_nat (length (ic_adapter_infos c))))
               (store (key (aa_adapter_info acs)) (Adapter_Info_Data
                  \<lparr>ad_bump = b, ad_integrator_program_id = aa_integrator_program_id args,
                   ad_adapter_program_id = aa_adapter_program_id args,
                   ad_index = of_nat (length (ic_adapter_infos c))\<rparr>)
               (store (key (aa_integrator_config acs)) (Integrator_Config_Data
                  (c\<lparr>ic_adapter_infos := ic_adapter_infos c @ [aa_adapter_program_id args]\<rparr>)) s))"
    using assms(2) unfolding add_adapter_eq_Ok by blast
  have "account_ok P T (key (aa_integrator_config acs)) (Integrator_Config_Data c)"
    using assms(1) acc by (intro config.wf_readD) (auto simp: add_adapter_try_accounts_eq_Ok)
  moreover have "unat (of_nat (length (ic_adapter_infos c)) :: u8) = length (ic_adapter_infos c)"
    using len by (simp add: unat_of_nat)
  ultimately show ?thesis
    unfolding s' using assms(1,3) acc len
    by (auto simp: add_adapter_try_accounts_eq_Ok pda_defs derived_def MAX_ADAPTERS_def)
qed

lemma wf_chain_config_opened:
  assumes "wf_ledger P T s" "seeds_used P s (Enable_Recv_Adapter acs args) \<subseteq> T"
    and "enable_adapter_try_accounts P acs args s = Ok (s1, c, a, cc, b)"
    and "aia_chain_id args \<noteq> 0"
  shows "account_ok P T (key (en_integrator_chain_config acs))
           (Chain_Config_Data (initial_chain_config args b cc))"
  using assms
  by (auto simp: enable_adapter_try_accounts_eq_Ok initial_chain_config_def zero_chain_config_def
      pda_defs derived_def dest: chain_config.wf_readD)

context adapter_direction
begin

lemma account_ok_put:
  "account_ok P T k (Chain_Config_Data (put_bitmap bm cc)) \<longleftrightarrow>
     account_ok P T k (Chain_Config_Data cc)"
  by (simp add: identity_put)

lemma enable_wf:
  assumes "bitmaps_crate P" "wf_ledger P T s" "enable P acs args s = Ok s'"
    and "seeds_used P s (Enable_Recv_Adapter acs args) \<subseteq> T"
  shows "wf_ledger P T s'"
  using assms(3) wf_chain_config_opened [OF assms(2,4)]
  unfolding enable_eq_Ok [OF assms(1)] Let_def
  by (auto simp: account_ok_put intro!: wf_store assms(2) simp del: account_ok.simps)

lemma disable_wf:
  assumes "bitmaps_crate P" "wf_ledger P T s" "disable P acs args s = Ok s'"
  shows "wf_ledger P T s'"
  using assms(3) chain_config.wf_readD [OF assms(2), of "key (ds_integrator_chain_config acs)"]
  unfolding disable_eq_Ok [OF assms(1)]
  by (auto simp: account_ok_put disable_adapter_try_accounts_eq_Ok assms(2)
      simp del: account_ok.simps)

end

lemma update_admin_wf: "wf_ledger P T s \<Longrightarrow> update_admin P acs args s = Ok s' \<Longrightarrow> wf_ledger P T s'"
  using config.wf_readD [of P T s "key (up_integrator_config acs)"]
  by (auto simp: update_admin_eq_Ok update_admin_try_accounts_eq_Ok)

lemma transfer_admin_wf: "wf_ledger P T s \<Longrightarrow> transfer_admin P acs args s = Ok s' \<Longrightarrow> wf_ledger P T s'"
  using config.wf_readD [of P T s "key (tr_integrator_config acs)"]
  by (auto simp: transfer_admin_eq_Ok transfer_admin_try_accounts_eq_Ok)

lemma claim_admin_wf: "wf_ledger P T s \<Longrightarrow> claim_admin P acs s = Ok s' \<Longrightarrow> wf_ledger P T s'"
  using config.wf_readD [of P T s "key (cl_integrator_config acs)"]
  by (auto simp: claim_admin_eq_Ok claim_admin_try_accounts_eq_Ok)

lemma discard_admin_wf: "wf_ledger P T s \<Longrightarrow> discard_admin P acs s = Ok s' \<Longrightarrow> wf_ledger P T s'"
  using config.wf_readD [of P T s "key (di_integrator_config acs)"]
  by (auto simp: discard_admin_eq_Ok discard_admin_try_accounts_eq_Ok)

lemma send_message_wf:
  assumes "bitmaps_crate P" "wf_ledger P T s" "send_message P acs args s = Ok s'"
  shows "wf_ledger P T s'"
  using assms(2,3) tracker.wf_readD [of P T s "key (sm_sequence_tracker acs)"]
  unfolding send_message_eq_Ok bitmaps_crate.bitmap_is_empty_unfold [OF assms(1)]
  by (auto simp: send_message_try_accounts_eq_Ok next_sequence_eq_Ok)
    (metis sequence_tracker.select_convs(1,2) sequence_tracker.update_convs(3)
      sequence_tracker.surjective)+

lemma pick_up_message_wf:
  assumes "bitmaps_crate P" "wf_ledger P T s" "pick_up_message P acs args s = Ok s'"
  shows "wf_ledger P T s'"
  by (rule bitmaps_crate.pick_up_message_OkE [OF assms(1,3)])
    (simp_all add: assms(2) wf_store wf_close)

text \<open>
  The attestation a handler goes on with, after \<^verbatim>\<open>init_if_needed\<close> and the test for a fresh
  account: the one stored for the message, or a new one.
\<close>

lemma attestation_opened:
  assumes "wf_ledger P T s"
    and "attestation_info_pda P (compute_message_hash P c a q d e h) = (k, b)"
    and "attestation_info_seeds (compute_message_hash P c a q d e h) \<in> T"
    and "\<not> in_use s k \<and> i0 = zero_attestation_info \<or> attestation_at s k = Some i0"
    and "if at_src_chain i0 = 0 then attestation_info_new P b c a q d e h = Ok i else i = i0"
  shows "derived P T k (attestation_info_seeds (at_message_hash i)) (at_bump i)"
    and "at_message_hash i = compute_own_message_hash P i"
    and "at_src_chain i \<noteq> 0" and "at_dst_chain i \<noteq> 0"
    and "attestation_at s k = Some i \<or> \<not> in_use s k \<and> \<not> at_executed i \<and>
           at_attested_adapters i = bitmap_new \<and>
           at_message_hash i = compute_message_hash P c a q d e h"
proof -
  consider "\<not> in_use s k" "attestation_info_new P b c a q d e h = Ok i"
    | "attestation_at s k = Some i"
    using assms(4,5) attestation.wf_readD [OF assms(1), of k i0]
    by (auto simp: zero_attestation_info_def)
  then have "derived P T k (attestation_info_seeds (at_message_hash i)) (at_bump i) \<and>
     at_message_hash i = compute_own_message_hash P i \<and> at_src_chain i \<noteq> 0 \<and>
     at_dst_chain i \<noteq> 0 \<and>
     (attestation_at s k = Some i \<or> \<not> in_use s k \<and> \<not> at_executed i \<and>
           at_attested_adapters i = bitmap_new \<and>
           at_message_hash i = compute_message_hash P c a q d e h)"
  proof cases
    case 1
    then show ?thesis
      using assms(2,3) by (auto simp: attestation_info_new_eq_Ok derived_def
          attestation_info_pda_def compute_own_message_hash_def)
  next
    case 2
    then show ?thesis using attestation.wf_readD [OF assms(1) 2] by auto
  qed
  then show "derived P T k (attestation_info_seeds (at_message_hash i)) (at_bump i)"
    and "at_message_hash i = compute_own_message_hash P i"
    and "at_src_chain i \<noteq> 0" and "at_dst_chain i \<noteq> 0"
    and "attestation_at s k = Some i \<or> \<not> in_use s k \<and> \<not> at_executed i \<and>
           at_attested_adapters i = bitmap_new \<and>
           at_message_hash i = compute_message_hash P c a q d e h"
    by blast+
qed

lemma compute_own_hash_update [simp]:
  "compute_own_message_hash P (i\<lparr>at_attested_adapters := b\<rparr>) = compute_own_message_hash P i"
  "compute_own_message_hash P (i\<lparr>at_executed := x\<rparr>) = compute_own_message_hash P i"
  by (simp_all add: compute_own_message_hash_def)

lemma attest_message_wf:
  assumes "bitmaps_crate P" "wf_ledger P T s" "attest_message P acs args s = Ok s'"
    and "seeds_used P s (Attest_Message acs args) \<subseteq> T"
  shows "wf_ledger P T s'"
  using assms(1,3)
proof (rule bitmaps_crate.attest_message_OkE)
  fix s1 a cc i0 b i bm
  assume acc: "attest_message_try_accounts P acs args s = Ok (s1, a, cc, i0, b)"
    and new: "if at_src_chain i0 = 0
     then attestation_info_new P b (am_src_chain args) (am_src_addr args)
            (am_sequence args) (am_dst_chain args)
            (from_pubkey (am_integrator_program_id args)) (am_payload_hash args) = Ok i
     else i = i0"
    and bm: "adapters_of bm = insert (unat (ad_index a)) (adapters_of (at_attested_adapters i))"
    and s': "s' = emit_cpi (MessageAttestedTo (at_message_hash i) (am_src_chain args)
             (am_src_addr args) (am_sequence args) (am_dst_chain args)
             (from_pubkey (am_integrator_program_id args)) (am_payload_hash args)
             (as_value bm) (from_pubkey (am_adapter_program_id args)))
           (store (key (am_attestation_info acs))
              (Attestation_Info_Data (i\<lparr>at_attested_adapters := bm\<rparr>)) s)"
  note opened = attestation_opened [OF assms(2) _ _ _ new]
  show ?thesis
    unfolding s' using opened [of "key (am_attestation_info acs)"] assms(2,4) acc bm
    by (auto simp: attest_message_try_accounts_eq_Ok am_message_hash_def)
qed

lemma recv_message_wf: "wf_ledger P T s \<Longrightarrow> recv_message P acs args s = Ok s' \<Longrightarrow> wf_ledger P T s'"
  using attestation.wf_readD [of P T s "key (rm_attestation_info acs)"]
  by (auto simp: recv_message_eq_Ok recv_message_try_accounts_eq_Ok)

lemma exec_message_wf:
  assumes "wf_ledger P T s" "exec_message P acs args s = Ok s'"
    and "seeds_used P s (Exec_Message acs args) \<subseteq> T"
  shows "wf_ledger P T s'"
proof -
  obtain s1 i0 b i where acc: "exec_message_try_accounts P acs args s = Ok (s1, i0, b)"
    and new: "if at_src_chain i0 = 0
     then attestation_info_new P b (em_src_chain args) (em_src_addr args)
            (em_sequence args) (em_dst_chain args)
            (from_pubkey (em_integrator_program_id args)) (em_payload_hash args) = Ok i
     else i = i0"
    and s': "s' = emit_cpi (MessageExecuted (at_message_hash i) (em_src_chain args)
                 (em_src_addr args) (em_sequence args) (em_dst_chain args)
                 (from_pubkey (em_integrator_program_id args)) (em_payload_hash args))
               (store (key (em_attestation_info acs))
                  (Attestation_Info_Data (i\<lparr>at_executed := True\<rparr>)) s)"
    using assms(2) unfolding exec_message_eq_Ok by blast
  note opened = attestation_opened [OF assms(1) _ _ _ new]
  show ?thesis
    unfolding s' using opened [of "key (em_attestation_info acs)"] assms(1,3) acc
    by (auto simp: exec_message_try_accounts_eq_Ok em_message_hash_def)
qed

lemma process_wf:
  assumes "bitmaps_crate P" "wf_ledger P T s" "process P ix s = Ok s'" "seeds_used P s ix \<subseteq> T"
  shows "wf_ledger P T s'"
proof (cases ix)
  case (Enable_Recv_Adapter acs args)
  then show ?thesis using assms recv.enable_wf [OF assms(1,2)] by simp
next
  case (Enable_Send_Adapter acs args)
  then show ?thesis using assms send.enable_wf [OF assms(1,2)] by simp
next
  case (Disable_Recv_Adapter acs args)
  then show ?thesis using assms recv.disable_wf [OF assms(1,2)] by simp
next
  case (Disable_Send_Adapter acs args)
  then show ?thesis using assms send.disable_wf [OF assms(1,2)] by simp
qed (use assms in \<open>auto intro: register_wf [OF assms(2)] add_adapter_wf [OF assms(2)]
  update_admin_wf [OF assms(2)] transfer_admin_wf [OF assms(2)] claim_admin_wf [OF assms(2)]
  discard_admin_wf [OF assms(2)] send_message_wf [OF assms(1,2)]
  pick_up_message_wf [OF assms(1,2)] attest_message_wf [OF assms(1,2)]
  recv_message_wf [OF assms(2)] exec_message_wf [OF assms(2)]\<close>)

lemma step_wf: "bitmaps_crate P \<Longrightarrow> step P T s s' \<Longrightarrow> wf_ledger P T s \<Longrightarrow> wf_ledger P T s'"
  by (auto intro: process_wf wf_outside)

lemma reachable_wf: "bitmaps_crate P \<Longrightarrow> reachable P T s \<Longrightarrow> wf_ledger P T s"
  by (rotate_tac, induction rule: reachable.induct) (auto intro: wf_initial step_wf)

end
