(* ===== verification/Effects.thy ===== *)
theory Effects
  imports Invariants
begin

text \<open>
  What an instruction does to the endpoint's accounts, independent of how the accounts were
  passed and checked: eight kinds of effect, each with the conditions on the stored accounts
  that the source's constraints and guards establish. \<open>process_effect\<close> shows that every
  successful instruction has one of them; the invariants of the following theories are proved
  by cases on the effect.
\<close>

text \<open>The account \<open>k\<close> is derived from the seed list with the bump the account stores.\<close>

definition checked :: "'bm platform \<Rightarrow> seeds set \<Rightarrow> pubkey \<Rightarrow> seeds \<Rightarrow> u8 \<Rightarrow> bool" where
  "checked P T k sds b \<longleftrightarrow>
     sds \<in> T \<and> create_program_address P (sds @ [[b]]) endpoint_id = Some k"

text \<open>The account of a chain, or the fresh one with no adapter enabled.\<close>

definition chain_opened :: "ledger \<Rightarrow> pubkey \<Rightarrow> integrator_chain_config \<Rightarrow> bool" where
  "chain_opened s k cc \<longleftrightarrow> chain_config_at s k = Some cc \<or>
     \<not> in_use s k \<and> adapters_of (cc_send_adapter_bitmap cc) = {} \<and>
     adapters_of (cc_recv_adapter_bitmap cc) = {}"

text \<open>The attestation of a message, or a fresh one with no vote.\<close>

definition attestation_open :: "ledger \<Rightarrow> pubkey \<Rightarrow> attestation_info \<Rightarrow> bool" where
  "attestation_open s k i \<longleftrightarrow> attestation_at s k = Some i \<or>
     \<not> in_use s k \<and> \<not> at_executed i \<and> adapters_of (at_attested_adapters i) = {}"

inductive effect :: "'bm platform \<Rightarrow> seeds set \<Rightarrow> ledger \<Rightarrow> ledger \<Rightarrow> bool" for P T s where
  registered:
  "\<lbrakk>derived P T kc (integrator_config_seeds I) cb; derived P T kt (sequence_tracker_seeds I) tb;
    kc \<noteq> kt; \<not> in_use s kc; \<not> in_use s kt\<rbrakk> \<Longrightarrow>
   effect P T s (emit_cpi (IntegratorRegistered I adm)
     (store kt (Sequence_Tracker_Data
        \<lparr>st_bump = tb, st_integrator_program_id = I, st_sequence = 0\<rparr>)
     (store kc (Integrator_Config_Data \<lparr>ic_bump = cb, ic_integrator_program_id = I,
        ic_admin = Some adm, ic_pending_admin = None, ic_adapter_infos = []\<rparr>) s)))"
| adapter_added:
  "\<lbrakk>config_at s kc = Some c; checked P T kc (integrator_config_seeds I) (ic_bump c);
    ic_admin c \<noteq> None; length (ic_adapter_infos c) < 128;
    derived P T ka (adapter_info_seeds I A) b; \<not> in_use s ka; kc \<noteq> ka\<rbrakk> \<Longrightarrow>
   effect P T s (emit_cpi (AdapterAdded I A (of_nat (length (ic_adapter_infos c))))
     (store ka (Adapter_Info_Data \<lparr>ad_bump = b, ad_integrator_program_id = I,
        ad_adapter_program_id = A, ad_index = of_nat (length (ic_adapter_infos c))\<rparr>)
     (store kc (Integrator_Config_Data
        (c\<lparr>ic_adapter_infos := ic_adapter_infos c @ [A]\<rparr>)) s)))"
| admin_changed:
  "\<lbrakk>config_at s kc = Some c; ic_admin c \<noteq> None; ic_bump c' = ic_bump c;
    ic_integrator_program_id c' = ic_integrator_program_id c;
    ic_adapter_infos c' = ic_adapter_infos c; neutral e\<rbrakk> \<Longrightarrow>
   effect P T s (emit_cpi e (store kc (Integrator_Config_Data c') s))"
| chain_changed:
  "\<lbrakk>config_at s kc = Some c; checked P T kc (integrator_config_seeds I) (ic_bump c);
    adapter_info_at s ka = Some a; checked P T ka (adapter_info_seeds I A) (ad_bump a);
    derived P T kk (integrator_chain_config_seeds I ch) b;
    derived P T kk (integrator_chain_config_seeds (cc_integrator_program_id cc)
      (cc_chain_id cc)) (cc_bump cc);
    chain_opened s kk cc; cc_bump cc' = cc_bump cc; cc_chain_id cc' = cc_chain_id cc;
    cc_integrator_program_id cc' = cc_integrator_program_id cc;
    adapters_of (cc_send_adapter_bitmap cc') \<subseteq>
      insert (unat (ad_index a)) (adapters_of (cc_send_adapter_bitmap cc));
    adapters_of (cc_recv_adapter_bitmap cc') \<subseteq>
      insert (unat (ad_index a)) (adapters_of (cc_recv_adapter_bitmap cc));
    neutral e\<rbrakk> \<Longrightarrow>
   effect P T s (emit_cpi e (store kk (Chain_Config_Data cc') s))"
| message_sent:
  "\<lbrakk>chain_config_at s kk = Some cc; checked P T kk (integrator_chain_config_seeds I ch) (cc_bump cc);
    tracker_at s kt = Some t; checked P T kt (sequence_tracker_seeds I) (st_bump t);
    \<not> in_use s ko; ko \<noteq> kt; adapters_of (cc_send_adapter_bitmap cc) \<noteq> {};
    unat q = unat (st_sequence t) + 1\<rbrakk> \<Longrightarrow>
   effect P T s (emit_cpi (MessageSent (from_pubkey I) q dst ch h)
     (store ko (Outbox_Message_Data \<lparr>ob_src_addr = from_pubkey I, ob_sequence = st_sequence t,
        ob_dst_chain = ch, ob_dst_addr = dst, ob_payload_hash = h,
        ob_outstanding_adapters = cc_send_adapter_bitmap cc, ob_refund_recipient = payer\<rparr>)
     (store kt (Sequence_Tracker_Data (t\<lparr>st_sequence := q\<rparr>)) s)))"
| picked_up_last:
  "\<lbrakk>outbox_at s ko = Some m; neutral e\<rbrakk> \<Longrightarrow>
   effect P T s (close_account ko (emit_cpi e s))"
| picked_up:
  "\<lbrakk>outbox_at s ko = Some m; adapters_of bm \<subset> adapters_of (ob_outstanding_adapters m);
    adapters_of bm \<noteq> {}; neutral e\<rbrakk> \<Longrightarrow>
   effect P T s (store ko (Outbox_Message_Data (m\<lparr>ob_outstanding_adapters := bm\<rparr>))
     (emit_cpi e s))"
| attested:
  "\<lbrakk>attestation_open s k i; derived P T k (attestation_info_seeds (at_message_hash i)) (at_bump i);
    adapters_of (at_attested_adapters i) \<subset> adapters_of bm; neutral e\<rbrakk> \<Longrightarrow>
   effect P T s (emit_cpi e (store k (Attestation_Info_Data
     (i\<lparr>at_attested_adapters := bm\<rparr>)) s))"
| executed:
  "\<lbrakk>attestation_open s k i; derived P T k (attestation_info_seeds (at_message_hash i)) (at_bump i);
    \<not> at_executed i; execution_hash e = Some (at_message_hash i); sent_id e = None\<rbrakk> \<Longrightarrow>
   effect P T s (emit_cpi e (store k (Attestation_Info_Data (i\<lparr>at_executed := True\<rparr>)) s))"

section \<open>Every instruction has an effect\<close>

text \<open>Attestations: the facts about an opened attestation, in the form the effects use.\<close>

lemma attestation_openI:
  assumes "wf_ledger P T s"
    and "attestation_info_pda P (compute_message_hash P c a q d e h) = (k, b)"
    and "attestation_info_seeds (compute_message_hash P c a q d e h) \<in> T"
    and "\<not> in_use s k \<and> i0 = zero_attestation_info \<or> attestation_at s k = Some i0"
    and "if at_src_chain i0 = 0 then attestation_info_new P b c a q d e h = Ok i else i = i0"
  shows "attestation_open s k i"
    and "derived P T k (attestation_info_seeds (at_message_hash i)) (at_bump i)"
  using attestation_opened [OF assms] by (auto simp: attestation_open_def)

lemma register_effect:
  assumes "register P acs args s = Ok s'" "seeds_used P s (Register acs args) \<subseteq> T"
  shows "effect P T s s'"
  using assms by (auto simp: register_eq_Ok pda_defs derived_def intro!: registered)

lemma add_adapter_effect:
  assumes "add_adapter P acs args s = Ok s'" "seeds_used P s (Add_Adapter acs args) \<subseteq> T"
  shows "effect P T s s'"
  using assms read_SomeD [of as_integrator_config s "key (aa_integrator_config acs)"]
  by (auto simp: add_adapter_eq_Ok add_adapter_try_accounts_eq_Ok pda_defs derived_def checked_def
      intro!: adapter_added)

lemma update_admin_effect: "update_admin P acs args s = Ok s' \<Longrightarrow> effect P T s s'"
  by (auto simp: update_admin_eq_Ok update_admin_try_accounts_eq_Ok intro!: admin_changed)

lemma transfer_admin_effect: "transfer_admin P acs args s = Ok s' \<Longrightarrow> effect P T s s'"
  by (auto simp: transfer_admin_eq_Ok transfer_admin_try_accounts_eq_Ok intro!: admin_changed)

lemma claim_admin_effect: "claim_admin P acs s = Ok s' \<Longrightarrow> effect P T s s'"
  by (auto simp: claim_admin_eq_Ok claim_admin_try_accounts_eq_Ok intro!: admin_changed)

lemma discard_admin_effect: "discard_admin P acs s = Ok s' \<Longrightarrow> effect P T s s'"
  by (auto simp: discard_admin_eq_Ok discard_admin_try_accounts_eq_Ok intro!: admin_changed)

context bitmaps_crate
begin

lemma send_message_effect:
  assumes "send_message P acs args s = Ok s'" "seeds_used P s (Send_Message acs args) \<subseteq> T"
  shows "effect P T s s'"
proof -
  obtain s1 cc t t' q where acc: "send_message_try_accounts P acs args s = Ok (s1, cc, t)"
    and ne: "adapters_of (cc_send_adapter_bitmap cc) \<noteq> {}"
    and nq: "next_sequence t = Ok (t', q)"
    and s': "s' = emit_cpi (MessageSent (from_pubkey (sm_integrator_program_id args))
                         (st_sequence t') (sm_dst_addr args) (sm_dst_chain args)
                         (sm_payload_hash args))
               (store (key (sm_outbox_message acs)) (Outbox_Message_Data
                  \<lparr>ob_src_addr = from_pubkey (sm_integrator_program_id args), ob_sequence = q,
                   ob_dst_chain = sm_dst_chain args, ob_dst_addr = sm_dst_addr args,
                   ob_payload_hash = sm_payload_hash args,
                   ob_outstanding_adapters = cc_send_adapter_bitmap cc,
                   ob_refund_recipient = key (sm_payer acs)\<rparr>)
               (store (key (sm_sequence_tracker acs)) (Sequence_Tracker_Data t') s))"
    using assms(1) unfolding send_message_eq_Ok bitmap_is_empty_unfold by blast
  have t': "t' = t\<lparr>st_sequence := st_sequence t'\<rparr>" and q: "q = st_sequence t"
    and n: "unat (st_sequence t') = unat (st_sequence t) + 1"
    using nq by (auto simp: next_sequence_eq_Ok)
  show ?thesis
    unfolding s' q
    by (subst t', rule message_sent)
      (use acc ne n assms(2) send_message_try_accounts_distinct [OF acc] in
        \<open>auto simp: send_message_try_accounts_eq_Ok checked_def\<close>)
qed

lemma pick_up_message_effect:
  assumes "pick_up_message P acs args s = Ok s'"
  shows "effect P T s s'"
  using assms
proof (cases rule: pick_up_message_OkE)
  case (last m a)
  then show ?thesis
    by (auto simp: pick_up_message_try_accounts_eq_Ok intro!: picked_up_last)
next
  case (more m a bm)
  have "adapters_of bm \<subset> adapters_of (ob_outstanding_adapters m)"
    using more(2,3) by blast
  then show ?thesis
    unfolding more(5) using more(1,4)
    by (intro picked_up) (simp_all add: pick_up_message_try_accounts_eq_Ok)
qed

lemma attest_message_effect:
  assumes "wf_ledger P T s" "attest_message P acs args s = Ok s'"
    and "seeds_used P s (Attest_Message acs args) \<subseteq> T"
  shows "effect P T s s'"
  using assms(2)
proof (cases rule: attest_message_OkE)
  case (1 s1 a cc i0 b i bm)
  note opened = attestation_openI [OF assms(1) _ _ _ 1(4), of "key (am_attestation_info acs)"]
  show ?thesis
    unfolding 1(7) by (rule attested)
      (use opened 1 assms(3) in
        \<open>auto simp: attest_message_try_accounts_eq_Ok am_message_hash_def\<close>)
qed

end

lemma recv_message_effect:
  assumes "wf_ledger P T s" "recv_message P acs args s = Ok s'"
  shows "effect P T s s'"
  using assms(2) attestation.wf_readD [OF assms(1), of "key (rm_attestation_info acs)"]
  by (auto simp: recv_message_eq_Ok recv_message_try_accounts_eq_Ok attestation_open_def
      intro!: executed)

lemma exec_message_effect:
  assumes "wf_ledger P T s" "exec_message P acs args s = Ok s'"
    and "seeds_used P s (Exec_Message acs args) \<subseteq> T"
  shows "effect P T s s'"
proof -
  obtain s1 i0 b i where acc: "exec_message_try_accounts P acs args s = Ok (s1, i0, b)"
    and ne: "\<not> at_executed i0"
    and new: "if at_src_chain i0 = 0
     then attestation_info_new P b (em_src_chain args) (em_src_addr args)
            (em_sequence args) (em_dst_chain args)
            (from_pubkey (em_integrator_program_id args)) (em_payload_hash args) = Ok i
     else i = i0"
    and s': "s' = emit_cpi (MessageExecuted (at_message_hash i) (em_src_chain args)
                 (em_src_addr args) (em_sequence args) (em_dst_chain args)
                 (from_pubkey (em_integrator_program_id args)) (em_payload_hash args))
               (store (key (em_attestation_info acs))
                  (Attestation_Info_Data (i\<lparr>at_executed := True\<rparr>)) s)"
    using assms(2) unfolding exec_message_eq_Ok by blast
  have "\<not> at_executed i"
    using new ne by (auto simp: attestation_info_new_eq_Ok split: if_splits)
  then show ?thesis
    unfolding s' using attestation_openI [OF assms(1) _ _ _ new, of "key (em_attestation_info acs)"]
      acc assms(3)
    by (intro executed) (auto simp: exec_message_try_accounts_eq_Ok em_message_hash_def)
qed

lemma chain_opened_initial:
  assumes "wf_ledger P T s" "seeds_used P s (Enable_Recv_Adapter acs args) \<subseteq> T"
    and "enable_adapter_try_accounts P acs args s = Ok (s1, c, a, cc, b)"
    and "aia_chain_id args \<noteq> 0"
  shows "chain_opened s (key (en_integrator_chain_config acs)) (initial_chain_config args b cc)"
  using assms chain_config.wf_readD [OF assms(1), of "key (en_integrator_chain_config acs)" cc]
  by (auto simp: enable_adapter_try_accounts_eq_Ok initial_chain_config_def zero_chain_config_def
      chain_opened_def)

context adapter_direction
begin

lemma put_bitmap_effect:
  assumes "config_at s kc = Some c" "checked P T kc (integrator_config_seeds I) (ic_bump c)"
    and "adapter_info_at s ka = Some a" "checked P T ka (adapter_info_seeds I A) (ad_bump a)"
    and "derived P T kk (integrator_chain_config_seeds I ch) b"
    and "account_ok P T kk (Chain_Config_Data cc)" "chain_opened s kk cc"
    and "adapters_of bm \<subseteq> insert (unat (ad_index a)) (adapters_of (bitmap_of cc))"
    and "neutral e"
  shows "effect P T s (emit_cpi e (store kk (Chain_Config_Data (put_bitmap bm cc)) s))"
  using two_bitmaps bitmap_of_put [of bm cc] other_of_put [of bm cc] assms(6-)
  by (intro chain_changed [OF assms(1-5), of cc]) (auto simp: identity_put)

lemma enable_effect:
  assumes "bitmaps_crate P" "wf_ledger P T s" "enable P acs args s = Ok s'"
    and "seeds_used P s (Enable_Recv_Adapter acs args) \<subseteq> T"
  shows "effect P T s s'"
proof -
  obtain s1 c a cc0 b cc where
    acc: "enable_adapter_try_accounts P acs args s = Ok (s1, c, a, cc0, b)"
    and ch: "aia_chain_id args \<noteq> 0" and i: "unat (ad_index a) < 128"
    and cc: "cc = initial_chain_config args b cc0"
    and s': "s' = emit_cpi (enabled_event (aia_integrator_program_id args)
                          (aia_chain_id args) (aia_adapter_program_id args))
                (store (key (en_integrator_chain_config acs)) (Chain_Config_Data
                   (put_bitmap (with_adapter (unat (ad_index a)) (bitmap_of cc)) cc)) s)"
    using assms(3) unfolding enable_eq_Ok [OF assms(1)] Let_def by blast
  have "account_ok P T (key (en_integrator_chain_config acs)) (Chain_Config_Data cc)"
    "chain_opened s (key (en_integrator_chain_config acs)) cc"
    unfolding cc using wf_chain_config_opened [OF assms(2,4) acc ch]
      chain_opened_initial [OF assms(2,4) acc ch] .
  then show ?thesis
    unfolding s' using acc assms(4) i
    by (intro put_bitmap_effect [where I = "aia_integrator_program_id args" and a = a and c = c
          and A = "aia_adapter_program_id args" and b = b and ch = "aia_chain_id args"])
      (simp_all add: enable_adapter_try_accounts_eq_Ok checked_def derived_def pda_defs
        neutral_events del: account_ok.simps)
qed

lemma disable_effect:
  assumes "bitmaps_crate P" "wf_ledger P T s" "disable P acs args s = Ok s'"
    and "seeds_used P s (Disable_Recv_Adapter acs args) \<subseteq> T"
  shows "effect P T s s'"
proof -
  obtain c cc a where
    acc: "disable_adapter_try_accounts P acs args s = Ok (c, cc, a)"
    and s': "s' = emit_cpi (disabled_event (aia_integrator_program_id args)
                          (aia_chain_id args) (aia_adapter_program_id args))
                (store (key (ds_integrator_chain_config acs)) (Chain_Config_Data
                   (put_bitmap (without_adapter (unat (ad_index a)) (bitmap_of cc)) cc)) s)"
    using assms(3) unfolding disable_eq_Ok [OF assms(1)] by blast
  have "account_ok P T (key (ds_integrator_chain_config acs)) (Chain_Config_Data cc)"
    "chain_opened s (key (ds_integrator_chain_config acs)) cc"
    using chain_config.wf_readD [OF assms(2), of "key (ds_integrator_chain_config acs)" cc] acc
    by (simp_all add: disable_adapter_try_accounts_eq_Ok chain_opened_def del: account_ok.simps)
  then show ?thesis
    unfolding s' using acc assms(4)
    by (intro put_bitmap_effect [where I = "aia_integrator_program_id args" and a = a and c = c
          and A = "aia_adapter_program_id args" and ch = "aia_chain_id args"
          and b = "snd (integrator_chain_config_pda P (aia_integrator_program_id args)
                     (aia_chain_id args))"])
      (auto simp: disable_adapter_try_accounts_eq_Ok checked_def derived_def pda_defs
        neutral_events prod_eq_iff simp del: account_ok.simps)
qed

end

lemma process_effect:
  assumes "bitmaps_crate P" "wf_ledger P T s" "process P ix s = Ok s'" "seeds_used P s ix \<subseteq> T"
  shows "effect P T s s'"
proof (cases ix)
  case (Enable_Recv_Adapter acs args)
  then show ?thesis using assms recv.enable_effect [OF assms(1,2)] by simp
next
  case (Enable_Send_Adapter acs args)
  then show ?thesis using assms send.enable_effect [OF assms(1,2)] by simp
next
  case (Disable_Recv_Adapter acs args)
  then show ?thesis using assms recv.disable_effect [OF assms(1,2)] by simp
next
  case (Disable_Send_Adapter acs args)
  then show ?thesis using assms send.disable_effect [OF assms(1,2)] by simp
qed (use assms in \<open>auto intro: register_effect add_adapter_effect update_admin_effect
  transfer_admin_effect claim_admin_effect discard_admin_effect recv_message_effect
  exec_message_effect bitmaps_crate.send_message_effect bitmaps_crate.pick_up_message_effect
  bitmaps_crate.attest_message_effect\<close>)

text \<open>The step of a run, seen as an effect on the endpoint's accounts.\<close>

lemma step_effect:
  assumes "bitmaps_crate P" "wf_ledger P T s" "step P T s s'"
  shows "effect P T s s' \<or> outside_step s s'"
  using assms(3) by cases (auto intro: process_effect [OF assms(1,2)])

end
