(* ===== verification/Evolution.thy ===== *)
theory Evolution
  imports Effects
begin

text \<open>
  How the endpoint's accounts change over time. \<open>evolves d d'\<close> says what may become of one
  account: identities never change, adapter lists only grow, sequence numbers and votes only
  increase, an executed message stays executed and a configuration without an admin is frozen.
  Outbox messages may disappear, everything else stays. The second part counts executions:
  each message hash is marked as executed at most once in the event log.
\<close>

section \<open>What may become of an account\<close>

fun evolves :: "account_data \<Rightarrow> account_data \<Rightarrow> bool" where
  "evolves (Integrator_Config_Data c) (Integrator_Config_Data c') \<longleftrightarrow>
     ic_bump c' = ic_bump c \<and> ic_integrator_program_id c' = ic_integrator_program_id c \<and>
     take (length (ic_adapter_infos c)) (ic_adapter_infos c') = ic_adapter_infos c \<and>
     (ic_admin c = None \<longrightarrow> c' = c)"
| "evolves (Chain_Config_Data c) (Chain_Config_Data c') \<longleftrightarrow>
     cc_bump c' = cc_bump c \<and> cc_integrator_program_id c' = cc_integrator_program_id c \<and>
     cc_chain_id c' = cc_chain_id c"
| "evolves (Adapter_Info_Data a) (Adapter_Info_Data a') \<longleftrightarrow> a' = a"
| "evolves (Sequence_Tracker_Data t) (Sequence_Tracker_Data t') \<longleftrightarrow>
     t' = t\<lparr>st_sequence := st_sequence t'\<rparr> \<and> st_sequence t \<le> st_sequence t'"
| "evolves (Outbox_Message_Data m) (Outbox_Message_Data m') \<longleftrightarrow>
     m' = m\<lparr>ob_outstanding_adapters := ob_outstanding_adapters m'\<rparr> \<and>
     adapters_of (ob_outstanding_adapters m') \<subseteq> adapters_of (ob_outstanding_adapters m)"
| "evolves (Attestation_Info_Data i) (Attestation_Info_Data i') \<longleftrightarrow>
     i' = i\<lparr>at_attested_adapters := at_attested_adapters i', at_executed := at_executed i'\<rparr> \<and>
     adapters_of (at_attested_adapters i) \<subseteq> adapters_of (at_attested_adapters i') \<and>
     (at_executed i \<longrightarrow> at_executed i')"
| "evolves _ _ \<longleftrightarrow> False"

fun is_outbox :: "account_data \<Rightarrow> bool" where
  "is_outbox (Outbox_Message_Data m) = True"
| "is_outbox _ = False"

lemma evolves_refl: "carries_discriminator d \<Longrightarrow> evolves d d"
  by (cases d) auto

lemma take_extends:
  "take (length xs) ys = xs \<Longrightarrow> take (length ys) zs = ys \<Longrightarrow> take (length xs) zs = xs"
  by (metis append_take_drop_id length_take min.cobounded1 min_def take_all_iff take_take)

lemma evolves_trans: "evolves d d' \<Longrightarrow> evolves d' d'' \<Longrightarrow> evolves d d''"
proof (induction d d' rule: evolves.induct)
  case (1 c c')
  then show ?case by (cases d'') (auto intro: take_extends)
next
  case (2 c c')
  then show ?case by (cases d'') auto
next
  case (3 a a')
  then show ?case by (cases d'') auto
next
  case (4 t t')
  then show ?case by (cases d''; cases t; cases t') auto
next
  case (5 m m')
  then show ?case by (cases d''; cases m; cases m') auto
next
  case (6 i i')
  then show ?case by (cases d''; cases i; cases i') auto
qed auto

lemma evolves_is_outbox: "evolves d d' \<Longrightarrow> is_outbox d' = is_outbox d"
  by (induction d d' rule: evolves.induct) auto

section \<open>One step\<close>

definition keeps :: "ledger \<Rightarrow> ledger \<Rightarrow> pubkey \<Rightarrow> bool" where
  "keeps s s' k \<longleftrightarrow> (\<forall>d. view s k = Some d \<longrightarrow>
     (\<exists>d'. view s' k = Some d' \<and> evolves d d') \<or> is_outbox d \<and> view s' k = None)"

lemma view_typed: "view s k = Some d \<Longrightarrow> carries_discriminator d"
  by (auto simp: view_def split: option.splits if_splits)

lemma keeps_same: "view s' k = view s k \<Longrightarrow> keeps s s' k"
  by (auto simp: keeps_def intro: evolves_refl view_typed)

lemma keeps_refl [simp]: "keeps s s k"
  by (rule keeps_same) simp

lemma keeps_emit [simp]: "keeps s (emit_cpi e s') k \<longleftrightarrow> keeps s s' k"
  by (simp add: keeps_def read_simps)

lemma keeps_store:
  assumes "keeps s s' k" and "l = k \<Longrightarrow> carries_discriminator d"
    and "\<And>d0. l = k \<Longrightarrow> view s l = Some d0 \<Longrightarrow> evolves d0 d"
  shows "keeps s (store l d s') k"
  using assms by (auto simp: keeps_def read_simps)

lemma keeps_store_new: "keeps s s' k \<Longrightarrow> \<not> in_use s l \<Longrightarrow> carries_discriminator d \<Longrightarrow>
   keeps s (store l d s') k"
  by (rule keeps_store) (auto dest: view_not_in_use)

lemma view_Some_read:
  "config_at s k = Some c \<Longrightarrow> view s k = Some (Integrator_Config_Data c)"
  "chain_config_at s k = Some cc \<Longrightarrow> view s k = Some (Chain_Config_Data cc)"
  "adapter_info_at s k = Some a \<Longrightarrow> view s k = Some (Adapter_Info_Data a)"
  "tracker_at s k = Some t \<Longrightarrow> view s k = Some (Sequence_Tracker_Data t)"
  "outbox_at s k = Some m \<Longrightarrow> view s k = Some (Outbox_Message_Data m)"
  "attestation_at s k = Some i \<Longrightarrow> view s k = Some (Attestation_Info_Data i)"
  by (simp_all add: view_if_read)

lemma effect_keeps:
  assumes "effect P T s s'"
  shows "keeps s s' k"
  using assms
proof cases
  case registered
  then show ?thesis by (simp add: keeps_store_new)
next
  case (adapter_added kc c I ka A b)
  then show ?thesis by (auto simp: view_Some_read view_not_in_use intro!: keeps_store)
next
  case (admin_changed kc c c' e)
  then show ?thesis by (auto simp: view_Some_read intro!: keeps_store)
next
  case (chain_changed kc c I ka a A kk ch b cc cc' e)
  then show ?thesis
    by (auto simp: view_Some_read chain_opened_def view_not_in_use intro!: keeps_store)
next
  case (message_sent kk cc I ch kt t ko q dst h payer)
  then show ?thesis
    by (auto simp: view_Some_read view_not_in_use word_le_nat_alt intro!: keeps_store)
next
  case (picked_up_last ko m e)
  then show ?thesis
    by (auto simp: view_Some_read keeps_def read_simps intro: evolves_refl view_typed)
next
  case (picked_up ko m bm e)
  then show ?thesis
    by (auto intro!: keeps_store simp: view_Some_read read_simps)
next
  case (attested k i bm e)
  then show ?thesis
    by (cases i) (auto simp: view_Some_read attestation_open_def view_not_in_use intro!: keeps_store)
next
  case (executed k i e)
  then show ?thesis
    by (cases i) (auto simp: view_Some_read attestation_open_def view_not_in_use intro!: keeps_store)
qed

lemma step_keeps:
  assumes "bitmaps_crate P" "wf_ledger P T s" "step P T s s'"
  shows "keeps s s' k"
  using step_effect [OF assms] by (auto intro: effect_keeps keeps_same simp: outside_step_def)

section \<open>A whole run\<close>

lemma steps_keep:
  assumes "bitmaps_crate P" "rtranclp (step P T) s s'" "wf_ledger P T s"
    and "view s k = Some d" "\<not> is_outbox d"
  shows "\<exists>d'. view s' k = Some d' \<and> evolves d d'"
  using assms(2,3)
proof (induction rule: rtranclp_induct)
  case base
  then show ?case using assms(4) by (auto intro: evolves_refl view_typed)
next
  case (step s1 s2)
  then obtain d1 where d1: "view s1 k = Some d1" "evolves d d1" by auto
  have "wf_ledger P T s1"
    using step.hyps(1) step.prems by (induction rule: rtranclp_induct) (auto intro: step_wf assms(1))
  then have "keeps s1 s2 k"
    using step.hyps(2) by (rule step_keeps [OF assms(1)])
  then show ?case
    using d1 assms(5) evolves_is_outbox [of d d1] unfolding keeps_def
    by (auto intro: evolves_trans)
qed

section \<open>Executions\<close>

text \<open>The message with the hash \<open>h\<close> is stored as executed.\<close>

definition executed_at :: "'bm platform \<Rightarrow> ledger \<Rightarrow> bytes32 \<Rightarrow> bool" where
  "executed_at P s h = (case attestation_at s (fst (attestation_info_pda P h)) of None \<Rightarrow> False
     | Some i \<Rightarrow> at_executed i \<and> at_message_hash i = h)"

text \<open>The event log names every executed message once, and no other.\<close>

definition execution_log_ok :: "'bm platform \<Rightarrow> ledger \<Rightarrow> bool" where
  "execution_log_ok P s \<longleftrightarrow>
     (\<forall>h. executions h (events s) = (if executed_at P s h then 1 else 0))"

lemma executed_at_view: "view s' = view s \<Longrightarrow> executed_at P s' h = executed_at P s h"
  by (simp add: executed_at_def attestation.read_eq_view)

lemma executed_at_emit [simp]: "executed_at P (emit_cpi e s) h = executed_at P s h"
  by (simp add: executed_at_def read_simps)

lemma executed_at_store_other:
  "as_attestation_info d = None \<Longrightarrow> attestation_at s k = None \<Longrightarrow>
   executed_at P (store k d s) h = executed_at P s h"
  by (auto simp: executed_at_def read_simps)

lemma executed_at_close_other:
  "attestation_at s k = None \<Longrightarrow> executed_at P (close_account k s) h = executed_at P s h"
  by (auto simp: executed_at_def read_simps)

lemma executed_at_store:
  "executed_at P (store k (Attestation_Info_Data i) s) h =
     (if fst (attestation_info_pda P h) = k then at_executed i \<and> at_message_hash i = h
      else executed_at P s h)"
  by (simp add: executed_at_def read_simps)

lemma execution_log_ok_silent:
  assumes "execution_log_ok P s" "\<And>h. executed_at P s' h = executed_at P s h"
    and "\<And>h. executions h (events s') = executions h (events s)"
  shows "execution_log_ok P s'"
  using assms by (simp add: execution_log_ok_def)

lemma attestation_at_other:
  "config_at s k = Some c \<Longrightarrow> attestation_at s k = None"
  "chain_config_at s k = Some cc \<Longrightarrow> attestation_at s k = None"
  "tracker_at s k = Some t \<Longrightarrow> attestation_at s k = None"
  "outbox_at s k = Some m \<Longrightarrow> attestation_at s k = None"
  by (auto simp: attestation.read_eq_view dest!: view_Some_read)

lemmas executed_simps =
  executed_at_store_other executed_at_close_other attestation_at_other read_not_in_use
  read_simps

lemma effect_execution_log:
  assumes "effect P T s s'" "execution_log_ok P s"
  shows "execution_log_ok P s'"
  using assms(1)
proof cases
  case (attested k i bm e)
  have "executed_at P s' h = executed_at P s h" for h
    using attested(2) unfolding attested(1) attestation_open_def
    by (auto simp: executed_at_store) (auto simp: executed_at_def read_not_in_use)
  then show ?thesis
    by (rule execution_log_ok_silent [OF assms(2)]) (use attested in \<open>simp add: neutral_def\<close>)
next
  case (executed k i e)
  have "fst (attestation_info_pda P (at_message_hash i)) = k"
    using executed(3) by (simp add: derived_def attestation_info_pda_def)
  moreover from this have "\<not> executed_at P s (at_message_hash i)"
    using executed(2,4) by (auto simp: executed_at_def attestation_open_def read_not_in_use)
  moreover have "\<not> executed_at P s h"
    if "fst (attestation_info_pda P h) = k" "h \<noteq> at_message_hash i" for h
    using executed(2) that by (auto simp: executed_at_def attestation_open_def read_not_in_use)
  ultimately show ?thesis
    using assms(2) unfolding execution_log_ok_def executed(1)
    by (auto simp: executed_at_store executed(5))
next
  case (chain_changed kc c I ka a A kk ch b cc cc' e)
  then show ?thesis
    by (auto intro!: execution_log_ok_silent [OF assms(2)] simp: executed_simps neutral_def chain_opened_def)
qed (auto intro!: execution_log_ok_silent [OF assms(2)] simp: executed_simps neutral_def)

lemma reachable_execution_log:
  assumes "bitmaps_crate P" "reachable P T s"
  shows "execution_log_ok P s"
  using assms(2)
proof (induction rule: reachable.induct)
  case (reachable_initial s)
  then show ?case
    by (simp add: execution_log_ok_def executed_at_def initial_def attestation.read_eq_view)
next
  case (reachable_step s s')
  then have "effect P T s s' \<or> outside_step s s'"
    using step_effect [OF assms(1)] reachable_wf [OF assms(1)] by blast
  then show ?case
  proof
    assume "effect P T s s'"
    then show ?thesis using reachable_step.IH by (rule effect_execution_log)
  next
    assume "outside_step s s'"
    then show ?thesis
      by (intro execution_log_ok_silent [OF reachable_step.IH] executed_at_view)
        (simp_all add: outside_step_def)
  qed
qed

end
