(* ===== verification/Registry.thy ===== *)
theory Registry
  imports Evolution
begin

text \<open>
  How the endpoint's accounts fit together. When the seed lists in use have no colliding
  addresses, an account passed to an instruction is the one of the integrator, chain or adapter
  the arguments name. Then the adapter list of a configuration and the AdapterInfo accounts
  describe the same numbering, every bitmap only has indices of registered adapters, and a
  sequence number is given to one message of an integrator only.
\<close>

locale deployment = bitmaps_crate P + program_addresses P
  for P :: "'bm platform" +
  fixes T :: "seeds set"
  assumes no_collision: "collision_free P endpoint_id T"
begin

lemma derived_checked: "derived P T k sds b \<Longrightarrow> checked P T k sds b"
  using find_create [of sds endpoint_id] by (simp add: derived_def checked_def)

lemma checked_unique: "checked P T k sds b \<Longrightarrow> checked P T k sds' b' \<Longrightarrow> sds = sds'"
  using collision_freeD [OF no_collision] unfolding checked_def by blast

lemma derived_unique: "derived P T k sds b \<Longrightarrow> checked P T k sds' b' \<Longrightarrow> sds = sds'"
  using derived_checked checked_unique by blast

text \<open>The account a seeds constraint accepts belongs to whom the arguments name.\<close>

lemma checked_config:
  "wf_ledger P T s \<Longrightarrow> config_at s k = Some c \<Longrightarrow>
   checked P T k (integrator_config_seeds I) b \<Longrightarrow> ic_integrator_program_id c = I"
  using config.wf_readD [of P T s k c] derived_unique by fastforce

lemma checked_tracker:
  "wf_ledger P T s \<Longrightarrow> tracker_at s k = Some t \<Longrightarrow>
   checked P T k (sequence_tracker_seeds I) b \<Longrightarrow> st_integrator_program_id t = I"
  using tracker.wf_readD [of P T s k t] derived_unique by fastforce

lemma checked_adapter:
  "wf_ledger P T s \<Longrightarrow> adapter_info_at s k = Some a \<Longrightarrow>
   checked P T k (adapter_info_seeds I A) b \<Longrightarrow>
   ad_integrator_program_id a = I \<and> ad_adapter_program_id a = A"
  using adapter_account.wf_readD [of P T s k a] derived_unique by fastforce

lemma checked_chain:
  "wf_ledger P T s \<Longrightarrow> chain_config_at s k = Some cc \<Longrightarrow>
   checked P T k (integrator_chain_config_seeds I ch) b \<Longrightarrow>
   cc_integrator_program_id cc = I \<and> cc_chain_id cc = ch"
  using chain_config.wf_readD [of P T s k cc] derived_unique by fastforce

lemma checked_attestation:
  "wf_ledger P T s \<Longrightarrow> attestation_at s k = Some i \<Longrightarrow>
   checked P T k (attestation_info_seeds h) b \<Longrightarrow> at_message_hash i = h"
  using attestation.wf_readD [of P T s k i] derived_unique by fastforce

end

section \<open>One account per key\<close>

text \<open>Two accounts of a type that hold the same identity are the same account.\<close>

lemma derived_key_unique: "derived P T k sds b \<Longrightarrow> derived P T l sds c \<Longrightarrow> k = l"
  by (simp add: derived_def)

lemma config_key_unique:
  assumes "wf_ledger P T s" "config_at s k = Some c" "config_at s l = Some d"
    and "ic_integrator_program_id c = ic_integrator_program_id d"
  shows "k = l"
proof (rule derived_key_unique)
  show "derived P T k (integrator_config_seeds (ic_integrator_program_id d)) (ic_bump c)"
    using config.wf_readD [OF assms(1,2)] assms(4-) by simp
  show "derived P T l (integrator_config_seeds (ic_integrator_program_id d)) (ic_bump d)"
    using config.wf_readD [OF assms(1,3)] by simp
qed

lemma tracker_key_unique:
  assumes "wf_ledger P T s" "tracker_at s k = Some c" "tracker_at s l = Some d"
    and "st_integrator_program_id c = st_integrator_program_id d"
  shows "k = l"
proof (rule derived_key_unique)
  show "derived P T k (sequence_tracker_seeds (st_integrator_program_id d)) (st_bump c)"
    using tracker.wf_readD [OF assms(1,2)] assms(4-) by simp
  show "derived P T l (sequence_tracker_seeds (st_integrator_program_id d)) (st_bump d)"
    using tracker.wf_readD [OF assms(1,3)] by simp
qed

lemma adapter_key_unique:
  assumes "wf_ledger P T s" "adapter_info_at s k = Some c" "adapter_info_at s l = Some d"
    and "ad_integrator_program_id c = ad_integrator_program_id d" "ad_adapter_program_id c = ad_adapter_program_id d"
  shows "k = l"
proof (rule derived_key_unique)
  show "derived P T k (adapter_info_seeds (ad_integrator_program_id d) (ad_adapter_program_id d)) (ad_bump c)"
    using adapter_account.wf_readD [OF assms(1,2)] assms(4-) by simp
  show "derived P T l (adapter_info_seeds (ad_integrator_program_id d) (ad_adapter_program_id d)) (ad_bump d)"
    using adapter_account.wf_readD [OF assms(1,3)] by simp
qed

section \<open>Steps of other programs\<close>

context account_type
begin

lemma read_outside: "outside_step s s' \<Longrightarrow> read proj s' = read proj s"
  by (rule ext) (simp add: read_eq_view outside_step_def)

end

section \<open>The invariants\<close>

text \<open>The configuration of the integrator \<open>I\<close> lists at least \<open>n\<close> adapters.\<close>

definition has_adapters :: "ledger \<Rightarrow> pubkey \<Rightarrow> nat \<Rightarrow> bool" where
  "has_adapters s I n \<longleftrightarrow> (\<exists>k c. config_at s k = Some c \<and> ic_integrator_program_id c = I \<and>
     n \<le> length (ic_adapter_infos c))"

text \<open>Adapter lists and AdapterInfo accounts describe the same numbering.\<close>

definition adapters_listed :: "ledger \<Rightarrow> bool" where
  "adapters_listed s \<longleftrightarrow> (\<forall>k a. adapter_info_at s k = Some a \<longrightarrow>
     (\<exists>kc c. config_at s kc = Some c \<and>
        ic_integrator_program_id c = ad_integrator_program_id a \<and>
        unat (ad_index a) < length (ic_adapter_infos c) \<and>
        ic_adapter_infos c ! unat (ad_index a) = ad_adapter_program_id a))"

definition adapters_backed :: "ledger \<Rightarrow> bool" where
  "adapters_backed s \<longleftrightarrow> (\<forall>k c i. config_at s k = Some c \<and> i < length (ic_adapter_infos c) \<longrightarrow>
     (\<exists>ka a. adapter_info_at s ka = Some a \<and>
        ad_integrator_program_id a = ic_integrator_program_id c \<and>
        ad_adapter_program_id a = ic_adapter_infos c ! i \<and> unat (ad_index a) = i))"

text \<open>Bitmaps only have indices of registered adapters.\<close>

definition chains_bounded :: "ledger \<Rightarrow> bool" where
  "chains_bounded s \<longleftrightarrow> (\<forall>k cc i. chain_config_at s k = Some cc \<and>
     (i \<in> adapters_of (cc_send_adapter_bitmap cc) \<or> i \<in> adapters_of (cc_recv_adapter_bitmap cc)) \<longrightarrow>
     has_adapters s (cc_integrator_program_id cc) (Suc i))"

definition outbox_bounded :: "ledger \<Rightarrow> bool" where
  "outbox_bounded s \<longleftrightarrow> (\<forall>k m i. outbox_at s k = Some m \<and>
     i \<in> adapters_of (ob_outstanding_adapters m) \<longrightarrow>
     has_adapters s (to_pubkey (ob_src_addr m)) (Suc i))"

text \<open>The sequence number \<open>q\<close> of the integrator \<open>I\<close> was handed out before.\<close>

definition used_sequence :: "ledger \<Rightarrow> pubkey \<Rightarrow> u64 \<Rightarrow> bool" where
  "used_sequence s I q \<longleftrightarrow>
     (\<exists>k t. tracker_at s k = Some t \<and> st_integrator_program_id t = I \<and> q < st_sequence t)"

definition sequences_ok :: "ledger \<Rightarrow> bool" where
  "sequences_ok s \<longleftrightarrow>
     (\<forall>k m. outbox_at s k = Some m \<longrightarrow>
        used_sequence s (to_pubkey (ob_src_addr m)) (ob_sequence m)) \<and>
     (\<forall>k l m n. outbox_at s k = Some m \<and> outbox_at s l = Some n \<and>
        ob_src_addr m = ob_src_addr n \<and> ob_sequence m = ob_sequence n \<longrightarrow> k = l)"

definition sent_once :: "ledger \<Rightarrow> bool" where
  "sent_once s \<longleftrightarrow> distinct (sent_ids (events s)) \<and>
     (\<forall>a q. (a, q) \<in> set (sent_ids (events s)) \<longrightarrow>
        (\<exists>k t. tracker_at s k = Some t \<and> st_integrator_program_id t = to_pubkey a \<and>
           q \<le> st_sequence t))"

section \<open>What an effect adds\<close>

lemma effect_adapter_info:
  assumes "effect P T s s'" "adapter_info_at s' k = Some a"
  shows "adapter_info_at s k = Some a \<or>
     (\<exists>kc c c'. config_at s kc = Some c \<and>
        checked P T kc (integrator_config_seeds (ad_integrator_program_id a)) (ic_bump c) \<and>
        config_at s' kc = Some c' \<and>
        ic_integrator_program_id c' = ic_integrator_program_id c \<and>
        ic_adapter_infos c' = ic_adapter_infos c @ [ad_adapter_program_id a] \<and>
        unat (ad_index a) = length (ic_adapter_infos c))"
  using assms(1)
proof cases
  case (adapter_added kc c I ka A b)
  show ?thesis
  proof (cases "k = ka")
    case True
    then have a: "a = \<lparr>ad_bump = b, ad_integrator_program_id = I, ad_adapter_program_id = A,
        ad_index = of_nat (length (ic_adapter_infos c))\<rparr>"
      using assms(2) unfolding adapter_added(1) by (simp add: read_simps)
    have "config_at s' kc = Some (c\<lparr>ic_adapter_infos := ic_adapter_infos c @ [A]\<rparr>)"
      using adapter_added(8) unfolding adapter_added(1) by (simp add: read_simps)
    moreover have "unat (ad_index a) = length (ic_adapter_infos c)"
      using adapter_added(5) by (simp add: a unat_of_nat)
    ultimately show ?thesis
      using adapter_added(2,3)
      by (intro disjI2 exI [of _ kc] exI [of _ c] conjI
          exI [of _ "c\<lparr>ic_adapter_infos := ic_adapter_infos c @ [A]\<rparr>"]) (simp_all add: a)
  next
    case False
    then show ?thesis
      using assms(2) unfolding adapter_added(1) by (simp add: read_simps split: if_splits)
  qed
qed (use assms(2) in \<open>simp_all add: read_simps split: if_splits\<close>)

lemma effect_config:
  assumes "effect P T s s'" "config_at s' k = Some c'"
  shows "ic_adapter_infos c' = [] \<or>
     (\<exists>c. config_at s k = Some c \<and>
        ic_integrator_program_id c' = ic_integrator_program_id c \<and>
        (ic_adapter_infos c' = ic_adapter_infos c \<or>
         (\<exists>ka a. ic_adapter_infos c' = ic_adapter_infos c @ [ad_adapter_program_id a] \<and>
            checked P T k (integrator_config_seeds (ad_integrator_program_id a)) (ic_bump c) \<and>
            adapter_info_at s' ka = Some a \<and>
            unat (ad_index a) = length (ic_adapter_infos c))))"
  using assms(1)
proof cases
  case (registered kc I cb kt tb adm)
  then have "config_at s k = Some c' \<or> ic_adapter_infos c' = []"
    using assms(2) by (auto simp: read_simps split: if_splits)
  then show ?thesis by blast
next
  case (adapter_added kc c I ka A b)
  let ?a = "\<lparr>ad_bump = b, ad_integrator_program_id = I, ad_adapter_program_id = A,
        ad_index = of_nat (length (ic_adapter_infos c))\<rparr>"
  show ?thesis
  proof (cases "k = kc")
    case True
    have "c' = c\<lparr>ic_adapter_infos := ic_adapter_infos c @ [A]\<rparr>"
      using assms(2) adapter_added(8) True unfolding adapter_added(1) by (simp add: read_simps)
    moreover have "adapter_info_at s' ka = Some ?a"
      unfolding adapter_added(1) by (simp add: read_simps)
    ultimately show ?thesis
      using adapter_added(2,3,5) True
      by (intro disjI2 exI [of _ c] conjI exI [of _ ka] exI [of _ ?a]) (simp_all add: unat_of_nat)
  next
    case False
    then show ?thesis
      using assms(2) unfolding adapter_added(1) by (simp add: read_simps split: if_splits)
  qed
qed (use assms(2) in \<open>simp_all add: read_simps split: if_splits\<close>)

text \<open>A bit of a chain's bitmaps was there before, or is the index of the instruction's adapter.\<close>

definition chain_bits :: "integrator_chain_config \<Rightarrow> nat set" where
  "chain_bits cc =
     adapters_of (cc_send_adapter_bitmap cc) \<union> adapters_of (cc_recv_adapter_bitmap cc)"

lemma effect_chain_config:
  assumes "effect P T s s'" "chain_config_at s' k = Some cc'" "i \<in> chain_bits cc'"
  shows "(\<exists>cc. chain_config_at s k = Some cc \<and>
        cc_integrator_program_id cc' = cc_integrator_program_id cc \<and> i \<in> chain_bits cc) \<or>
     (\<exists>ka a I A ch b. adapter_info_at s ka = Some a \<and>
        checked P T ka (adapter_info_seeds I A) (ad_bump a) \<and>
        derived P T k (integrator_chain_config_seeds I ch) b \<and>
        derived P T k (integrator_chain_config_seeds (cc_integrator_program_id cc')
          (cc_chain_id cc')) (cc_bump cc') \<and> i = unat (ad_index a))"
  using assms(1)
proof cases
  case (chain_changed kc c I ka a A kk ch b cc cc1 e)
  show ?thesis
  proof (cases "k = kk")
    case True
    then have cc': "cc' = cc1"
      using assms(2) unfolding chain_changed(1) by (simp add: read_simps)
    have "i \<in> chain_bits cc \<or> i = unat (ad_index a)"
      using assms(3) chain_changed(12,13) unfolding cc' chain_bits_def by blast
    then show ?thesis
    proof
      assume "i \<in> chain_bits cc"
      then have "chain_config_at s k = Some cc"
        using chain_changed(8) True by (auto simp: chain_opened_def chain_bits_def)
      then show ?thesis
        using \<open>i \<in> chain_bits cc\<close> chain_changed(11) cc' by blast
    next
      assume "i = unat (ad_index a)"
      then show ?thesis
        using chain_changed(4-7,9-11) True cc' by (intro disjI2) (metis (no_types))
    qed
  next
    case False
    then show ?thesis
      using assms(2,3) unfolding chain_changed(1) by (simp add: read_simps)
  qed
qed (use assms(2,3) in \<open>simp_all add: read_simps split: if_splits\<close>)

lemma effect_outbox:
  assumes "effect P T s s'" "outbox_at s' k = Some m'"
  shows "(\<exists>m. outbox_at s k = Some m \<and> ob_src_addr m' = ob_src_addr m \<and>
        ob_sequence m' = ob_sequence m \<and>
        adapters_of (ob_outstanding_adapters m') \<subseteq> adapters_of (ob_outstanding_adapters m)) \<or>
     (\<exists>kk cc I ch kt t t'. chain_config_at s kk = Some cc \<and>
        checked P T kk (integrator_chain_config_seeds I ch) (cc_bump cc) \<and>
        tracker_at s kt = Some t \<and> checked P T kt (sequence_tracker_seeds I) (st_bump t) \<and>
        tracker_at s' kt = Some t' \<and> st_integrator_program_id t' = st_integrator_program_id t \<and>
        st_sequence t < st_sequence t' \<and> ob_src_addr m' = from_pubkey I \<and>
        ob_sequence m' = st_sequence t \<and>
        ob_outstanding_adapters m' = cc_send_adapter_bitmap cc \<and>
        (\<forall>l\<noteq>k. outbox_at s' l = outbox_at s l))"
  using assms(1)
proof cases
  case (message_sent kk cc I ch kt t ko q dst h payer)
  show ?thesis
  proof (cases "k = ko")
    case True
    let ?t = "t\<lparr>st_sequence := q\<rparr>"
    have m': "m' = \<lparr>ob_src_addr = from_pubkey I, ob_sequence = st_sequence t,
        ob_dst_chain = ch, ob_dst_addr = dst, ob_payload_hash = h,
        ob_outstanding_adapters = cc_send_adapter_bitmap cc, ob_refund_recipient = payer\<rparr>"
      using assms(2) True unfolding message_sent(1) by (simp add: read_simps)
    have "tracker_at s' kt = Some ?t"
      using message_sent(7) unfolding message_sent(1) by (simp add: read_simps)
    moreover have "\<forall>l\<noteq>k. outbox_at s' l = outbox_at s l"
      using message_sent(4) True unfolding message_sent(1)
      by (auto simp: read_simps outbox.read_eq_view view_Some_read)
    moreover have "st_sequence t < st_sequence ?t"
      using message_sent(9) by (simp add: word_less_nat_alt)
    ultimately show ?thesis
      using message_sent(2-5)
      by (intro disjI2 exI [of _ kk] exI [of _ cc] exI [of _ I] exI [of _ ch] exI [of _ kt]
          exI [of _ t] exI [of _ ?t] conjI) (simp_all add: m')
  next
    case False
    then show ?thesis
      using assms(2) unfolding message_sent(1) by (simp add: read_simps split: if_splits)
  qed
next
  case (picked_up ko m bm e)
  then show ?thesis
    using assms(2) by (cases "k = ko") (auto simp: read_simps)
qed (use assms(2) in \<open>simp_all add: read_simps split: if_splits\<close>)

section \<open>What an effect keeps\<close>

lemma keepsD:
  "keeps s s' k \<Longrightarrow> view s k = Some d \<Longrightarrow> \<not> is_outbox d \<Longrightarrow>
   \<exists>d'. view s' k = Some d' \<and> evolves d d'"
  by (auto simp: keeps_def)

fun_cases evolves_configE: "evolves (Integrator_Config_Data c) d"
fun_cases evolves_adapterE: "evolves (Adapter_Info_Data a) d"
fun_cases evolves_trackerE: "evolves (Sequence_Tracker_Data t) d"
fun_cases evolves_attestationE: "evolves (Attestation_Info_Data i) d"

lemma keeps_configD:
  assumes "keeps s s' k" "config_at s k = Some c"
  shows "\<exists>c'. config_at s' k = Some c' \<and>
     ic_integrator_program_id c' = ic_integrator_program_id c \<and>
     take (length (ic_adapter_infos c)) (ic_adapter_infos c') = ic_adapter_infos c"
proof -
  obtain d where "view s' k = Some d" "evolves (Integrator_Config_Data c) d"
    using keepsD [OF assms(1) view_Some_read(1) [OF assms(2)]] by auto
  then show ?thesis
    by (elim evolves_configE) (auto simp: config.view_emb_iff)
qed

lemma keeps_adapterD:
  assumes "keeps s s' k" "adapter_info_at s k = Some a"
  shows "adapter_info_at s' k = Some a"
proof -
  obtain d where "view s' k = Some d" "evolves (Adapter_Info_Data a) d"
    using keepsD [OF assms(1) view_Some_read(3) [OF assms(2)]] by auto
  then show ?thesis
    by (elim evolves_adapterE) (auto simp: adapter_account.view_emb_iff)
qed

lemma keeps_trackerD:
  assumes "keeps s s' k" "tracker_at s k = Some t"
  shows "\<exists>t'. tracker_at s' k = Some t' \<and>
     st_integrator_program_id t' = st_integrator_program_id t \<and> st_sequence t \<le> st_sequence t'"
proof -
  obtain d where "view s' k = Some d" "evolves (Sequence_Tracker_Data t) d"
    using keepsD [OF assms(1) view_Some_read(4) [OF assms(2)]] by auto
  then show ?thesis
    by (elim evolves_trackerE) (auto simp: tracker.view_emb_iff, metis sequence_tracker.ext_inject
      sequence_tracker.surjective sequence_tracker.update_convs(3))
qed

lemma keeps_has_adapters:
  assumes "\<And>k. keeps s s' k" "has_adapters s I n"
  shows "has_adapters s' I n"
proof -
  obtain k c where "config_at s k = Some c" "ic_integrator_program_id c = I"
    "n \<le> length (ic_adapter_infos c)"
    using assms(2) by (auto simp: has_adapters_def)
  with keeps_configD [OF assms(1), of k c] show ?thesis
    unfolding has_adapters_def by (metis length_take min.cobounded1 order.trans min.commute)
qed

lemma keeps_used_sequence:
  assumes "\<And>k. keeps s s' k" "used_sequence s I q"
  shows "used_sequence s' I q"
proof -
  obtain k t where "tracker_at s k = Some t" "st_integrator_program_id t = I" "q < st_sequence t"
    using assms(2) by (auto simp: used_sequence_def)
  with keeps_trackerD [OF assms(1), of k t] show ?thesis
    unfolding used_sequence_def by (metis order.strict_trans2)
qed

section \<open>The invariants are kept\<close>

context deployment
begin

lemma adapters_listed_effect:
  assumes wf: "wf_ledger P T s" and eff: "effect P T s s'" and ok: "adapters_listed s"
  shows "adapters_listed s'"
  unfolding adapters_listed_def
proof (intro allI impI)
  fix k a assume "adapter_info_at s' k = Some a"
  from effect_adapter_info [OF eff this]
  consider (old) "adapter_info_at s k = Some a"
    | (new) kc c c' where "config_at s kc = Some c"
      "checked P T kc (integrator_config_seeds (ad_integrator_program_id a)) (ic_bump c)"
      "config_at s' kc = Some c'" "ic_integrator_program_id c' = ic_integrator_program_id c"
      "ic_adapter_infos c' = ic_adapter_infos c @ [ad_adapter_program_id a]"
      "unat (ad_index a) = length (ic_adapter_infos c)"
    by blast
  then show "\<exists>kc c. config_at s' kc = Some c \<and>
        ic_integrator_program_id c = ad_integrator_program_id a \<and>
        unat (ad_index a) < length (ic_adapter_infos c) \<and>
        ic_adapter_infos c ! unat (ad_index a) = ad_adapter_program_id a"
  proof cases
    case old
    with ok obtain kc c where c: "config_at s kc = Some c"
      "ic_integrator_program_id c = ad_integrator_program_id a"
      "unat (ad_index a) < length (ic_adapter_infos c)"
      "ic_adapter_infos c ! unat (ad_index a) = ad_adapter_program_id a"
      unfolding adapters_listed_def by blast
    from keeps_configD [OF effect_keeps [OF eff] c(1)] obtain c' where c':
      "config_at s' kc = Some c'" "ic_integrator_program_id c' = ic_integrator_program_id c"
      "take (length (ic_adapter_infos c)) (ic_adapter_infos c') = ic_adapter_infos c"
      by blast
    have "length (ic_adapter_infos c) \<le> length (ic_adapter_infos c')"
      using c'(3) by (metis length_take min.cobounded1)
    moreover have "ic_adapter_infos c' ! unat (ad_index a) = ad_adapter_program_id a"
      using c(3,4) c'(3) by (metis nth_take)
    ultimately show ?thesis
      using c c' by (metis order.strict_trans2)
  next
    case new
    then show ?thesis
      using checked_config [OF wf new(1,2)] by (intro exI [of _ kc] exI [of _ c']) simp
  qed
qed

lemma adapters_backed_effect:
  assumes wf: "wf_ledger P T s" and eff: "effect P T s s'" and ok: "adapters_backed s"
  shows "adapters_backed s'"
  unfolding adapters_backed_def
proof (intro allI impI, elim conjE)
  fix k c' i assume c': "config_at s' k = Some c'" and i: "i < length (ic_adapter_infos c')"
  let ?goal = "\<exists>ka a. adapter_info_at s' ka = Some a \<and>
        ad_integrator_program_id a = ic_integrator_program_id c' \<and>
        ad_adapter_program_id a = ic_adapter_infos c' ! i \<and> unat (ad_index a) = i"
  from effect_config [OF eff c'] i obtain c where c: "config_at s k = Some c"
    "ic_integrator_program_id c' = ic_integrator_program_id c"
    and grow: "ic_adapter_infos c' = ic_adapter_infos c \<or>
         (\<exists>ka a. ic_adapter_infos c' = ic_adapter_infos c @ [ad_adapter_program_id a] \<and>
            checked P T k (integrator_config_seeds (ad_integrator_program_id a)) (ic_bump c) \<and>
            adapter_info_at s' ka = Some a \<and>
            unat (ad_index a) = length (ic_adapter_infos c))"
    by auto
  have old: ?goal if "i < length (ic_adapter_infos c)"
  proof -
    from ok c(1) that obtain ka a where a: "adapter_info_at s ka = Some a"
      "ad_integrator_program_id a = ic_integrator_program_id c"
      "ad_adapter_program_id a = ic_adapter_infos c ! i" "unat (ad_index a) = i"
      unfolding adapters_backed_def by blast
    have "ic_adapter_infos c' ! i = ic_adapter_infos c ! i"
      using grow that by (auto simp: nth_append)
    with a c(2) keeps_adapterD [OF effect_keeps [OF eff] a(1)] show ?thesis by metis
  qed
  show ?goal
  proof (cases "i < length (ic_adapter_infos c)")
    case False
    with grow i obtain ka a where a:
      "ic_adapter_infos c' = ic_adapter_infos c @ [ad_adapter_program_id a]"
      "checked P T k (integrator_config_seeds (ad_integrator_program_id a)) (ic_bump c)"
      "adapter_info_at s' ka = Some a" "unat (ad_index a) = length (ic_adapter_infos c)"
      by auto
    moreover have "i = length (ic_adapter_infos c)"
      using False i a(1) by simp
    ultimately show ?thesis
      using checked_config [OF wf c(1) a(2)] c(2)
      by (intro exI [of _ ka] exI [of _ a]) simp
  qed (rule old)
qed

lemma chains_bounded_effect:
  assumes wf: "wf_ledger P T s" and eff: "effect P T s s'"
    and listed: "adapters_listed s" and ok: "chains_bounded s"
  shows "chains_bounded s'"
  unfolding chains_bounded_def
proof (intro allI impI, elim conjE)
  fix k cc' i assume cc': "chain_config_at s' k = Some cc'"
    and "i \<in> adapters_of (cc_send_adapter_bitmap cc') \<or> i \<in> adapters_of (cc_recv_adapter_bitmap cc')"
  then have "i \<in> chain_bits cc'" by (simp add: chain_bits_def)
  from effect_chain_config [OF eff cc' this]
  have "has_adapters s (cc_integrator_program_id cc') (Suc i)"
  proof (elim disjE exE conjE)
    fix cc assume "chain_config_at s k = Some cc" "i \<in> chain_bits cc"
      "cc_integrator_program_id cc' = cc_integrator_program_id cc"
    then show ?thesis
      using ok by (auto simp: chains_bounded_def chain_bits_def)
  next
    fix ka a I A ch b assume a: "adapter_info_at s ka = Some a"
      "checked P T ka (adapter_info_seeds I A) (ad_bump a)" "i = unat (ad_index a)"
      and k: "derived P T k (integrator_chain_config_seeds I ch) b"
        "derived P T k (integrator_chain_config_seeds (cc_integrator_program_id cc')
          (cc_chain_id cc')) (cc_bump cc')"
    have "cc_integrator_program_id cc' = I"
      using derived_unique [OF k(2) derived_checked [OF k(1)]] by simp
    moreover have "ad_integrator_program_id a = I"
      using checked_adapter [OF wf a(1,2)] by simp
    ultimately show ?thesis
      using listed a(1,3) unfolding adapters_listed_def has_adapters_def by (metis Suc_leI)
  qed
  then show "has_adapters s' (cc_integrator_program_id cc') (Suc i)"
    by (rule keeps_has_adapters [OF effect_keeps [OF eff]])
qed

lemma outbox_bounded_effect:
  assumes wf: "wf_ledger P T s" and eff: "effect P T s s'"
    and chains: "chains_bounded s" and ok: "outbox_bounded s"
  shows "outbox_bounded s'"
  unfolding outbox_bounded_def
proof (intro allI impI, elim conjE)
  fix k m' i assume m': "outbox_at s' k = Some m'"
    and i: "i \<in> adapters_of (ob_outstanding_adapters m')"
  from effect_outbox [OF eff m']
  have "has_adapters s (to_pubkey (ob_src_addr m')) (Suc i)"
  proof (elim disjE exE conjE)
    fix m assume "outbox_at s k = Some m" "ob_src_addr m' = ob_src_addr m"
      "adapters_of (ob_outstanding_adapters m') \<subseteq> adapters_of (ob_outstanding_adapters m)"
    then show ?thesis using ok i by (auto simp: outbox_bounded_def)
  next
    fix kk cc I ch assume cc: "chain_config_at s kk = Some cc"
      "checked P T kk (integrator_chain_config_seeds I ch) (cc_bump cc)"
      "ob_src_addr m' = from_pubkey I" "ob_outstanding_adapters m' = cc_send_adapter_bitmap cc"
    have "cc_integrator_program_id cc = I"
      using checked_chain [OF wf cc(1,2)] by simp
    then show ?thesis using chains cc i by (auto simp: chains_bounded_def)
  qed
  then show "has_adapters s' (to_pubkey (ob_src_addr m')) (Suc i)"
    by (rule keeps_has_adapters [OF effect_keeps [OF eff]])
qed

text \<open>A new message takes the number the tracker shows; every older message has a smaller one.\<close>

lemma used_sequence_less:
  assumes "wf_ledger P T s" "used_sequence s I q" "tracker_at s k = Some t"
    "st_integrator_program_id t = I"
  shows "q < st_sequence t"
proof -
  obtain l u where "tracker_at s l = Some u" "st_integrator_program_id u = I" "q < st_sequence u"
    using assms(2) by (auto simp: used_sequence_def)
  with tracker_key_unique [OF assms(1,3)] assms(3,4) show ?thesis
    by (metis option.inject)
qed

text \<open>A message that is sent gets a number no message in the outbox has.\<close>

lemma new_sequence_unused:
  assumes "wf_ledger P T s" "sequences_ok s" "outbox_at s k = Some m"
    and "tracker_at s kt = Some t" "checked P T kt (sequence_tracker_seeds I) (st_bump t)"
  shows "ob_src_addr m \<noteq> from_pubkey I \<or> ob_sequence m \<noteq> st_sequence t"
proof (rule ccontr)
  assume "\<not> (ob_src_addr m \<noteq> from_pubkey I \<or> ob_sequence m \<noteq> st_sequence t)"
  then have "used_sequence s I (st_sequence t)"
    using assms(2,3) unfolding sequences_ok_def by (metis to_pubkey_from_pubkey)
  then have "st_sequence t < st_sequence t"
    by (rule used_sequence_less [OF assms(1) _ assms(4) checked_tracker [OF assms(1,4,5)]])
  then show False by simp
qed

text \<open>Of two messages with the same source and number, neither was just sent.\<close>

lemma clash_is_old:
  assumes "wf_ledger P T s" "effect P T s s'" "sequences_ok s"
    and "outbox_at s' k = Some m'" "outbox_at s' l = Some n'" "k \<noteq> l"
    and "ob_src_addr m' = ob_src_addr n'" "ob_sequence m' = ob_sequence n'"
  shows "\<exists>m. outbox_at s k = Some m \<and> ob_src_addr m' = ob_src_addr m \<and> ob_sequence m' = ob_sequence m"
  using effect_outbox [OF assms(2,4)]
proof (elim disjE exE conjE)
  fix I kt t assume t: "tracker_at s kt = Some t"
    "checked P T kt (sequence_tracker_seeds I) (st_bump t)" "ob_src_addr m' = from_pubkey I"
    "ob_sequence m' = st_sequence t" and "\<forall>l\<noteq>k. outbox_at s' l = outbox_at s l"
  then have "outbox_at s l = Some n'" using assms(5,6) by metis
  from new_sequence_unused [OF assms(1,3) this t(1,2)] assms(7,8) t(3,4) show ?thesis by simp
qed blast

lemma sequences_used_effect:
  assumes "wf_ledger P T s" "effect P T s s'" "sequences_ok s" "outbox_at s' k = Some m'"
  shows "used_sequence s' (to_pubkey (ob_src_addr m')) (ob_sequence m')"
  using effect_outbox [OF assms(2,4)]
proof (elim disjE exE conjE)
  fix m assume "outbox_at s k = Some m" "ob_src_addr m' = ob_src_addr m"
    "ob_sequence m' = ob_sequence m"
  then have "used_sequence s (to_pubkey (ob_src_addr m')) (ob_sequence m')"
    using assms(3) by (simp add: sequences_ok_def)
  then show ?thesis
    by (rule keeps_used_sequence [OF effect_keeps [OF assms(2)]])
next
  fix I kt t t' assume t: "tracker_at s kt = Some t"
    "checked P T kt (sequence_tracker_seeds I) (st_bump t)" "tracker_at s' kt = Some t'"
    "st_integrator_program_id t' = st_integrator_program_id t"
    "st_sequence t < st_sequence t'" "ob_src_addr m' = from_pubkey I"
    "ob_sequence m' = st_sequence t"
  with checked_tracker [OF assms(1) t(1,2)] show ?thesis
    by (auto simp: used_sequence_def)
qed

lemma sequences_ok_effect:
  assumes wf: "wf_ledger P T s" and eff: "effect P T s s'" and ok: "sequences_ok s"
  shows "sequences_ok s'"
  unfolding sequences_ok_def
proof (intro conjI allI impI)
  fix k m' assume "outbox_at s' k = Some m'"
  then show "used_sequence s' (to_pubkey (ob_src_addr m')) (ob_sequence m')"
    by (rule sequences_used_effect [OF assms])
next
  fix k l m' n' assume mn: "outbox_at s' k = Some m' \<and> outbox_at s' l = Some n' \<and>
    ob_src_addr m' = ob_src_addr n' \<and> ob_sequence m' = ob_sequence n'"
  show "k = l"
  proof (rule ccontr)
    assume "k \<noteq> l"
    then obtain m n where m: "outbox_at s k = Some m" "ob_src_addr m' = ob_src_addr m"
        "ob_sequence m' = ob_sequence m"
      and n: "outbox_at s l = Some n" "ob_src_addr n' = ob_src_addr n"
        "ob_sequence n' = ob_sequence n"
      using clash_is_old [OF assms, of k m' l n'] clash_is_old [OF assms, of l n' k m'] mn by metis
    then have "ob_src_addr m = ob_src_addr n" "ob_sequence m = ob_sequence n"
      using mn by simp_all
    then have "k = l"
      using ok m(1) n(1) unfolding sequences_ok_def by blast
    then show False using \<open>k \<noteq> l\<close> by contradiction
  qed
qed

lemma sent_once_effect:
  assumes wf: "wf_ledger P T s" and eff: "effect P T s s'" and ok: "sent_once s"
  shows "sent_once s'"
proof -
  have keep: "\<exists>k t. tracker_at s' k = Some t \<and> st_integrator_program_id t = to_pubkey a \<and>
      q \<le> st_sequence t" if "(a, q) \<in> set (sent_ids (events s))" for a q
  proof -
    obtain k t where "tracker_at s k = Some t" "st_integrator_program_id t = to_pubkey a"
      "q \<le> st_sequence t"
      using ok \<open>(a, q) \<in> _\<close> unfolding sent_once_def by blast
    with keeps_trackerD [OF effect_keeps [OF eff], of k t] show ?thesis
      by (metis order.trans)
  qed
  have same: ?thesis if "sent_ids (events s') = sent_ids (events s)"
    using ok keep that by (simp add: sent_once_def)
  show ?thesis
    using eff
  proof cases
    case (message_sent kk cc I ch kt t ko q dst h payer)
    have I: "st_integrator_program_id t = I"
      by (rule checked_tracker [OF wf message_sent(4,5)])
    have "q' < q" if prev: "(from_pubkey I, q') \<in> set (sent_ids (events s))" for q'
    proof -
      obtain l u where u: "tracker_at s l = Some u" "st_integrator_program_id u = I"
        "q' \<le> st_sequence u"
        using ok prev unfolding sent_once_def by (metis to_pubkey_from_pubkey)
      with tracker_key_unique [OF wf u(1) message_sent(4)] I have "u = t"
        by (metis message_sent(4) option.inject)
      with u(3) message_sent(9) show ?thesis
        by (simp add: word_le_nat_alt word_less_nat_alt)
    qed
    then have "(from_pubkey I, q) \<notin> set (sent_ids (events s))" by blast
    moreover have ids: "sent_ids (events s') = sent_ids (events s) @ [(from_pubkey I, q)]"
      unfolding message_sent(1) by simp
    moreover have "tracker_at s' kt = Some (t\<lparr>st_sequence := q\<rparr>)"
      using message_sent(7) unfolding message_sent(1) by (simp add: read_simps)
    ultimately show ?thesis
      using ok keep I unfolding sent_once_def ids by fastforce
  qed (rule same, simp add: neutral_def)+
qed

end

section \<open>Reachable ledgers\<close>

definition registry_ok :: "ledger \<Rightarrow> bool" where
  "registry_ok s \<longleftrightarrow> adapters_listed s \<and> adapters_backed s \<and> chains_bounded s \<and>
     outbox_bounded s \<and> sequences_ok s \<and> sent_once s"

lemma registry_ok_outside:
  assumes "outside_step s s'" "registry_ok s"
  shows "registry_ok s'"
proof -
  have same_events: "events s' = events s"
    using assms(1) by (simp add: outside_step_def)
  show ?thesis
    using assms(2) unfolding registry_ok_def adapters_listed_def adapters_backed_def
      chains_bounded_def outbox_bounded_def sequences_ok_def sent_once_def has_adapters_def
      used_sequence_def config.read_outside [OF assms(1)] chain_config.read_outside [OF assms(1)]
      adapter_account.read_outside [OF assms(1)] tracker.read_outside [OF assms(1)]
      outbox.read_outside [OF assms(1)] same_events .
qed

lemma registry_ok_initial:
  assumes "initial s"
  shows "registry_ok s"
proof -
  have "config_at s k = None" "chain_config_at s k = None" "adapter_info_at s k = None"
    "outbox_at s k = None" "events s = []" for k
    using assms by (simp_all add: initial_def config.read_eq_view chain_config.read_eq_view
        adapter_account.read_eq_view outbox.read_eq_view)
  then show ?thesis
    by (simp add: registry_ok_def adapters_listed_def adapters_backed_def chains_bounded_def
      outbox_bounded_def sequences_ok_def sent_once_def)
qed

context deployment
begin

lemma reachable_registry: "reachable P T s \<Longrightarrow> registry_ok s"
proof (induction rule: reachable.induct)
  case (reachable_initial s)
  then show ?case by (rule registry_ok_initial)
next
  case (reachable_step s s')
  have wf: "wf_ledger P T s"
    using reachable_wf [OF bitmaps_crate_axioms reachable_step.hyps(1)] .
  from step_effect [OF bitmaps_crate_axioms wf reachable_step.hyps(2)]
  show ?case
  proof
    assume eff: "effect P T s s'"
    then show ?thesis
      using reachable_step.IH adapters_listed_effect [OF wf eff] adapters_backed_effect [OF wf eff]
        chains_bounded_effect [OF wf eff] outbox_bounded_effect [OF wf eff]
        sequences_ok_effect [OF wf eff] sent_once_effect [OF wf eff]
      unfolding registry_ok_def by blast
  next
    assume "outside_step s s'"
    then show ?thesis using reachable_step.IH by (rule registry_ok_outside)
  qed
qed

text \<open>An adapter is listed once: its index is determined by its AdapterInfo account.\<close>

lemma backed_distinct_adapters:
  assumes wf: "wf_ledger P T s" and backed: "adapters_backed s" and c: "config_at s k = Some c"
  shows "distinct (ic_adapter_infos c)"
  unfolding distinct_conv_nth
proof (intro allI impI notI)
  fix i j assume ij: "i < length (ic_adapter_infos c)" "j < length (ic_adapter_infos c)" "i \<noteq> j"
    "ic_adapter_infos c ! i = ic_adapter_infos c ! j"
  obtain ka a where a: "adapter_info_at s ka = Some a"
    "ad_integrator_program_id a = ic_integrator_program_id c"
    "ad_adapter_program_id a = ic_adapter_infos c ! i" "unat (ad_index a) = i"
    using backed c ij(1) unfolding adapters_backed_def by blast
  obtain kb b where b: "adapter_info_at s kb = Some b"
    "ad_integrator_program_id b = ic_integrator_program_id c"
    "ad_adapter_program_id b = ic_adapter_infos c ! j" "unat (ad_index b) = j"
    using backed c ij(2) unfolding adapters_backed_def by blast
  have "ka = kb"
    using adapter_key_unique [OF wf a(1) b(1)] a b ij(4) by simp
  then show False using a b ij(3) by simp
qed

lemma reachable_distinct_adapters:
  assumes "reachable P T s" "config_at s k = Some c"
  shows "distinct (ic_adapter_infos c)"
  using backed_distinct_adapters [OF reachable_wf [OF bitmaps_crate_axioms assms(1)] _ assms(2)]
    reachable_registry [OF assms(1)] by (simp add: registry_ok_def)

end

end
