(* ===== verification/Scenario.thy ===== *)
theory Scenario
  imports Registry
begin

text \<open>
  A concrete run on the concrete platform: an integrator registers, adds two adapters, enables
  both for sending to and receiving from chain 2, sends a message that both pick up, and gets
  one attested and received. The theorems of the development are applied to its ledgers.
\<close>

definition address :: "u8 \<Rightarrow> pubkey" where
  "address n = Pubkey (pad32 [n, n, n])"

definition the_integrator :: pubkey where "the_integrator = address 1"
definition the_admin :: pubkey where "the_admin = address 2"
definition adapter_a :: pubkey where "adapter_a = address 3"
definition adapter_b :: pubkey where "adapter_b = address 4"
definition the_payer :: pubkey where "the_payer = address 5"
definition the_outbox :: pubkey where "the_outbox = address 6"
definition next_admin :: pubkey where "next_admin = address 7"
definition the_peer :: universal_address where "the_peer = from_pubkey (address 8)"
definition the_payload :: bytes32 where "the_payload = repeat32 9"

definition writable_signer :: "pubkey \<Rightarrow> account_meta" where
  "writable_signer k = \<lparr>key = k, is_signer = True, is_writable = True\<rparr>"

definition writable :: "pubkey \<Rightarrow> account_meta" where
  "writable k = \<lparr>key = k, is_signer = False, is_writable = True\<rparr>"

definition config_key :: pubkey where
  "config_key = fst (integrator_config_pda sample_platform the_integrator)"
definition tracker_key :: pubkey where
  "tracker_key = fst (sequence_tracker_pda sample_platform the_integrator)"
definition adapter_key :: "pubkey \<Rightarrow> pubkey" where
  "adapter_key a = fst (adapter_info_pda sample_platform the_integrator a)"
definition chain_key :: pubkey where
  "chain_key = fst (integrator_chain_config_pda sample_platform the_integrator 2)"
definition integrator_signer :: pubkey where
  "integrator_signer =
     fst (find_program_address sample_platform integrator_pda_seeds the_integrator)"
definition adapter_signer :: "pubkey \<Rightarrow> pubkey" where
  "adapter_signer a = fst (find_program_address sample_platform adapter_pda_seeds a)"

definition reg_accounts :: register_accounts where
  "reg_accounts =
     \<lparr>rg_payer = writable_signer the_payer, rg_integrator_config = writable config_key,
      rg_sequence_tracker = writable tracker_key,
      rg_integrator_program_pda = writable_signer integrator_signer,
      rg_system_program = writable system_program_id,
      rg_event_authority = writable (event_authority sample_platform),
      rg_program = writable endpoint_id\<rparr>"

definition reg_args :: register_args where
  "reg_args = \<lparr>ra_integrator_program_id = the_integrator, ra_integrator_program_pda_bump = 255,
      ra_admin = the_admin\<rparr>"

definition add_accounts :: "pubkey \<Rightarrow> add_adapter_accounts" where
  "add_accounts a = \<lparr>aa_payer = writable_signer the_payer, aa_admin = writable_signer the_admin,
      aa_integrator_config = writable config_key, aa_adapter_info = writable (adapter_key a),
      aa_system_program = writable system_program_id,
      aa_event_authority = writable (event_authority sample_platform),
      aa_program = writable endpoint_id\<rparr>"

definition add_args :: "pubkey \<Rightarrow> add_adapter_args" where
  "add_args a = \<lparr>aa_integrator_program_id = the_integrator, aa_adapter_program_id = a\<rparr>"

definition enable_accounts :: "pubkey \<Rightarrow> enable_adapter_accounts" where
  "enable_accounts a = \<lparr>en_payer = writable_signer the_payer, en_admin = writable_signer the_admin,
      en_integrator_config = writable config_key,
      en_integrator_chain_config = writable chain_key,
      en_adapter_info = writable (adapter_key a),
      en_system_program = writable system_program_id,
      en_event_authority = writable (event_authority sample_platform),
      en_program = writable endpoint_id\<rparr>"

definition disable_accounts :: "pubkey \<Rightarrow> disable_adapter_accounts" where
  "disable_accounts a = \<lparr>ds_admin = writable_signer the_admin,
      ds_integrator_config = writable config_key,
      ds_integrator_chain_config = writable chain_key,
      ds_adapter_info = writable (adapter_key a),
      ds_event_authority = writable (event_authority sample_platform),
      ds_program = writable endpoint_id\<rparr>"

definition chain_args :: "pubkey \<Rightarrow> adapter_info_args" where
  "chain_args a = \<lparr>aia_chain_id = 2, aia_adapter_program_id = a,
      aia_integrator_program_id = the_integrator\<rparr>"

definition send_accounts :: send_message_accounts where
  "send_accounts = \<lparr>sm_payer = writable_signer the_payer,
      sm_integrator_program_pda = writable_signer integrator_signer,
      sm_integrator_chain_config = writable chain_key, sm_sequence_tracker = writable tracker_key,
      sm_outbox_message = writable_signer the_outbox,
      sm_system_program = writable system_program_id,
      sm_event_authority = writable (event_authority sample_platform),
      sm_program = writable endpoint_id\<rparr>"

definition send_args :: send_message_args where
  "send_args = \<lparr>sm_integrator_program_id = the_integrator, sm_integrator_program_pda_bump = 255,
      sm_dst_chain = 2, sm_dst_addr = the_peer, sm_payload_hash = the_payload\<rparr>"

definition pick_up_accounts :: "pubkey \<Rightarrow> pick_up_message_accounts" where
  "pick_up_accounts a = \<lparr>pu_outbox_message = writable the_outbox,
      pu_adapter_info = writable (adapter_key a),
      pu_adapter_pda = writable_signer (adapter_signer a),
      pu_refund_recipient = writable the_payer,
      pu_system_program = writable system_program_id,
      pu_event_authority = writable (event_authority sample_platform),
      pu_program = writable endpoint_id\<rparr>"

definition pick_up_args :: "pubkey \<Rightarrow> pick_up_message_args" where
  "pick_up_args a = \<lparr>pu_adapter_program_id = a, pu_adapter_pda_bump = 255\<rparr>"

definition attest_args :: "pubkey \<Rightarrow> attest_message_args" where
  "attest_args a = \<lparr>am_adapter_program_id = a, am_adapter_pda_bump = 255, am_src_chain = 2,
      am_src_addr = the_peer, am_sequence = 7, am_dst_chain = CHAIN_ID,
      am_integrator_program_id = the_integrator, am_payload_hash = the_payload\<rparr>"

definition the_hash :: bytes32 where
  "the_hash = am_message_hash sample_platform (attest_args adapter_a)"

definition attestation_key :: pubkey where
  "attestation_key = fst (attestation_info_pda sample_platform the_hash)"

definition attest_accounts :: "pubkey \<Rightarrow> attest_message_accounts" where
  "attest_accounts a = \<lparr>am_payer = writable_signer the_payer,
      am_adapter_info = writable (adapter_key a),
      am_adapter_pda = writable_signer (adapter_signer a),
      am_integrator_chain_config = writable chain_key,
      am_attestation_info = writable attestation_key,
      am_system_program = writable system_program_id,
      am_event_authority = writable (event_authority sample_platform),
      am_program = writable endpoint_id\<rparr>"

definition recv_accounts :: recv_message_accounts where
  "recv_accounts = \<lparr>rm_payer = writable_signer the_payer,
      rm_integrator_program_pda = writable_signer integrator_signer,
      rm_integrator_chain_config = writable chain_key,
      rm_attestation_info = writable attestation_key,
      rm_system_program = writable system_program_id,
      rm_event_authority = writable (event_authority sample_platform),
      rm_program = writable endpoint_id\<rparr>"

definition recv_args :: recv_message_args where
  "recv_args = \<lparr>rm_integrator_program_pda_bump = 255, rm_src_chain = 2,
      rm_src_addr = the_peer, rm_sequence = 7, rm_dst_chain = CHAIN_ID,
      rm_integrator_program_id = the_integrator, rm_payload_hash = the_payload\<rparr>"

definition exec_accounts :: exec_message_accounts where
  "exec_accounts = \<lparr>em_payer = writable_signer the_payer,
      em_integrator_program_pda = writable_signer integrator_signer,
      em_attestation_info = writable attestation_key,
      em_system_program = writable system_program_id,
      em_event_authority = writable (event_authority sample_platform),
      em_program = writable endpoint_id\<rparr>"

definition exec_args :: exec_message_args where
  "exec_args = \<lparr>em_integrator_program_pda_bump = 255, em_src_chain = 2,
      em_src_addr = the_peer, em_sequence = 7, em_dst_chain = CHAIN_ID,
      em_integrator_program_id = the_integrator, em_payload_hash = the_payload\<rparr>"

section \<open>The accounts of the run\<close>

lemma scenario_keys:
  "distinct [config_key, tracker_key, adapter_key adapter_a, adapter_key adapter_b, chain_key,
     the_outbox, attestation_key, the_payer]"
  by code_simp

named_theorems scenario \<open>evaluates the concrete run\<close>

lemma scenario_keys_rev:
  "distinct [the_payer, attestation_key, the_outbox, chain_key, adapter_key adapter_b,
     adapter_key adapter_a, tracker_key, config_key]"
  using scenario_keys by auto

lemmas scenario_keys_distinct [scenario] =
  scenario_keys [simplified] scenario_keys_rev [simplified]

lemma scenario_find [scenario]:
  "integrator_config_pda sample_platform the_integrator = (config_key, 255)"
  "sequence_tracker_pda sample_platform the_integrator = (tracker_key, 255)"
  "adapter_info_pda sample_platform the_integrator a = (adapter_key a, 255)"
  "integrator_chain_config_pda sample_platform the_integrator 2 = (chain_key, 255)"
  "attestation_info_pda sample_platform the_hash = (attestation_key, 255)"
  by (simp_all add: pda_defs config_key_def tracker_key_def adapter_key_def chain_key_def
      attestation_key_def sample_platform_def)

lemma scenario_create [scenario]:
  "create_program_address sample_platform
     (integrator_config_seeds the_integrator @ [[255]]) endpoint_id = Some config_key"
  "create_program_address sample_platform
     (sequence_tracker_seeds the_integrator @ [[255]]) endpoint_id = Some tracker_key"
  "create_program_address sample_platform
     (adapter_info_seeds the_integrator a @ [[255]]) endpoint_id = Some (adapter_key a)"
  "create_program_address sample_platform
     (integrator_chain_config_seeds the_integrator 2 @ [[255]]) endpoint_id = Some chain_key"
  "create_program_address sample_platform
     (attestation_info_seeds the_hash @ [[255]]) endpoint_id = Some attestation_key"
  "create_program_address sample_platform (integrator_pda_seeds @ [[255]]) the_integrator =
     Some integrator_signer"
  "create_program_address sample_platform (adapter_pda_seeds @ [[255]]) a =
     Some (adapter_signer a)"
  by (simp_all add: pda_defs config_key_def tracker_key_def adapter_key_def chain_key_def
      attestation_key_def integrator_signer_def adapter_signer_def sample_platform_def)

lemma scenario_hash_args:
  "am_message_hash sample_platform (attest_args a) = the_hash"
  "rm_message_hash sample_platform recv_args = the_hash"
  "em_message_hash sample_platform exec_args = the_hash"
  by (simp_all add: the_hash_def am_message_hash_def rm_message_hash_def em_message_hash_def
      attest_args_def recv_args_def exec_args_def)

lemmas scenario_hash [scenario] =
  scenario_hash_args [unfolded attest_args_def recv_args_def exec_args_def]
  scenario_hash_args(1) [unfolded am_message_hash_def attest_args_def, simplified]

lemma scenario_chain [scenario]: "CHAIN_ID \<noteq> 0"
  by (simp add: CHAIN_ID_def)

section \<open>The ledgers of the run\<close>

definition the_config :: "pubkey list \<Rightarrow> integrator_config" where
  "the_config as = \<lparr>ic_bump = 255, ic_integrator_program_id = the_integrator,
     ic_admin = Some the_admin, ic_pending_admin = None, ic_adapter_infos = as\<rparr>"

definition the_tracker :: "u64 \<Rightarrow> sequence_tracker" where
  "the_tracker q = \<lparr>st_bump = 255, st_integrator_program_id = the_integrator, st_sequence = q\<rparr>"

definition the_adapter :: "pubkey \<Rightarrow> u8 \<Rightarrow> adapter_info" where
  "the_adapter a i = \<lparr>ad_bump = 255, ad_integrator_program_id = the_integrator,
     ad_adapter_program_id = a, ad_index = i\<rparr>"

definition the_chain :: "u128 \<Rightarrow> u128 \<Rightarrow> integrator_chain_config" where
  "the_chain sends recvs = \<lparr>cc_bump = 255, cc_integrator_program_id = the_integrator,
     cc_chain_id = 2, cc_send_adapter_bitmap = from_value sends,
     cc_recv_adapter_bitmap = from_value recvs\<rparr>"

definition the_message :: "u128 \<Rightarrow> outbox_message" where
  "the_message outstanding = \<lparr>ob_src_addr = from_pubkey the_integrator, ob_sequence = 0,
     ob_dst_chain = 2, ob_dst_addr = the_peer, ob_payload_hash = the_payload,
     ob_outstanding_adapters = from_value outstanding, ob_refund_recipient = the_payer\<rparr>"

definition the_attestation :: "bool \<Rightarrow> u128 \<Rightarrow> attestation_info" where
  "the_attestation exe votes = \<lparr>at_bump = 255, at_message_hash = the_hash, at_src_chain = 2,
     at_src_addr = the_peer, at_sequence = 7, at_dst_chain = CHAIN_ID,
     at_dst_addr = from_pubkey the_integrator, at_payload_hash = the_payload,
     at_executed = exe, at_attested_adapters = from_value votes\<rparr>"

definition ledger_1 :: ledger where
  "ledger_1 = emit_cpi (IntegratorRegistered the_integrator the_admin)
     (store tracker_key (Sequence_Tracker_Data (the_tracker 0))
     (store config_key (Integrator_Config_Data (the_config [])) empty_ledger))"

definition ledger_2 :: ledger where
  "ledger_2 = emit_cpi (AdapterAdded the_integrator adapter_a 0)
     (store (adapter_key adapter_a) (Adapter_Info_Data (the_adapter adapter_a 0))
     (store config_key (Integrator_Config_Data (the_config [adapter_a])) ledger_1))"

definition ledger_3 :: ledger where
  "ledger_3 = emit_cpi (AdapterAdded the_integrator adapter_b 1)
     (store (adapter_key adapter_b) (Adapter_Info_Data (the_adapter adapter_b 1))
     (store config_key (Integrator_Config_Data (the_config [adapter_a, adapter_b])) ledger_2))"

definition ledger_4 :: ledger where
  "ledger_4 = emit_cpi (SendAdapterEnabledForChain the_integrator 2 adapter_a)
     (store chain_key (Chain_Config_Data (the_chain 1 0)) ledger_3)"

definition ledger_5 :: ledger where
  "ledger_5 = emit_cpi (SendAdapterEnabledForChain the_integrator 2 adapter_b)
     (store chain_key (Chain_Config_Data (the_chain 3 0)) ledger_4)"

definition ledger_6 :: ledger where
  "ledger_6 = emit_cpi (RecvAdapterEnabledForChain the_integrator 2 adapter_a)
     (store chain_key (Chain_Config_Data (the_chain 3 1)) ledger_5)"

definition ledger_7 :: ledger where
  "ledger_7 = emit_cpi (MessageSent (from_pubkey the_integrator) 1 the_peer 2 the_payload)
     (store the_outbox (Outbox_Message_Data (the_message 3))
     (store tracker_key (Sequence_Tracker_Data (the_tracker 1)) ledger_6))"

definition ledger_8 :: ledger where
  "ledger_8 = store the_outbox (Outbox_Message_Data (the_message 2))
     (emit_cpi (MessagePickedUp (from_pubkey the_integrator) 0 2 the_peer the_payload adapter_a 2)
       ledger_7)"

definition ledger_9 :: ledger where
  "ledger_9 = close_account the_outbox
     (emit_cpi (MessagePickedUp (from_pubkey the_integrator) 0 2 the_peer the_payload adapter_b 0)
       ledger_8)"

definition ledger_10 :: ledger where
  "ledger_10 = emit_cpi (MessageAttestedTo the_hash 2 the_peer 7 CHAIN_ID
       (from_pubkey the_integrator) the_payload 1 (from_pubkey adapter_a))
     (store attestation_key (Attestation_Info_Data (the_attestation False 1)) ledger_9)"

definition ledger_11 :: ledger where
  "ledger_11 = emit_cpi (MessageReceived the_hash 2 the_peer 7 CHAIN_ID
       (from_pubkey the_integrator) the_payload 1 1)
     (store attestation_key (Attestation_Info_Data (the_attestation True 1)) ledger_10)"

definition hand_over_accounts :: transfer_admin_accounts where
  "hand_over_accounts = \<lparr>tr_admin = writable_signer the_admin,
     tr_integrator_config = writable config_key,
      tr_event_authority = writable (event_authority sample_platform),
      tr_program = writable endpoint_id\<rparr>"

definition hand_over_args :: transfer_admin_args where
  "hand_over_args = \<lparr>ta_new_admin = next_admin, ta_integrator_program_id = the_integrator\<rparr>"

definition handed_over :: ledger where
  "handed_over = emit_cpi (AdminUpdateRequested the_integrator the_admin next_admin)
     (store config_key (Integrator_Config_Data
        ((the_config [adapter_a, adapter_b])\<lparr>ic_pending_admin := Some next_admin\<rparr>)) ledger_3)"

definition renew_accounts :: update_admin_accounts where
  "renew_accounts = \<lparr>up_admin = writable_signer the_admin,
     up_integrator_config = writable config_key,
      up_event_authority = writable (event_authority sample_platform),
      up_program = writable endpoint_id\<rparr>"

definition renew_args :: update_admin_args where
  "renew_args = \<lparr>ua_new_admin = next_admin, ua_integrator_program_id = the_integrator\<rparr>"

definition abandoned :: ledger where
  "abandoned = emit_cpi (AdminDiscarded the_integrator)
     (store config_key (Integrator_Config_Data ((the_config [])\<lparr>ic_admin := None\<rparr>)) ledger_1)"

definition abandon :: instruction where
  "abandon = Discard_Admin \<lparr>di_admin = writable_signer the_admin,
     di_integrator_config = writable config_key,
      di_event_authority = writable (event_authority sample_platform),
      di_program = writable endpoint_id\<rparr>"

lemmas scenario_data [scenario] =
  the_config_def the_tracker_def the_adapter_def the_chain_def the_message_def
  the_attestation_def writable_def writable_signer_def reg_accounts_def reg_args_def add_accounts_def add_args_def
  enable_accounts_def disable_accounts_def chain_args_def send_accounts_def send_args_def
  pick_up_accounts_def pick_up_args_def attest_accounts_def attest_args_def recv_accounts_def
  recv_args_def exec_accounts_def exec_args_def

lemmas scenario_ledgers [scenario] =
  ledger_1_def ledger_2_def ledger_3_def ledger_4_def ledger_5_def ledger_6_def ledger_7_def
  ledger_8_def ledger_9_def ledger_10_def ledger_11_def

lemma empty_ledger_reads [scenario, simp]:
  "read proj empty_ledger k = None" "in_use empty_ledger k = False" "events empty_ledger = []"
  by (simp_all add: empty_ledger_def read_def in_use_def)

lemma scenario_bits [scenario]:
  "bits (1 :: u128) = {0}" "bits (2 :: u128) = {1}" "bits (3 :: u128) = {0, 1}"
proof -
  have "set_bit 0 0 = (1 :: u128)" "set_bit 1 0 = (2 :: u128)"
    "set_bit 0 (set_bit 1 0) = (3 :: u128)"
    by code_simp+
  then show "bits (1 :: u128) = {0}" "bits (2 :: u128) = {1}" "bits (3 :: u128) = {0, 1}"
    using bits_set_bit [of 0 "0 :: u128"] bits_set_bit [of 1 "0 :: u128"]
      bits_set_bit [of 0 "2 :: u128"] by simp_all
qed

lemma scenario_bitmaps [scenario]:
  "bitmap_new = from_value 0" "as_value (from_value v) = v"
  "with_adapter 0 (from_value 0) = from_value 1"
  "with_adapter (Suc 0) (from_value 1) = from_value 3"
  "without_adapter 0 (from_value 3) = from_value 2"
  "without_adapter 0 (from_value 1) = from_value 0"
  "without_adapter (Suc 0) (from_value 2) = from_value 0"
  by (simp_all add: bitmap_new_def from_value_def as_value_def with_adapter_def
      without_adapter_def) code_simp+

lemma run_1: "register sample_platform reg_accounts reg_args empty_ledger = Ok ledger_1"
  by (simp add: register_eq_Ok scenario)

lemma run_2: "add_adapter sample_platform (add_accounts adapter_a) (add_args adapter_a) ledger_1 =
    Ok ledger_2"
  unfolding add_adapter_eq_Ok ledger_2_def
  by (simp add: add_adapter_try_accounts_eq_Ok scenario read_simps)

lemma run_3: "add_adapter sample_platform (add_accounts adapter_b) (add_args adapter_b) ledger_2 =
    Ok ledger_3"
  unfolding add_adapter_eq_Ok ledger_3_def
  by (simp add: add_adapter_try_accounts_eq_Ok scenario read_simps)

lemma run_4: "enable_send_adapter sample_platform (enable_accounts adapter_a)
    (chain_args adapter_a) ledger_3 = Ok ledger_4"
  unfolding send.enable_eq_Ok [OF sample_laws(1)] ledger_4_def
  by (simp add: enable_adapter_try_accounts_eq_Ok initial_chain_config_def zero_chain_config_def
      scenario read_simps)

lemma run_5: "enable_send_adapter sample_platform (enable_accounts adapter_b)
    (chain_args adapter_b) ledger_4 = Ok ledger_5"
  unfolding send.enable_eq_Ok [OF sample_laws(1)] ledger_5_def
  by (simp add: enable_adapter_try_accounts_eq_Ok initial_chain_config_def scenario read_simps)

lemma run_6: "enable_recv_adapter sample_platform (enable_accounts adapter_a)
    (chain_args adapter_a) ledger_5 = Ok ledger_6"
  unfolding recv.enable_eq_Ok [OF sample_laws(1)] ledger_6_def
  by (simp add: enable_adapter_try_accounts_eq_Ok initial_chain_config_def scenario read_simps)

lemma run_7: "send_message sample_platform send_accounts send_args ledger_6 = Ok ledger_7"
  unfolding send_message_eq_Ok ledger_7_def
  by (simp add: send_message_try_accounts_eq_Ok sample_bits.bitmap_is_empty_unfold
      next_sequence_def checked_add_def scenario read_simps)

lemma run_8: "pick_up_message sample_platform (pick_up_accounts adapter_a)
    (pick_up_args adapter_a) ledger_7 = Ok ledger_8"
  unfolding sample_bits.pick_up_message_eq_Ok ledger_8_def
  by (simp add: pick_up_message_try_accounts_eq_Ok scenario read_simps)

lemma run_9: "pick_up_message sample_platform (pick_up_accounts adapter_b)
    (pick_up_args adapter_b) ledger_8 = Ok ledger_9"
  unfolding sample_bits.pick_up_message_eq_Ok ledger_9_def
  by (simp add: pick_up_message_try_accounts_eq_Ok scenario read_simps)

lemma run_10: "attest_message sample_platform (attest_accounts adapter_a)
    (attest_args adapter_a) ledger_9 = Ok ledger_10"
  unfolding sample_bits.attest_message_eq_Ok ledger_10_def
  by (simp add: attest_message_try_accounts_eq_Ok attestation_info_new_eq_Ok
      zero_attestation_info_def scenario read_simps Let_def)

lemma run_11: "recv_message sample_platform recv_accounts recv_args ledger_10 = Ok ledger_11"
  unfolding recv_message_eq_Ok ledger_11_def
  by (simp add: recv_message_try_accounts_eq_Ok scenario read_simps)

lemma hand_over_runs:
  "transfer_admin sample_platform hand_over_accounts hand_over_args ledger_3 = Ok handed_over"
  unfolding transfer_admin_eq_Ok handed_over_def
  by (simp add: transfer_admin_try_accounts_eq_Ok hand_over_accounts_def hand_over_args_def
      scenario read_simps)

lemma abandon_runs: "process sample_platform abandon ledger_1 = Ok abandoned"
  by (simp add: abandon_def abandoned_def discard_admin_eq_Ok discard_admin_try_accounts_eq_Ok
      scenario read_simps)

section \<open>The run is reachable\<close>

text \<open>The seed lists the run uses; their addresses are distinct on the concrete platform.\<close>

definition scenario_seeds :: "seeds set" where
  "scenario_seeds =
     {integrator_config_seeds the_integrator, sequence_tracker_seeds the_integrator,
      adapter_info_seeds the_integrator adapter_a, adapter_info_seeds the_integrator adapter_b,
      integrator_chain_config_seeds the_integrator 2, attestation_info_seeds the_hash}"

lemma digest_nth:
  assumes "digest (s @ [[b]]) prog = digest (t @ [[c]]) prog" and "i < 32"
  shows "(concat (map seed_mark s) @ [1, b, b, last (as_ref prog)] @ replicate 32 0) ! i =
         (concat (map seed_mark t) @ [1, c, c, last (as_ref prog)] @ replicate 32 0) ! i"
proof -
  have "take 32 (concat (map seed_mark s) @ [1, b, b, last (as_ref prog)] @ replicate 32 0) =
        take 32 (concat (map seed_mark t) @ [1, c, c, last (as_ref prog)] @ replicate 32 0)"
    using assms(1) by (simp add: digest_def pad32_eq_iff seed_mark_def)
  then show ?thesis
    using assms(2) by (metis nth_take)
qed

lemma scenario_marks:
  "seed_mark (byte_string ''integrator_config'') = [17, 105, 103]"
  "seed_mark (byte_string ''sequence_tracker'') = [16, 115, 114]"
  "seed_mark (byte_string ''adapter_info'') = [12, 97, 111]"
  "seed_mark (byte_string ''integrator_chain_config'') = [23, 105, 103]"
  "seed_mark (byte_string ''attestation_info'') = [16, 97, 111]"
  "seed_mark (as_ref the_integrator) = [32, 1, 0]"
  "seed_mark (as_ref adapter_a) = [32, 3, 0]" "seed_mark (as_ref adapter_b) = [32, 4, 0]"
  by code_simp+

lemma scenario_collision_free: "collision_free sample_platform endpoint_id scenario_seeds"
proof -
  have "s = t" if "s \<in> scenario_seeds" "t \<in> scenario_seeds"
    "digest (s @ [[b]]) endpoint_id = digest (t @ [[c]]) endpoint_id" for s t b c
    using that(1,2) digest_nth [OF that(3), of 0] digest_nth [OF that(3), of 1]
      digest_nth [OF that(3), of 7]
    unfolding scenario_seeds_def integrator_config_seeds_def sequence_tracker_seeds_def
      adapter_info_seeds_def integrator_chain_config_seeds_def attestation_info_seeds_def
    by (auto simp: scenario_marks)
  then show ?thesis
    by (auto simp: collision_free_def sample_platform_def)
qed

lemma reachable_process:
  assumes "reachable P T s" "process P ix s = Ok s'" "seeds_used P s ix \<subseteq> T"
  shows "reachable P T s'"
  using assms by (blast intro: reachable_step instruction_step)

lemma scenario_reachable:
  assumes "scenario_seeds \<subseteq> T"
  shows "reachable sample_platform T ledger_1" "reachable sample_platform T ledger_2"
    "reachable sample_platform T ledger_3" "reachable sample_platform T ledger_4"
    "reachable sample_platform T ledger_5" "reachable sample_platform T ledger_6"
    "reachable sample_platform T ledger_7" "reachable sample_platform T ledger_8"
    "reachable sample_platform T ledger_9" "reachable sample_platform T ledger_10"
    "reachable sample_platform T ledger_11"
proof -
  note T = assms [unfolded scenario_seeds_def, simplified]
  have 0: "reachable sample_platform T empty_ledger"
    by (simp add: reachable_initial)
  have 1: "reachable sample_platform T ledger_1"
    by (rule reachable_process [OF 0, of "Register reg_accounts reg_args"])
      (simp_all add: run_1 T, simp add: T reg_args_def)
  have 2: "reachable sample_platform T ledger_2"
    by (rule reachable_process [OF 1, of "Add_Adapter (add_accounts adapter_a) (add_args adapter_a)"])
      (simp_all add: run_2 T, simp add: T add_args_def)
  have 3: "reachable sample_platform T ledger_3"
    by (rule reachable_process [OF 2, of "Add_Adapter (add_accounts adapter_b) (add_args adapter_b)"])
      (simp_all add: run_3 T, simp add: T add_args_def)
  have 4: "reachable sample_platform T ledger_4"
    by (rule reachable_process [OF 3, of "Enable_Send_Adapter (enable_accounts adapter_a)
          (chain_args adapter_a)"])
      (simp_all add: run_4 T, simp add: T chain_args_def)
  have 5: "reachable sample_platform T ledger_5"
    by (rule reachable_process [OF 4, of "Enable_Send_Adapter (enable_accounts adapter_b)
          (chain_args adapter_b)"])
      (simp_all add: run_5 T, simp add: T chain_args_def)
  have 6: "reachable sample_platform T ledger_6"
    by (rule reachable_process [OF 5, of "Enable_Recv_Adapter (enable_accounts adapter_a)
          (chain_args adapter_a)"])
      (simp_all add: run_6 T, simp add: T chain_args_def)
  have 7: "reachable sample_platform T ledger_7"
    by (rule reachable_process [OF 6, of "Send_Message send_accounts send_args"])
      (simp_all add: run_7 T, simp add: T send_args_def)
  have 8: "reachable sample_platform T ledger_8"
    by (rule reachable_process [OF 7, of "Pick_Up_Message (pick_up_accounts adapter_a)
          (pick_up_args adapter_a)"])
      (simp_all add: run_8 T, simp add: T scenario read_simps)
  have 9: "reachable sample_platform T ledger_9"
    by (rule reachable_process [OF 8, of "Pick_Up_Message (pick_up_accounts adapter_b)
          (pick_up_args adapter_b)"])
      (simp_all add: run_9 T, simp add: T scenario read_simps)
  have 10: "reachable sample_platform T ledger_10"
    by (rule reachable_process [OF 9, of "Attest_Message (attest_accounts adapter_a)
          (attest_args adapter_a)"])
      (simp_all add: run_10 T, simp add: T scenario)
  have 11: "reachable sample_platform T ledger_11"
    by (rule reachable_process [OF 10, of "Recv_Message recv_accounts recv_args"])
      (simp_all add: run_11 T, simp add: T scenario)
  show "reachable sample_platform T ledger_1" "reachable sample_platform T ledger_2"
    "reachable sample_platform T ledger_3" "reachable sample_platform T ledger_4"
    "reachable sample_platform T ledger_5" "reachable sample_platform T ledger_6"
    "reachable sample_platform T ledger_7" "reachable sample_platform T ledger_8"
    "reachable sample_platform T ledger_9" "reachable sample_platform T ledger_10"
    "reachable sample_platform T ledger_11"
    by (fact 1 2 3 4 5 6 7 8 9 10 11)+
qed

interpretation story: deployment sample_platform scenario_seeds
  by unfold_locales (rule scenario_collision_free)

end
