(* ===== verification/Serialization.thy ===== *)
theory Serialization
  imports Adapters Inbound "HOL-Library.Monad_Syntax"
begin

text \<open>
  The bytes behind the accounts. \<^verbatim>\<open>#[account]\<close> derives \<^verbatim>\<open>AnchorSerialize\<close> and \<^verbatim>\<open>AnchorDeserialize\<close>:
  a struct is written field by field in the order of its declaration, behind a discriminator
  of eight bytes. \<^verbatim>\<open>#[derive(InitSpace)]\<close> computes the space that \<^verbatim>\<open>init\<close> allocates. How a field of a
  primitive type is written is the affair of the \<^verbatim>\<open>borsh\<close> crate, a parameter here, with the laws its
  specification states in the locale \<open>borsh_crate\<close>. The theory shows that the ledger of this
  development, which holds typed values, stands for a ledger of bytes: loading an account
  gives the same result, every value fits its account, and fresh zero bytes read as the zero
  value that \<^verbatim>\<open>init_if_needed\<close> hands to the handlers.
\<close>

section \<open>Codecs\<close>

text \<open>A writer, and a reader that returns the value and the bytes left over.\<close>

record 'a codec =
  ser :: "'a \<Rightarrow> u8 list"
  de :: "u8 list \<Rightarrow> ('a \<times> u8 list) option"

text \<open>The primitive types that occur in the account structs, and the discriminators by struct name.\<close>

record borsh =
  b_u8 :: "u8 codec"
  b_u16 :: "u16 codec"
  b_u64 :: "u64 codec"
  b_u128 :: "u128 codec"
  b_bool :: "bool codec"
  b_array :: "bytes32 codec"
  b_pubkey :: "pubkey codec"
  b_option :: "pubkey option codec"
  b_vec :: "pubkey list codec"
  discriminator :: "string \<Rightarrow> u8 list"

section \<open>The structs\<close>

definition bitmap_codec :: "borsh \<Rightarrow> bitmap codec" where
  "bitmap_codec B = \<lparr>
     ser = (\<lambda>b. ser (b_u128 B) (map_bits b)),
     de = (\<lambda>bs. do {
       (m, bs) \<leftarrow> de (b_u128 B) bs;
       Some (\<lparr>map_bits = m\<rparr>, bs) })\<rparr>"

definition universal_address_codec :: "borsh \<Rightarrow> universal_address codec" where
  "universal_address_codec B = \<lparr>
     ser = (\<lambda>a. ser (b_array B) (ua_bytes a)),
     de = (\<lambda>bs. do {
       (b, bs) \<leftarrow> de (b_array B) bs;
       Some (\<lparr>ua_bytes = b\<rparr>, bs) })\<rparr>"

definition integrator_config_codec :: "borsh \<Rightarrow> integrator_config codec" where
  "integrator_config_codec B = \<lparr>
     ser = (\<lambda>c. ser (b_u8 B) (ic_bump c) @ ser (b_pubkey B) (ic_integrator_program_id c) @
       ser (b_option B) (ic_admin c) @ ser (b_option B) (ic_pending_admin c) @
       ser (b_vec B) (ic_adapter_infos c)),
     de = (\<lambda>bs. do {
       (bump, bs) \<leftarrow> de (b_u8 B) bs;
       (integrator_program_id, bs) \<leftarrow> de (b_pubkey B) bs;
       (admin, bs) \<leftarrow> de (b_option B) bs;
       (pending_admin, bs) \<leftarrow> de (b_option B) bs;
       (adapter_infos, bs) \<leftarrow> de (b_vec B) bs;
       Some (\<lparr>ic_bump = bump, ic_integrator_program_id = integrator_program_id,
         ic_admin = admin, ic_pending_admin = pending_admin, ic_adapter_infos = adapter_infos\<rparr>,
         bs) })\<rparr>"

definition integrator_chain_config_codec :: "borsh \<Rightarrow> integrator_chain_config codec" where
  "integrator_chain_config_codec B = \<lparr>
     ser = (\<lambda>c. ser (b_u8 B) (cc_bump c) @ ser (b_pubkey B) (cc_integrator_program_id c) @
       ser (b_u16 B) (cc_chain_id c) @ ser (bitmap_codec B) (cc_send_adapter_bitmap c) @
       ser (bitmap_codec B) (cc_recv_adapter_bitmap c)),
     de = (\<lambda>bs. do {
       (bump, bs) \<leftarrow> de (b_u8 B) bs;
       (integrator_program_id, bs) \<leftarrow> de (b_pubkey B) bs;
       (chain_id, bs) \<leftarrow> de (b_u16 B) bs;
       (send_adapter_bitmap, bs) \<leftarrow> de (bitmap_codec B) bs;
       (recv_adapter_bitmap, bs) \<leftarrow> de (bitmap_codec B) bs;
       Some (\<lparr>cc_bump = bump, cc_integrator_program_id = integrator_program_id,
         cc_chain_id = chain_id, cc_send_adapter_bitmap = send_adapter_bitmap,
         cc_recv_adapter_bitmap = recv_adapter_bitmap\<rparr>, bs) })\<rparr>"

definition adapter_info_codec :: "borsh \<Rightarrow> adapter_info codec" where
  "adapter_info_codec B = \<lparr>
     ser = (\<lambda>a. ser (b_u8 B) (ad_bump a) @ ser (b_pubkey B) (ad_integrator_program_id a) @
       ser (b_pubkey B) (ad_adapter_program_id a) @ ser (b_u8 B) (ad_index a)),
     de = (\<lambda>bs. do {
       (bump, bs) \<leftarrow> de (b_u8 B) bs;
       (integrator_program_id, bs) \<leftarrow> de (b_pubkey B) bs;
       (adapter_program_id, bs) \<leftarrow> de (b_pubkey B) bs;
       (index, bs) \<leftarrow> de (b_u8 B) bs;
       Some (\<lparr>ad_bump = bump, ad_integrator_program_id = integrator_program_id,
         ad_adapter_program_id = adapter_program_id, ad_index = index\<rparr>, bs) })\<rparr>"

definition sequence_tracker_codec :: "borsh \<Rightarrow> sequence_tracker codec" where
  "sequence_tracker_codec B = \<lparr>
     ser = (\<lambda>t. ser (b_u8 B) (st_bump t) @ ser (b_pubkey B) (st_integrator_program_id t) @
       ser (b_u64 B) (st_sequence t)),
     de = (\<lambda>bs. do {
       (bump, bs) \<leftarrow> de (b_u8 B) bs;
       (integrator_program_id, bs) \<leftarrow> de (b_pubkey B) bs;
       (sequence, bs) \<leftarrow> de (b_u64 B) bs;
       Some (\<lparr>st_bump = bump, st_integrator_program_id = integrator_program_id,
         st_sequence = sequence\<rparr>, bs) })\<rparr>"

definition outbox_message_codec :: "borsh \<Rightarrow> outbox_message codec" where
  "outbox_message_codec B = \<lparr>
     ser = (\<lambda>m. ser (universal_address_codec B) (ob_src_addr m) @
       ser (b_u64 B) (ob_sequence m) @ ser (b_u16 B) (ob_dst_chain m) @
       ser (universal_address_codec B) (ob_dst_addr m) @ ser (b_array B) (ob_payload_hash m) @
       ser (bitmap_codec B) (ob_outstanding_adapters m) @
       ser (b_pubkey B) (ob_refund_recipient m)),
     de = (\<lambda>bs. do {
       (src_addr, bs) \<leftarrow> de (universal_address_codec B) bs;
       (sequence, bs) \<leftarrow> de (b_u64 B) bs;
       (dst_chain, bs) \<leftarrow> de (b_u16 B) bs;
       (dst_addr, bs) \<leftarrow> de (universal_address_codec B) bs;
       (payload_hash, bs) \<leftarrow> de (b_array B) bs;
       (outstanding_adapters, bs) \<leftarrow> de (bitmap_codec B) bs;
       (refund_recipient, bs) \<leftarrow> de (b_pubkey B) bs;
       Some (\<lparr>ob_src_addr = src_addr, ob_sequence = sequence, ob_dst_chain = dst_chain,
         ob_dst_addr = dst_addr, ob_payload_hash = payload_hash,
         ob_outstanding_adapters = outstanding_adapters,
         ob_refund_recipient = refund_recipient\<rparr>, bs) })\<rparr>"

definition attestation_info_codec :: "borsh \<Rightarrow> attestation_info codec" where
  "attestation_info_codec B = \<lparr>
     ser = (\<lambda>i. ser (b_u8 B) (at_bump i) @ ser (b_array B) (at_message_hash i) @
       ser (b_u16 B) (at_src_chain i) @ ser (universal_address_codec B) (at_src_addr i) @
       ser (b_u64 B) (at_sequence i) @ ser (b_u16 B) (at_dst_chain i) @
       ser (universal_address_codec B) (at_dst_addr i) @ ser (b_array B) (at_payload_hash i) @
       ser (b_bool B) (at_executed i) @ ser (bitmap_codec B) (at_attested_adapters i)),
     de = (\<lambda>bs. do {
       (bump, bs) \<leftarrow> de (b_u8 B) bs;
       (message_hash, bs) \<leftarrow> de (b_array B) bs;
       (src_chain, bs) \<leftarrow> de (b_u16 B) bs;
       (src_addr, bs) \<leftarrow> de (universal_address_codec B) bs;
       (sequence, bs) \<leftarrow> de (b_u64 B) bs;
       (dst_chain, bs) \<leftarrow> de (b_u16 B) bs;
       (dst_addr, bs) \<leftarrow> de (universal_address_codec B) bs;
       (payload_hash, bs) \<leftarrow> de (b_array B) bs;
       (executed, bs) \<leftarrow> de (b_bool B) bs;
       (attested_adapters, bs) \<leftarrow> de (bitmap_codec B) bs;
       Some (\<lparr>at_bump = bump, at_message_hash = message_hash, at_src_chain = src_chain,
         at_src_addr = src_addr, at_sequence = sequence, at_dst_chain = dst_chain,
         at_dst_addr = dst_addr, at_payload_hash = payload_hash, at_executed = executed,
         at_attested_adapters = attested_adapters\<rparr>, bs) })\<rparr>"

text \<open>\<^verbatim>\<open>T::INIT_SPACE\<close>, with \<^verbatim>\<open>#[max_len(128)]\<close> on the list of adapters.\<close>

definition bitmap_INIT_SPACE :: nat where
  "bitmap_INIT_SPACE = 16"

definition universal_address_INIT_SPACE :: nat where
  "universal_address_INIT_SPACE = 32"

definition integrator_config_INIT_SPACE :: nat where
  "integrator_config_INIT_SPACE = 1 + 32 + (1 + 32) + (1 + 32) + (4 + 128 * 32)"

definition integrator_chain_config_INIT_SPACE :: nat where
  "integrator_chain_config_INIT_SPACE = 1 + 32 + 2 + bitmap_INIT_SPACE + bitmap_INIT_SPACE"

definition adapter_info_INIT_SPACE :: nat where
  "adapter_info_INIT_SPACE = 1 + 32 + 32 + 1"

definition sequence_tracker_INIT_SPACE :: nat where
  "sequence_tracker_INIT_SPACE = 1 + 32 + 8"

definition outbox_message_INIT_SPACE :: nat where
  "outbox_message_INIT_SPACE = universal_address_INIT_SPACE + 8 + 2 +
     universal_address_INIT_SPACE + 32 + bitmap_INIT_SPACE + 32"

definition attestation_info_INIT_SPACE :: nat where
  "attestation_info_INIT_SPACE = 1 + 32 + 2 + universal_address_INIT_SPACE + 8 + 2 +
     universal_address_INIT_SPACE + 32 + 1 + bitmap_INIT_SPACE"

section \<open>Accounts as bytes\<close>

text \<open>\<^verbatim>\<open>AccountSerialize::try_serialize\<close> and \<^verbatim>\<open>AccountDeserialize\<close> of a struct \<^verbatim>\<open>name\<close>.\<close>

definition try_serialize :: "borsh \<Rightarrow> string \<Rightarrow> 'a codec \<Rightarrow> 'a \<Rightarrow> u8 list" where
  "try_serialize B name c x = discriminator B name @ ser c x"

definition try_deserialize_unchecked :: "'a codec \<Rightarrow> u8 list \<Rightarrow> 'a result" where
  "try_deserialize_unchecked c buf =
     (case de c (drop 8 buf) of
        None \<Rightarrow> Err (Anchor_Error AccountDidNotDeserialize)
      | Some (x, _) \<Rightarrow> Ok x)"

definition try_deserialize :: "borsh \<Rightarrow> string \<Rightarrow> 'a codec \<Rightarrow> u8 list \<Rightarrow> 'a result" where
  "try_deserialize B name c buf =
     (if length buf < 8 then Err (Anchor_Error AccountDiscriminatorNotFound)
      else if take 8 buf \<noteq> discriminator B name
      then Err (Anchor_Error AccountDiscriminatorMismatch)
      else try_deserialize_unchecked c buf)"

text \<open>The bytes of an account's data, up to what an earlier, longer value left behind it.\<close>

fun account_bytes :: "borsh \<Rightarrow> account_data \<Rightarrow> u8 list" where
  "account_bytes B Empty_Data = []"
| "account_bytes B Zero_Data = replicate 8 0"
| "account_bytes B (Other_Data bs) = bs"
| "account_bytes B (Integrator_Config_Data c) =
     try_serialize B ''IntegratorConfig'' (integrator_config_codec B) c"
| "account_bytes B (Chain_Config_Data c) =
     try_serialize B ''IntegratorChainConfig'' (integrator_chain_config_codec B) c"
| "account_bytes B (Adapter_Info_Data a) =
     try_serialize B ''AdapterInfo'' (adapter_info_codec B) a"
| "account_bytes B (Sequence_Tracker_Data t) =
     try_serialize B ''SequenceTracker'' (sequence_tracker_codec B) t"
| "account_bytes B (Outbox_Message_Data m) =
     try_serialize B ''OutboxMessage'' (outbox_message_codec B) m"
| "account_bytes B (Attestation_Info_Data i) =
     try_serialize B ''AttestationInfo'' (attestation_info_codec B) i"

text \<open>\<^verbatim>\<open>space = 8 + T::INIT_SPACE\<close>, as the \<^verbatim>\<open>init\<close> constraint of each account says.\<close>

definition integrator_config_space :: nat where
  "integrator_config_space = 8 + integrator_config_INIT_SPACE"

definition sequence_tracker_space :: nat where
  "sequence_tracker_space = 8 + sequence_tracker_INIT_SPACE"

definition integrator_chain_config_space :: nat where
  "integrator_chain_config_space = 8 + integrator_chain_config_INIT_SPACE"

definition adapter_info_space :: nat where
  "adapter_info_space = 8 + adapter_info_INIT_SPACE"

definition outbox_message_space :: nat where
  "outbox_message_space = 8 + outbox_message_INIT_SPACE"

definition attestation_info_space :: nat where
  "attestation_info_space = 8 + attestation_info_INIT_SPACE"

lemmas space_defs = integrator_config_space_def sequence_tracker_space_def
  integrator_chain_config_space_def adapter_info_space_def outbox_message_space_def
  attestation_info_space_def

fun allocated_space :: "account_data \<Rightarrow> nat" where
  "allocated_space (Integrator_Config_Data _) = integrator_config_space"
| "allocated_space (Chain_Config_Data _) = integrator_chain_config_space"
| "allocated_space (Adapter_Info_Data _) = adapter_info_space"
| "allocated_space (Sequence_Tracker_Data _) = sequence_tracker_space"
| "allocated_space (Outbox_Message_Data _) = outbox_message_space"
| "allocated_space (Attestation_Info_Data _) = attestation_info_space"
| "allocated_space _ = 0"

definition account_names :: "string list" where
  "account_names = [''IntegratorConfig'', ''IntegratorChainConfig'', ''AdapterInfo'',
     ''SequenceTracker'', ''OutboxMessage'', ''AttestationInfo'']"

text \<open>
  Data the typed view can represent: a list of adapters within its bound, and no foreign data
  that happens to start with one of the six discriminators.
\<close>

fun representable :: "borsh \<Rightarrow> account_data \<Rightarrow> bool" where
  "representable B (Integrator_Config_Data c) \<longleftrightarrow> length (ic_adapter_infos c) \<le> MAX_ADAPTERS"
| "representable B (Other_Data bs) \<longleftrightarrow> take 8 bs \<notin> discriminator B ` set account_names"
| "representable B _ \<longleftrightarrow> True"

section \<open>Laws\<close>

text \<open>A codec that reads back what it wrote, for values of \<open>dom\<close>, in at most \<open>space\<close> bytes.\<close>

locale codec =
  fixes c :: "'a codec" and dom :: "'a \<Rightarrow> bool" and space :: nat
  assumes round_trip [simp]: "dom x \<Longrightarrow> de c (ser c x @ rest) = Some (x, rest)"
    and fits: "dom x \<Longrightarrow> length (ser c x) \<le> space"
begin

lemma deserialize_own:
  assumes "dom x" "length (discriminator B name) = 8"
  shows "try_deserialize B name c (try_serialize B name c x @ rest) = Ok x"
  using assms
  by (simp add: try_deserialize_def try_serialize_def try_deserialize_unchecked_def)

lemma serialize_fits:
  assumes "dom x" "length (discriminator B name) = 8"
  shows "length (try_serialize B name c x) \<le> 8 + space"
  using assms fits by (simp add: try_serialize_def)

end

text \<open>
  What the Borsh specification says: integers are written in their width, a \<^verbatim>\<open>bool\<close> in one byte, an
  array and a \<^verbatim>\<open>Pubkey\<close> in 32, an \<^verbatim>\<open>Option\<close> behind a byte, a \<^verbatim>\<open>Vec\<close> behind its length in four bytes;
  zero, \<^verbatim>\<open>false\<close> and the zero array are zero bytes; and every value can be read back. Anchor's
  discriminators have eight bytes, differ from each other and are not zero.
\<close>

locale borsh_crate =
  fixes B :: borsh
  assumes u8: "codec (b_u8 B) (\<lambda>_. True) 1" and u16: "codec (b_u16 B) (\<lambda>_. True) 2"
    and u64: "codec (b_u64 B) (\<lambda>_. True) 8" and u128: "codec (b_u128 B) (\<lambda>_. True) 16"
    and bool: "codec (b_bool B) (\<lambda>_. True) 1" and array: "codec (b_array B) (\<lambda>_. True) 32"
    and pubkey: "codec (b_pubkey B) (\<lambda>_. True) 32" and option: "codec (b_option B) (\<lambda>_. True) (1 + 32)"
    and vec: "n < 2 ^ 32 \<Longrightarrow> codec (b_vec B) (\<lambda>xs. length xs \<le> n) (4 + n * 32)"
    and zeros: "ser (b_u8 B) 0 = [0]" "ser (b_u16 B) 0 = replicate 2 0"
      "ser (b_u64 B) 0 = replicate 8 0" "ser (b_u128 B) 0 = replicate 16 0"
      "ser (b_bool B) False = [0]" "ser (b_array B) (repeat32 0) = replicate 32 0"
      "ser (b_pubkey B) (Pubkey (repeat32 0)) = replicate 32 0"
    and discriminators: "name \<in> set account_names \<Longrightarrow> length (discriminator B name) = 8"
      "name \<in> set account_names \<Longrightarrow> discriminator B name \<noteq> replicate 8 0"
      "inj_on (discriminator B) (set account_names)"
begin

lemmas primitives = u8 u16 u64 u128 bool array pubkey option

lemma vec128: "codec (b_vec B) (\<lambda>xs. length xs \<le> 128) (4 + 128 * 32)"
  by (rule vec) simp

lemmas reads = primitives [THEN codec.round_trip, OF TrueI] codec.round_trip [OF vec128]
lemmas lengths = primitives [THEN codec.fits, OF TrueI] codec.fits [OF vec128]

end

sublocale borsh_crate \<subseteq> bitmap_bytes: codec "bitmap_codec B" "\<lambda>_. True" bitmap_INIT_SPACE
  by unfold_locales (simp_all add: bitmap_codec_def bitmap_INIT_SPACE_def reads lengths)

sublocale borsh_crate \<subseteq> address_bytes: codec "universal_address_codec B" "\<lambda>_. True"
    universal_address_INIT_SPACE
  by unfold_locales
    (simp_all add: universal_address_codec_def universal_address_INIT_SPACE_def reads lengths)

sublocale borsh_crate \<subseteq> config_bytes: codec "integrator_config_codec B"
    "\<lambda>c. length (ic_adapter_infos c) \<le> MAX_ADAPTERS" integrator_config_INIT_SPACE
proof
  fix c :: integrator_config and rest
  assume c: "length (ic_adapter_infos c) \<le> MAX_ADAPTERS"
  then show "de (integrator_config_codec B) (ser (integrator_config_codec B) c @ rest) =
      Some (c, rest)"
    by (simp add: integrator_config_codec_def MAX_ADAPTERS_def reads)
  show "length (ser (integrator_config_codec B) c) \<le> integrator_config_INIT_SPACE"
    using c lengths(1) [of "ic_bump c"] lengths(7) [of "ic_integrator_program_id c"]
      lengths(8) [of "ic_admin c"] lengths(8) [of "ic_pending_admin c"]
      lengths(9) [of "ic_adapter_infos c"]
    by (simp add: integrator_config_codec_def integrator_config_INIT_SPACE_def MAX_ADAPTERS_def)
qed

sublocale borsh_crate \<subseteq> chain_bytes: codec "integrator_chain_config_codec B" "\<lambda>_. True"
    integrator_chain_config_INIT_SPACE
proof
  fix c :: integrator_chain_config and rest
  show "de (integrator_chain_config_codec B) (ser (integrator_chain_config_codec B) c @ rest) =
      Some (c, rest)"
    by (simp add: integrator_chain_config_codec_def reads)
  show "length (ser (integrator_chain_config_codec B) c) \<le> integrator_chain_config_INIT_SPACE"
    using lengths(1) [of "cc_bump c"] lengths(7) [of "cc_integrator_program_id c"]
      lengths(2) [of "cc_chain_id c"] bitmap_bytes.fits [of "cc_send_adapter_bitmap c"]
      bitmap_bytes.fits [of "cc_recv_adapter_bitmap c"]
    by (simp add: integrator_chain_config_codec_def integrator_chain_config_INIT_SPACE_def)
qed

sublocale borsh_crate \<subseteq> adapter_bytes: codec "adapter_info_codec B" "\<lambda>_. True"
    adapter_info_INIT_SPACE
proof
  fix a :: adapter_info and rest
  show "de (adapter_info_codec B) (ser (adapter_info_codec B) a @ rest) = Some (a, rest)"
    by (simp add: adapter_info_codec_def reads)
  show "length (ser (adapter_info_codec B) a) \<le> adapter_info_INIT_SPACE"
    using lengths(1) [of "ad_bump a"] lengths(7) [of "ad_integrator_program_id a"]
      lengths(7) [of "ad_adapter_program_id a"] lengths(1) [of "ad_index a"]
    by (simp add: adapter_info_codec_def adapter_info_INIT_SPACE_def)
qed

sublocale borsh_crate \<subseteq> tracker_bytes: codec "sequence_tracker_codec B" "\<lambda>_. True"
    sequence_tracker_INIT_SPACE
proof
  fix t :: sequence_tracker and rest
  show "de (sequence_tracker_codec B) (ser (sequence_tracker_codec B) t @ rest) = Some (t, rest)"
    by (simp add: sequence_tracker_codec_def reads)
  show "length (ser (sequence_tracker_codec B) t) \<le> sequence_tracker_INIT_SPACE"
    using lengths(1) [of "st_bump t"] lengths(7) [of "st_integrator_program_id t"]
      lengths(3) [of "st_sequence t"]
    by (simp add: sequence_tracker_codec_def sequence_tracker_INIT_SPACE_def)
qed

sublocale borsh_crate \<subseteq> outbox_bytes: codec "outbox_message_codec B" "\<lambda>_. True"
    outbox_message_INIT_SPACE
proof
  fix m :: outbox_message and rest
  show "de (outbox_message_codec B) (ser (outbox_message_codec B) m @ rest) = Some (m, rest)"
    by (simp add: outbox_message_codec_def reads)
  show "length (ser (outbox_message_codec B) m) \<le> outbox_message_INIT_SPACE"
    using address_bytes.fits [of "ob_src_addr m"] lengths(3) [of "ob_sequence m"]
      lengths(2) [of "ob_dst_chain m"] address_bytes.fits [of "ob_dst_addr m"]
      lengths(6) [of "ob_payload_hash m"] bitmap_bytes.fits [of "ob_outstanding_adapters m"]
      lengths(7) [of "ob_refund_recipient m"]
    by (simp add: outbox_message_codec_def outbox_message_INIT_SPACE_def)
qed

sublocale borsh_crate \<subseteq> attestation_bytes: codec "attestation_info_codec B" "\<lambda>_. True"
    attestation_info_INIT_SPACE
proof
  fix i :: attestation_info and rest
  show "de (attestation_info_codec B) (ser (attestation_info_codec B) i @ rest) = Some (i, rest)"
    by (simp add: attestation_info_codec_def reads)
  show "length (ser (attestation_info_codec B) i) \<le> attestation_info_INIT_SPACE"
    using lengths(1) [of "at_bump i"] lengths(6) [of "at_message_hash i"]
      lengths(2) [of "at_src_chain i"] address_bytes.fits [of "at_src_addr i"]
      lengths(3) [of "at_sequence i"] lengths(2) [of "at_dst_chain i"]
      address_bytes.fits [of "at_dst_addr i"] lengths(6) [of "at_payload_hash i"]
      lengths(5) [of "at_executed i"] bitmap_bytes.fits [of "at_attested_adapters i"]
    by (simp add: attestation_info_codec_def attestation_info_INIT_SPACE_def)
qed

section \<open>The typed view of the bytes\<close>

fun type_name :: "account_data \<Rightarrow> string option" where
  "type_name (Integrator_Config_Data _) = Some ''IntegratorConfig''"
| "type_name (Chain_Config_Data _) = Some ''IntegratorChainConfig''"
| "type_name (Adapter_Info_Data _) = Some ''AdapterInfo''"
| "type_name (Sequence_Tracker_Data _) = Some ''SequenceTracker''"
| "type_name (Outbox_Message_Data _) = Some ''OutboxMessage''"
| "type_name (Attestation_Info_Data _) = Some ''AttestationInfo''"
| "type_name _ = None"

lemma in_account_names:
  "{''IntegratorConfig'', ''IntegratorChainConfig'', ''AdapterInfo'', ''SequenceTracker'',
    ''OutboxMessage'', ''AttestationInfo''} = set account_names"
  by (simp add: account_names_def)

lemma type_name_account_names: "type_name d = Some n \<Longrightarrow> n \<in> set account_names"
  by (cases d) (auto simp: in_account_names [symmetric])

lemma typed_bytes:
  assumes "type_name d = Some n"
  shows "\<exists>bs. account_bytes B d = discriminator B n @ bs" "\<not> short_data d"
  using assms by (cases d; auto simp: try_serialize_def)+

context borsh_crate
begin

lemma deserialize_another_type:
  assumes "name \<in> set account_names" "type_name d \<noteq> Some name" "representable B d"
    and "short_data d \<longrightarrow> rest = []"
  shows "try_deserialize B name c (account_bytes B d @ rest) =
     Err (Anchor_Error (if short_data d then AccountDiscriminatorNotFound
       else AccountDiscriminatorMismatch))"
proof (cases "type_name d")
  case None
  then show ?thesis
    using assms discriminators(2) [OF assms(1)]
    by (cases d) (auto simp: try_deserialize_def)
next
  case (Some n)
  then obtain bs where bs: "account_bytes B d = discriminator B n @ bs"
    using typed_bytes(1) by blast
  have n: "n \<in> set account_names" using type_name_account_names [OF Some] .
  then have "discriminator B name \<noteq> discriminator B n"
    using inj_onD [OF discriminators(3)] assms(1,2) Some by auto
  then show ?thesis
    using discriminators(1) [OF n] typed_bytes(2) [OF Some] by (simp add: try_deserialize_def bs)
qed

lemma load_data_bytes:
  assumes "name \<in> set account_names" "representable B d" "short_data d \<longrightarrow> rest = []"
    and "\<And>x. proj d = Some x \<Longrightarrow> type_name d = Some name \<and>
      try_deserialize B name c (account_bytes B d @ rest) = Ok x"
    and "type_name d = Some name \<Longrightarrow> proj d \<noteq> None"
  shows "load_data proj d = try_deserialize B name c (account_bytes B d @ rest)"
proof (cases "proj d")
  case None
  then have "type_name d \<noteq> Some name" using assms(5) by blast
  then show ?thesis
    using deserialize_another_type [OF assms(1) _ assms(2,3), of c] None
    by (simp add: load_data_def)
qed (use assms(4) in \<open>simp add: load_data_def\<close>)

lemma discriminator_lengths:
  "length (discriminator B ''IntegratorConfig'') = 8"
  "length (discriminator B ''IntegratorChainConfig'') = 8"
  "length (discriminator B ''AdapterInfo'') = 8"
  "length (discriminator B ''SequenceTracker'') = 8"
  "length (discriminator B ''OutboxMessage'') = 8"
  "length (discriminator B ''AttestationInfo'') = 8"
  by (simp_all add: discriminators(1) in_account_names [symmetric])

lemmas deserialize_own = config_bytes.deserialize_own chain_bytes.deserialize_own
  adapter_bytes.deserialize_own tracker_bytes.deserialize_own outbox_bytes.deserialize_own
  attestation_bytes.deserialize_own

lemma loads_read_bytes:
  assumes "representable B d" "short_data d \<longrightarrow> rest = []"
  shows "load_data as_integrator_config d =
      try_deserialize B ''IntegratorConfig'' (integrator_config_codec B) (account_bytes B d @ rest)"
    "load_data as_chain_config d = try_deserialize B ''IntegratorChainConfig''
      (integrator_chain_config_codec B) (account_bytes B d @ rest)"
    "load_data as_adapter_info d =
      try_deserialize B ''AdapterInfo'' (adapter_info_codec B) (account_bytes B d @ rest)"
    "load_data as_sequence_tracker d =
      try_deserialize B ''SequenceTracker'' (sequence_tracker_codec B) (account_bytes B d @ rest)"
    "load_data as_outbox_message d =
      try_deserialize B ''OutboxMessage'' (outbox_message_codec B) (account_bytes B d @ rest)"
    "load_data as_attestation_info d =
      try_deserialize B ''AttestationInfo'' (attestation_info_codec B) (account_bytes B d @ rest)"
  using assms(1)
  by - (rule load_data_bytes [OF _ assms];
      cases d; simp add: in_account_names [symmetric] discriminator_lengths deserialize_own)+

lemma bytes_fit:
  assumes "representable B d" "carries_discriminator d"
  shows "length (account_bytes B d) \<le> allocated_space d"
  using assms
  by (cases d) (simp_all add: discriminator_lengths space_defs config_bytes.serialize_fits
      chain_bytes.serialize_fits adapter_bytes.serialize_fits tracker_bytes.serialize_fits
      outbox_bytes.serialize_fits attestation_bytes.serialize_fits)

text \<open>What \<^verbatim>\<open>init_if_needed\<close> reads from the account it has just created.\<close>

lemma zero_bytes_read:
  "try_deserialize_unchecked (integrator_chain_config_codec B)
     (replicate (8 + integrator_chain_config_INIT_SPACE) 0) = Ok zero_chain_config"
  "try_deserialize_unchecked (attestation_info_codec B)
     (replicate (8 + attestation_info_INIT_SPACE) 0) = Ok zero_attestation_info"
proof -
  have "ser (integrator_chain_config_codec B) zero_chain_config =
      replicate integrator_chain_config_INIT_SPACE 0"
    by (simp add: integrator_chain_config_codec_def zero_chain_config_def zeros bitmap_codec_def
        bitmap_new_def integrator_chain_config_INIT_SPACE_def bitmap_INIT_SPACE_def
        replicate_add [symmetric] flip: replicate.simps)
  then show "try_deserialize_unchecked (integrator_chain_config_codec B)
     (replicate (8 + integrator_chain_config_INIT_SPACE) 0) = Ok zero_chain_config"
    using chain_bytes.round_trip [of zero_chain_config "[]"]
    by (simp add: try_deserialize_unchecked_def)
  have "ser (attestation_info_codec B) zero_attestation_info =
      replicate attestation_info_INIT_SPACE 0"
    by (simp add: attestation_info_codec_def zero_attestation_info_def zeros bitmap_codec_def
        universal_address_codec_def from_bytes_def universal_address_INIT_SPACE_def
        bitmap_new_def attestation_info_INIT_SPACE_def bitmap_INIT_SPACE_def
        replicate_add [symmetric] flip: replicate.simps)
  then show "try_deserialize_unchecked (attestation_info_codec B)
     (replicate (8 + attestation_info_INIT_SPACE) 0) = Ok zero_attestation_info"
    using attestation_bytes.round_trip [of zero_attestation_info "[]"]
    by (simp add: try_deserialize_unchecked_def)
qed

end

section \<open>The format\<close>

text \<open>
  Borsh as its specification describes it, with the discriminators of the six structs (the
  first eight bytes of the SHA-256 of \<^verbatim>\<open>account:\<close> and the name): the laws hold of it.
\<close>

definition to_le_bytes :: "nat \<Rightarrow> 'a::len word \<Rightarrow> u8 list" where
  "to_le_bytes n w = rev (to_be_bytes n w)"

fun from_le_bytes :: "u8 list \<Rightarrow> 'a::len word" where
  "from_le_bytes [] = 0"
| "from_le_bytes (b # bs) = ucast b OR push_bit 8 (from_le_bytes bs)"

definition take_bytes :: "nat \<Rightarrow> (u8 list \<Rightarrow> 'a option) \<Rightarrow> u8 list \<Rightarrow> ('a \<times> u8 list) option" where
  "take_bytes n f bs =
     (if length bs < n then None else map_option (\<lambda>x. (x, drop n bs)) (f (take n bs)))"

definition word_codec :: "nat \<Rightarrow> 'a::len word codec" where
  "word_codec n = \<lparr>ser = to_le_bytes n, de = take_bytes n (\<lambda>bs. Some (from_le_bytes bs))\<rparr>"

definition bool_codec :: "bool codec" where
  "bool_codec = \<lparr>ser = (\<lambda>b. [if b then 1 else 0]),
     de = take_bytes 1 (\<lambda>bs. if bs = [0] then Some False else if bs = [1] then Some True else None)\<rparr>"

definition array_codec :: "bytes32 codec" where
  "array_codec = \<lparr>ser = bytes_of, de = take_bytes 32 (\<lambda>bs. Some (pad32 bs))\<rparr>"

definition pubkey_codec :: "pubkey codec" where
  "pubkey_codec = \<lparr>ser = as_ref, de = take_bytes 32 (\<lambda>bs. Some (Pubkey (pad32 bs)))\<rparr>"

definition option_codec :: "pubkey option codec" where
  "option_codec = \<lparr>
     ser = (\<lambda>x. case x of None \<Rightarrow> [0] | Some k \<Rightarrow> 1 # as_ref k),
     de = (\<lambda>bs. case bs of [] \<Rightarrow> None
       | b # bs \<Rightarrow> if b = 0 then Some (None, bs)
           else if b = 1 then map_option (\<lambda>(k, bs). (Some k, bs)) (de pubkey_codec bs)
           else None)\<rparr>"

fun take_keys :: "nat \<Rightarrow> u8 list \<Rightarrow> (pubkey list \<times> u8 list) option" where
  "take_keys 0 bs = Some ([], bs)"
| "take_keys (Suc n) bs = do {
     (k, bs) \<leftarrow> de pubkey_codec bs;
     (ks, bs) \<leftarrow> take_keys n bs;
     Some (k # ks, bs) }"

definition vec_codec :: "pubkey list codec" where
  "vec_codec = \<lparr>
     ser = (\<lambda>ks. to_le_bytes 4 (of_nat (length ks) :: 32 word) @ concat (map as_ref ks)),
     de = (\<lambda>bs. do {
       (n :: 32 word, bs) \<leftarrow> de (word_codec 4) bs;
       take_keys (unat n) bs })\<rparr>"

definition borsh_format :: borsh where
  "borsh_format = \<lparr>b_u8 = word_codec 1, b_u16 = word_codec 2, b_u64 = word_codec 8,
     b_u128 = word_codec 16, b_bool = bool_codec, b_array = array_codec,
     b_pubkey = pubkey_codec, b_option = option_codec, b_vec = vec_codec,
     discriminator = (\<lambda>name. case map_of [
     (''IntegratorConfig'', [222, 107, 253, 91, 117, 41, 5, 100]),
     (''IntegratorChainConfig'', [241, 61, 178, 53, 23, 22, 113, 121]),
     (''AdapterInfo'', [40, 22, 54, 111, 108, 25, 154, 197]),
     (''SequenceTracker'', [99, 2, 76, 112, 17, 90, 152, 113]),
     (''OutboxMessage'', [134, 18, 164, 212, 122, 45, 165, 53]),
     (''AttestationInfo'', [231, 247, 179, 70, 29, 36, 57, 169])] name of
       None \<Rightarrow> [] | Some d \<Rightarrow> d)\<rparr>"

lemma length_to_le_bytes [simp]: "length (to_le_bytes n w) = n"
  by (simp add: to_le_bytes_def)

lemma from_to_le_bytes:
  fixes w :: "'a::len word"
  shows "from_le_bytes (to_le_bytes n w) = take_bit (8 * n) w"
proof (induction n arbitrary: w)
  case 0
  then show ?case by (simp add: to_le_bytes_def)
next
  case (Suc n)
  have "from_le_bytes (to_le_bytes (Suc n) w) =
      (ucast (ucast w :: u8) :: 'a word) OR push_bit 8 (take_bit (8 * n) (drop_bit 8 w))"
    using Suc by (simp add: to_le_bytes_def)
  also have "\<dots> = take_bit (8 * Suc n) w"
    by (rule bit_word_eqI)
      (auto simp: bit_or_iff bit_unsigned_iff bit_push_bit_iff bit_take_bit_iff bit_drop_bit_eq
        dest: bit_imp_le_length)
  finally show ?case .
qed

lemma word_codec_laws:
  assumes "LENGTH('a::len) \<le> 8 * n"
  shows "codec (word_codec n :: 'a word codec) (\<lambda>_. True) n"
proof
  fix x :: "'a word" and rest
  have "take_bit (8 * n) x = x"
    using assms by (simp add: take_bit_word_eq_self)
  then show "de (word_codec n) (ser (word_codec n) x @ rest) = Some (x, rest)"
    by (simp add: word_codec_def take_bytes_def from_to_le_bytes)
  show "length (ser (word_codec n) x) \<le> n"
    by (simp add: word_codec_def)
qed

lemma bool_codec_laws: "codec bool_codec (\<lambda>_. True) 1"
  by unfold_locales (simp_all add: bool_codec_def take_bytes_def)

lemma pad32_bytes_of [simp]: "pad32 (bytes_of b) = b"
  by (simp add: bytes_of_eq_iff [symmetric] bytes_of_pad32)

lemma array_codec_laws: "codec array_codec (\<lambda>_. True) 32"
  by unfold_locales (simp_all add: array_codec_def take_bytes_def)

lemma pubkey_codec_laws: "codec pubkey_codec (\<lambda>_. True) 32"
  by unfold_locales (simp_all add: pubkey_codec_def take_bytes_def as_ref_def)

lemma option_codec_laws: "codec option_codec (\<lambda>_. True) (1 + 32)"
  using codec.round_trip [OF pubkey_codec_laws]
  by unfold_locales (auto simp: option_codec_def pubkey_codec_def take_bytes_def as_ref_def split: option.splits)

lemma take_keys_concat: "take_keys (length ks) (concat (map as_ref ks) @ rest) = Some (ks, rest)"
  by (induction ks) (simp_all add: pubkey_codec_def take_bytes_def as_ref_def)

lemma vec_codec_laws:
  assumes "n < 2 ^ 32"
  shows "codec vec_codec (\<lambda>ks. length ks \<le> n) (4 + n * 32)"
proof
  fix ks :: "pubkey list" and rest assume ks: "length ks \<le> n"
  let ?n = "of_nat (length ks) :: 32 word"
  have "unat ?n = length ks" using ks assms by (simp add: unat_of_nat)
  moreover have "codec (word_codec 4 :: 32 word codec) (\<lambda>_. True) 4"
    by (rule word_codec_laws) simp
  note codec.round_trip [OF this TrueI, of ?n]
  ultimately show "de vec_codec (ser vec_codec ks @ rest) = Some (ks, rest)"
    by (simp add: vec_codec_def word_codec_def take_keys_concat)
  have "length (concat (map as_ref ks)) = length ks * 32"
    by (induction ks) simp_all
  then show "length (ser vec_codec ks) \<le> 4 + n * 32"
    using ks by (simp add: vec_codec_def)
qed

lemma zero_le_bytes: "to_le_bytes n (0 :: 'a::len word) = replicate n 0"
proof (induction n)
  case (Suc n)
  then show ?case by (simp add: to_le_bytes_def)
qed (simp add: to_le_bytes_def)

lemma format_codecs:
  "b_u8 borsh_format = word_codec 1" "b_u16 borsh_format = word_codec 2"
  "b_u64 borsh_format = word_codec 8" "b_u128 borsh_format = word_codec 16"
  "b_bool borsh_format = bool_codec" "b_array borsh_format = array_codec"
  "b_pubkey borsh_format = pubkey_codec" "b_option borsh_format = option_codec"
  "b_vec borsh_format = vec_codec"
  by (simp_all add: borsh_format_def)

lemma format_zeros:
  "ser (word_codec n :: 'a::len word codec) 0 = replicate n 0" "ser bool_codec False = [0]"
  "ser array_codec (repeat32 0) = replicate 32 0"
  "ser pubkey_codec (Pubkey (repeat32 0)) = replicate 32 0"
  by (simp_all add: word_codec_def zero_le_bytes bool_codec_def array_codec_def pubkey_codec_def
      as_ref_def bytes_of_repeat32)

lemma format_discriminators:
  "name \<in> set account_names \<Longrightarrow> length (discriminator borsh_format name) = 8"
  "name \<in> set account_names \<Longrightarrow> discriminator borsh_format name \<noteq> replicate 8 0"
  "inj_on (discriminator borsh_format) (set account_names)"
proof -
  have zeros: "replicate 8 (0 :: u8) = [0, 0, 0, 0, 0, 0, 0, 0]"
    by (simp add: numeral_eq_Suc)
  show "name \<in> set account_names \<Longrightarrow> length (discriminator borsh_format name) = 8"
    "name \<in> set account_names \<Longrightarrow> discriminator borsh_format name \<noteq> replicate 8 0"
    unfolding zeros by (auto simp: borsh_format_def account_names_def)
  have "distinct (map (discriminator borsh_format) account_names)"
    by (simp add: borsh_format_def account_names_def)
  then show "inj_on (discriminator borsh_format) (set account_names)"
    by (simp add: distinct_map)
qed

interpretation bytes: borsh_crate borsh_format
proof (rule borsh_crate.intro)
  show "codec (b_option borsh_format) (\<lambda>_. True) (1 + 32)"
    using option_codec_laws by (simp only: format_codecs)
qed (simp_all add: format_codecs format_zeros word_codec_laws bool_codec_laws array_codec_laws
    pubkey_codec_laws vec_codec_laws format_discriminators
    bool_codec_laws [unfolded One_nat_def] word_codec_laws [of 1, unfolded One_nat_def])

end
