(* ===== verification/Component_Properties.thy ===== *)
theory Component_Properties
  imports Scenario Serialization
begin

text \<open>
  Properties of the data the endpoint is built from: the adapter bitmap, the message
  hash, the sequence tracker and the bytes of the accounts.
\<close>

section \<open>Bitmap\<close>

text \<open>C30. Setting a bit below 128 succeeds, and afterwards \<^verbatim>\<open>get\<close> reads the written value at
  that index and the old value at every other index; an index of 128 or more is refused by
  both, with no truncation and no wrap-around.\<close>

theorem bitmap_get_after_set:
  assumes "bitmaps_crate P"
  shows "(i < BITS \<and> j < BITS \<longrightarrow> (\<exists>b'. bitmap_set P b i x = Ok b' \<and>
        bitmap_get P b' j = (if j = i then Ok x else bitmap_get P b j))) \<and>
     (BITS \<le> i \<longrightarrow> bitmap_set P b i x = Err (Endpoint_Error BitmapIndexOutOfBounds) \<and>
        bitmap_get P b i = Err (Endpoint_Error BitmapIndexOutOfBounds))"
proof (intro conjI impI)
  assume ij: "i < BITS \<and> j < BITS"
  then have "unat i < 128" "unat j < 128"
    using BITS_le_iff [of i] BITS_le_iff [of j] by (simp_all add: not_le [symmetric])
  moreover have "j = i \<longleftrightarrow> unat j = unat i"
    by (simp add: word_unat_eq_iff)
  ultimately show "\<exists>b'. bitmap_set P b i x = Ok b' \<and>
      bitmap_get P b' j = (if j = i then Ok x else bitmap_get P b j)"
    by (cases x) (simp_all add: bitmaps_crate.bitmap_set_unfold [OF assms]
        bitmaps_crate.bitmap_get_unfold [OF assms])
qed (simp_all add: bitmap_set_def bitmap_get_def)

theorem bitmap_get_after_set_witness:
  "(\<exists>b'. bitmap_set sample_platform (from_value 5) 1 True = Ok b' \<and>
     bitmap_get sample_platform b' 2 = bitmap_get sample_platform (from_value 5) 2) \<and>
   bitmap_get sample_platform bitmap_new 128 = Err (Endpoint_Error BitmapIndexOutOfBounds)"
  using bitmap_get_after_set [OF sample_laws(1), of 1 2 "from_value 5" True]
    bitmap_get_after_set [OF sample_laws(1), of 128 0 bitmap_new True]
  by (simp add: BITS_def word_less_nat_alt)

text \<open>C31. The typed accounts of the ledger stand for bytes: loading an account of any of the six types
  gives what deserialising its bytes gives, errors included, whatever an earlier, longer value
  left behind the bytes; and the zero bytes of a fresh account read as the zero values that
  \<^verbatim>\<open>init_if_needed\<close> hands to the handlers.\<close>

theorem typed_loads_read_bytes:
  assumes "borsh_crate B" "representable B d" "short_data d \<longrightarrow> rest = []"
  shows "load_data as_integrator_config d = try_deserialize B ''IntegratorConfig''
       (integrator_config_codec B) (account_bytes B d @ rest) \<and>
     load_data as_chain_config d = try_deserialize B ''IntegratorChainConfig''
       (integrator_chain_config_codec B) (account_bytes B d @ rest) \<and>
     load_data as_adapter_info d = try_deserialize B ''AdapterInfo''
       (adapter_info_codec B) (account_bytes B d @ rest) \<and>
     load_data as_sequence_tracker d = try_deserialize B ''SequenceTracker''
       (sequence_tracker_codec B) (account_bytes B d @ rest) \<and>
     load_data as_outbox_message d = try_deserialize B ''OutboxMessage''
       (outbox_message_codec B) (account_bytes B d @ rest) \<and>
     load_data as_attestation_info d = try_deserialize B ''AttestationInfo''
       (attestation_info_codec B) (account_bytes B d @ rest) \<and>
     try_deserialize_unchecked (integrator_chain_config_codec B)
       (replicate (8 + integrator_chain_config_INIT_SPACE) 0) = Ok zero_chain_config \<and>
     try_deserialize_unchecked (attestation_info_codec B)
       (replicate (8 + attestation_info_INIT_SPACE) 0) = Ok zero_attestation_info"
  using borsh_crate.loads_read_bytes [OF assms] borsh_crate.zero_bytes_read [OF assms(1)] by blast

theorem typed_loads_read_bytes_witness:
  "try_deserialize borsh_format ''SequenceTracker'' (sequence_tracker_codec borsh_format)
     (account_bytes borsh_format (Sequence_Tracker_Data (the_tracker 7)) @ [1, 2, 3]) =
     Ok (the_tracker 7) \<and>
   try_deserialize borsh_format ''AdapterInfo'' (adapter_info_codec borsh_format)
     (account_bytes borsh_format (Sequence_Tracker_Data (the_tracker 7)) @ [1, 2, 3]) =
     Err (Anchor_Error AccountDiscriminatorMismatch)"
  using typed_loads_read_bytes [OF bytes.borsh_crate_axioms,
      of "Sequence_Tracker_Data (the_tracker 7)" "[1, 2, 3]"]
  by (simp add: load_data_def)

text \<open>C32. \<^verbatim>\<open>count_enabled_bits\<close> never panics: it returns the number of indices set in both
  bitmaps, at most 128; a bitmap is empty exactly when its length is 0.\<close>

theorem count_enabled_bits_correct:
  assumes "bitmaps_crate P"
  shows "\<exists>n. count_enabled_bits P b e = Ok n \<and>
     unat n = card (adapters_of b \<inter> adapters_of e) \<and> unat n \<le> 128 \<and>
     (bitmap_is_empty P b \<longleftrightarrow> bitmap_len P b = 0)"
proof -
  have "card (adapters_of b \<inter> adapters_of e) \<le> card (adapters_of b)"
    by (intro card_mono) auto
  then have "card (adapters_of b \<inter> adapters_of e) \<le> 128"
    using card_adapters_of [of b] by simp
  then have "unat (of_nat (card (adapters_of b \<inter> adapters_of e)) :: u8) =
      card (adapters_of b \<inter> adapters_of e)" "card (adapters_of b \<inter> adapters_of e) \<le> 128"
    by (simp_all add: unat_of_nat)
  then show ?thesis
    by (simp add: bitmaps_crate.count_enabled_bits_unfold [OF assms]
        bitmaps_crate.bitmap_len_unfold [OF assms] bitmaps_crate.bitmap_is_empty_unfold [OF assms])
qed

theorem count_enabled_bits_correct_witness:
  "\<exists>n. count_enabled_bits sample_platform (from_value 3) (from_value 2) = Ok n \<and> unat n = 1"
  using count_enabled_bits_correct [OF sample_laws(1), of "from_value 3" "from_value 2"]
  by (auto simp: scenario)

section \<open>The message hash\<close>

text \<open>C34. The bytes that are hashed determine the message: messages that differ in any field
  have different hashes, as long as keccak does not collide on their encodings.\<close>

theorem message_hash_determines_message:
  assumes "hash_collision_free P {message_bytes c a q d e h, message_bytes c' a' q' d' e' h'}"
    and "(c, a, q, d, e, h) \<noteq> (c', a', q', d', e', h')"
  shows "compute_message_hash P c a q d e h \<noteq> compute_message_hash P c' a' q' d' e' h'"
  using assms message_bytes_inject [of c a q d e h c' a' q' d' e' h']
  by (auto simp: hash_collision_free_def compute_message_hash_def)

theorem message_hash_determines_message_witness:
  "compute_message_hash sample_platform 2 the_peer 7 1 the_peer the_payload \<noteq>
   compute_message_hash sample_platform 3 the_peer 7 1 the_peer the_payload"
proof -
  have "keccak_hash sample_platform (message_bytes 2 the_peer 7 1 the_peer the_payload) \<noteq>
      keccak_hash sample_platform (message_bytes 3 the_peer 7 1 the_peer the_payload)"
    by code_simp
  then have "hash_collision_free sample_platform
      {message_bytes 2 the_peer 7 1 the_peer the_payload,
       message_bytes 3 the_peer 7 1 the_peer the_payload}"
    by (auto simp: hash_collision_free_def)
  then show ?thesis
    by (rule message_hash_determines_message) simp
qed

section \<open>The sequence tracker\<close>

text \<open>C35. \<^verbatim>\<open>next_sequence\<close> hands out the stored number and stores its successor, without wrapping:
  at the last 64-bit number it panics instead.\<close>

theorem next_sequence_bounds:
  "next_sequence t =
     (if st_sequence t = - 1 then Err Panicked
      else Ok (t\<lparr>st_sequence := st_sequence t + 1\<rparr>, st_sequence t)) \<and>
   (st_sequence t \<noteq> - 1 \<longrightarrow> st_sequence t < st_sequence t + 1)"
  using next_sequence_cases .

theorem next_sequence_bounds_witness:
  "next_sequence (the_tracker (- 1)) = Err Panicked \<and>
   next_sequence (the_tracker 6) = Ok (the_tracker 7, 6)"
  using next_sequence_bounds [of "the_tracker (- 1)"] next_sequence_bounds [of "the_tracker 6"]
  by (simp add: the_tracker_def)

end
