(* ===== verification/Authority.thy ===== *)
theory Authority
  imports Endpoint
begin

text \<open>
  Who may do what. Eight instructions are reserved to an integrator's admin: each of them loads
  the IntegratorConfig, checks the admin with \<^verbatim>\<open>check_admin\<close> in its \<^verbatim>\<open>access_control\<close> and only then
  does its work. The locale states this contract for one instruction and derives what an
  outsider gets; the interpretations show that each of the eight keeps it.
\<close>

locale admin_gated =
  fixes accept :: "'acs \<Rightarrow> 'args \<Rightarrow> ledger \<Rightarrow> integrator_config result"
    and admin_of :: "'acs \<Rightarrow> account_meta"
    and config_of :: "'acs \<Rightarrow> account_meta"
    and handle :: "'acs \<Rightarrow> 'args \<Rightarrow> ledger \<Rightarrow> ledger result"
  assumes accept_loads: "accept acs args s = Ok c \<Longrightarrow>
        is_signer (admin_of acs) \<and> config_at s (key (config_of acs)) = Some c"
    and gate: "accept acs args s = Ok c \<Longrightarrow> check_admin c (key (admin_of acs)) = Err e \<Longrightarrow>
        handle acs args s = Err e"
    and accept_Err: "accept acs args s = Err e \<Longrightarrow> handle acs args s = Err e"
begin

lemma needs_admin:
  assumes "handle acs args s = Ok s'"
  shows "is_signer (admin_of acs) \<and> (\<exists>c. config_at s (key (config_of acs)) = Some c \<and>
     ic_admin c = Some (key (admin_of acs)) \<and> ic_pending_admin c = None)"
proof (cases "accept acs args s")
  case (Ok c)
  have "check_admin c (key (admin_of acs)) = Ok ()"
    using assms gate [OF Ok] by (cases "check_admin c (key (admin_of acs))") auto
  then show ?thesis
    using accept_loads [OF Ok] by (simp add: check_admin_eq_Ok)
next
  case (Err e)
  then show ?thesis using assms accept_Err by simp
qed

lemma outsider_rejected:
  assumes "accept acs args s = Ok c" "ic_admin c \<noteq> Some (key (admin_of acs))"
  shows "handle acs args s = Err (Endpoint_Error CallerNotAuthorized)"
  using assms gate by (simp add: check_admin_branches)

lemma transfer_blocks:
  assumes "accept acs args s = Ok c" "ic_admin c = Some (key (admin_of acs))"
    and "ic_pending_admin c \<noteq> None"
  shows "handle acs args s = Err (Endpoint_Error AdminTransferInProgress)"
  using assms gate by (simp add: check_admin_branches)

end

text \<open>The configuration among the accounts that an accounts struct accepts.\<close>

definition add_adapter_config :: "'bm platform \<Rightarrow> add_adapter_accounts \<Rightarrow> add_adapter_args \<Rightarrow>
    ledger \<Rightarrow> integrator_config result" where
  "add_adapter_config P acs args s =
     and_then (add_adapter_try_accounts P acs args s) (\<lambda>(_, c, _). Ok c)"

definition enable_adapter_config :: "'bm platform \<Rightarrow> enable_adapter_accounts \<Rightarrow>
    adapter_info_args \<Rightarrow> ledger \<Rightarrow> integrator_config result" where
  "enable_adapter_config P acs args s =
     and_then (enable_adapter_try_accounts P acs args s) (\<lambda>(_, c, _). Ok c)"

definition disable_adapter_config :: "'bm platform \<Rightarrow> disable_adapter_accounts \<Rightarrow>
    adapter_info_args \<Rightarrow> ledger \<Rightarrow> integrator_config result" where
  "disable_adapter_config P acs args s =
     and_then (disable_adapter_try_accounts P acs args s) (\<lambda>(c, _). Ok c)"

lemmas gate_unfolds =
  add_adapter_config_def enable_adapter_config_def disable_adapter_config_def
  add_adapter_validate_def enable_adapter_validate_def disable_adapter_validate_def
  update_admin_validate_def transfer_admin_validate_def discard_admin_validate_def

lemmas gate_iff = ok_iff and_then_eq_Err gate_unfolds

interpretation add_gate: admin_gated "add_adapter_config P" aa_admin aa_integrator_config
  "add_adapter P" for P :: "'bm platform"
  by unfold_locales (auto simp: gate_iff add_adapter_def)

interpretation enable_recv_gate: admin_gated "enable_adapter_config P" en_admin
  en_integrator_config "enable_recv_adapter P" for P :: "'bm platform"
  by unfold_locales (auto simp: gate_iff enable_recv_adapter_def)

interpretation enable_send_gate: admin_gated "enable_adapter_config P" en_admin
  en_integrator_config "enable_send_adapter P" for P :: "'bm platform"
  by unfold_locales (auto simp: gate_iff enable_send_adapter_def)

interpretation disable_recv_gate: admin_gated "disable_adapter_config P" ds_admin
  ds_integrator_config "disable_recv_adapter P" for P :: "'bm platform"
  by unfold_locales (auto simp: gate_iff disable_recv_adapter_def)

interpretation disable_send_gate: admin_gated "disable_adapter_config P" ds_admin
  ds_integrator_config "disable_send_adapter P" for P :: "'bm platform"
  by unfold_locales (auto simp: gate_iff disable_send_adapter_def)

interpretation update_gate: admin_gated "update_admin_try_accounts P" up_admin
  up_integrator_config "update_admin P" for P :: "'bm platform"
  by unfold_locales (auto simp: gate_iff update_admin_def)

interpretation transfer_gate: admin_gated "transfer_admin_try_accounts P" tr_admin
  tr_integrator_config "transfer_admin P" for P :: "'bm platform"
  by unfold_locales (auto simp: gate_iff transfer_admin_def)

interpretation discard_gate: admin_gated "\<lambda>acs (_ :: unit). discard_admin_try_accounts P acs"
  di_admin di_integrator_config "\<lambda>acs (_ :: unit). discard_admin P acs" for P :: "'bm platform"
  by unfold_locales (auto simp: gate_iff discard_admin_def)

section \<open>The reserved instructions\<close>

text \<open>Admin and configuration account of an instruction reserved to the admin.\<close>

fun administers :: "instruction \<Rightarrow> (account_meta \<times> account_meta) option" where
  "administers (Add_Adapter acs args) = Some (aa_admin acs, aa_integrator_config acs)"
| "administers (Enable_Recv_Adapter acs args) = Some (en_admin acs, en_integrator_config acs)"
| "administers (Enable_Send_Adapter acs args) = Some (en_admin acs, en_integrator_config acs)"
| "administers (Disable_Recv_Adapter acs args) = Some (ds_admin acs, ds_integrator_config acs)"
| "administers (Disable_Send_Adapter acs args) = Some (ds_admin acs, ds_integrator_config acs)"
| "administers (Update_Admin acs args) = Some (up_admin acs, up_integrator_config acs)"
| "administers (Transfer_Admin acs args) = Some (tr_admin acs, tr_integrator_config acs)"
| "administers (Discard_Admin acs) = Some (di_admin acs, di_integrator_config acs)"
| "administers _ = None"

lemma administers_needs_admin:
  assumes "administers ix = Some (adm, cfg)" "process P ix s = Ok s'"
  shows "is_signer adm \<and> (\<exists>c. config_at s (key cfg) = Some c \<and>
     ic_admin c = Some (key adm) \<and> ic_pending_admin c = None)"
  using assms
  by (cases ix) (auto dest!: add_gate.needs_admin enable_recv_gate.needs_admin
      enable_send_gate.needs_admin disable_recv_gate.needs_admin disable_send_gate.needs_admin
      update_gate.needs_admin transfer_gate.needs_admin discard_gate.needs_admin)

section \<open>Changes of a configuration\<close>

text \<open>Writing a new account, or one of another type, leaves a configuration alone.\<close>

lemma config_kept:
  assumes "config_at s k = Some c"
    and "\<not> in_use s l \<or> chain_config_at s l \<noteq> None \<or> adapter_info_at s l \<noteq> None \<or>
      tracker_at s l \<noteq> None \<or> outbox_at s l \<noteq> None \<or> attestation_at s l \<noteq> None"
  shows "k \<noteq> l"
  using assms read_SomeD [OF assms(1)]
  by (auto simp: config.read_Some_iff chain_config.read_Some_iff adapter_account.read_Some_iff
      tracker.read_Some_iff outbox.read_Some_iff attestation.read_Some_iff)

context adapter_direction
begin

lemma enable_keeps_config:
  assumes "bitmaps_crate P" "enable P acs args s = Ok s'" "config_at s k = Some c"
  shows "config_at s' k = Some c"
proof -
  have "\<not> in_use s (key (en_integrator_chain_config acs)) \<or>
      chain_config_at s (key (en_integrator_chain_config acs)) \<noteq> None"
    using assms(2) unfolding enable_eq_Ok [OF assms(1)]
    by (auto simp: enable_adapter_try_accounts_eq_Ok)
  then have "k \<noteq> key (en_integrator_chain_config acs)"
    using config_kept [OF assms(3)] by blast
  then show ?thesis
    using assms(2,3) unfolding enable_eq_Ok [OF assms(1)] Let_def by (auto simp: read_simps)
qed

lemma disable_keeps_config:
  assumes "bitmaps_crate P" "disable P acs args s = Ok s'" "config_at s k = Some c"
  shows "config_at s' k = Some c"
proof -
  have "chain_config_at s (key (ds_integrator_chain_config acs)) \<noteq> None"
    using assms(2) unfolding disable_eq_Ok [OF assms(1)]
    by (auto simp: disable_adapter_try_accounts_eq_Ok)
  then have "k \<noteq> key (ds_integrator_chain_config acs)"
    using config_kept [OF assms(3)] by blast
  then show ?thesis
    using assms(2,3) unfolding disable_eq_Ok [OF assms(1)] by (auto simp: read_simps)
qed

end

lemma register_keeps_config:
  assumes "register P acs args s = Ok s'" "config_at s k = Some c"
  shows "config_at s' k = Some c"
  using assms config_kept [OF assms(2)] by (auto simp: register_eq_Ok read_simps)

lemma send_message_keeps_config:
  assumes "send_message P acs args s = Ok s'" "config_at s k = Some c"
  shows "config_at s' k = Some c"
  using assms config_kept [OF assms(2)]
  by (auto simp: send_message_eq_Ok send_message_try_accounts_eq_Ok read_simps)

lemma pick_up_message_keeps_config:
  assumes "bitmaps_crate P" "pick_up_message P acs args s = Ok s'" "config_at s k = Some c"
  shows "config_at s' k = Some c"
proof -
  have "outbox_at s (key (pu_outbox_message acs)) \<noteq> None"
    using assms(2) unfolding bitmaps_crate.pick_up_message_eq_Ok [OF assms(1)]
    by (auto simp: pick_up_message_try_accounts_eq_Ok)
  then have "k \<noteq> key (pu_outbox_message acs)"
    using config_kept [OF assms(3)] by blast
  then show ?thesis
    by (rule_tac bitmaps_crate.pick_up_message_OkE [OF assms(1,2)])
      (simp_all add: read_simps assms(3))
qed

lemma attest_message_keeps_config:
  assumes "bitmaps_crate P" "attest_message P acs args s = Ok s'" "config_at s k = Some c"
  shows "config_at s' k = Some c"
proof -
  have "\<not> in_use s (key (am_attestation_info acs)) \<or>
      attestation_at s (key (am_attestation_info acs)) \<noteq> None"
    using assms(2) unfolding bitmaps_crate.attest_message_eq_Ok [OF assms(1)]
    by (auto simp: attest_message_try_accounts_eq_Ok)
  then have "k \<noteq> key (am_attestation_info acs)"
    using config_kept [OF assms(3)] by blast
  then show ?thesis
    by (rule_tac bitmaps_crate.attest_message_OkE [OF assms(1,2)])
      (simp add: read_simps assms(3))
qed

lemma exec_message_keeps_config:
  assumes "exec_message P acs args s = Ok s'" "config_at s k = Some c"
  shows "config_at s' k = Some c"
proof -
  have "\<not> in_use s (key (em_attestation_info acs)) \<or>
      attestation_at s (key (em_attestation_info acs)) \<noteq> None"
    using assms(1) unfolding exec_message_eq_Ok
    by (auto simp: exec_message_try_accounts_eq_Ok)
  then have "k \<noteq> key (em_attestation_info acs)"
    using config_kept [OF assms(2)] by blast
  then show ?thesis
    using assms by (auto simp: exec_message_eq_Ok read_simps)
qed

lemma recv_message_keeps_config:
  assumes "recv_message P acs args s = Ok s'" "config_at s k = Some c"
  shows "config_at s' k = Some c"
  using assms config_kept [OF assms(2), of "key (rm_attestation_info acs)"]
  by (auto simp: recv_message_eq_Ok recv_message_try_accounts_eq_Ok read_simps)

text \<open>
  A configuration only changes by an instruction its admin signed, or when the current or
  the pending admin ends a transfer.
\<close>

lemma config_change_authority:
  assumes "bitmaps_crate P" "process P ix s = Ok s'" "config_at s k = Some c"
    and "config_at s' k \<noteq> Some c"
  shows "(\<exists>adm cfg. administers ix = Some (adm, cfg) \<and> key cfg = k \<and> is_signer adm \<and>
        ic_admin c = Some (key adm) \<and> ic_pending_admin c = None) \<or>
     (\<exists>acs. ix = Claim_Admin acs \<and> key (cl_integrator_config acs) = k \<and>
        is_signer (cl_new_admin acs) \<and> ic_pending_admin c \<noteq> None \<and>
        (ic_pending_admin c = Some (key (cl_new_admin acs)) \<or>
         ic_admin c = Some (key (cl_new_admin acs))))"
proof (cases ix)
  case (Register acs args)
  then show ?thesis using assms(2-4) register_keeps_config by fastforce
next
  case (Add_Adapter acs args)
  then have "k = key (aa_integrator_config acs)"
    using assms(2-4) config_kept [OF assms(3), of "key (aa_adapter_info acs)"]
    by (auto simp: add_adapter_eq_Ok add_adapter_try_accounts_eq_Ok read_simps split: if_splits)
  then show ?thesis using administers_needs_admin [OF _ assms(2)] assms(3) Add_Adapter by auto
next
  case (Enable_Recv_Adapter acs args)
  then show ?thesis using assms recv.enable_keeps_config [OF assms(1) _ assms(3)] by auto
next
  case (Enable_Send_Adapter acs args)
  then show ?thesis using assms send.enable_keeps_config [OF assms(1) _ assms(3)] by auto
next
  case (Disable_Recv_Adapter acs args)
  then show ?thesis using assms recv.disable_keeps_config [OF assms(1) _ assms(3)] by auto
next
  case (Disable_Send_Adapter acs args)
  then show ?thesis using assms send.disable_keeps_config [OF assms(1) _ assms(3)] by auto
next
  case (Update_Admin acs args)
  then have "k = key (up_integrator_config acs)"
    using assms(2-4) by (auto simp: update_admin_eq_Ok read_simps split: if_splits)
  then show ?thesis using administers_needs_admin [OF _ assms(2)] assms(3) Update_Admin by auto
next
  case (Transfer_Admin acs args)
  then have "k = key (tr_integrator_config acs)"
    using assms(2-4) by (auto simp: transfer_admin_eq_Ok read_simps split: if_splits)
  then show ?thesis using administers_needs_admin [OF _ assms(2)] assms(3) Transfer_Admin by auto
next
  case (Claim_Admin acs)
  then show ?thesis
    using assms(2-4)
    by (auto simp: claim_admin_eq_Ok claim_admin_try_accounts_eq_Ok read_simps split: if_splits)
next
  case (Discard_Admin acs)
  then have "k = key (di_integrator_config acs)"
    using assms(2-4) by (auto simp: discard_admin_eq_Ok read_simps split: if_splits)
  then show ?thesis using administers_needs_admin [OF _ assms(2)] assms(3) Discard_Admin by auto
next
  case (Send_Message acs args)
  then show ?thesis using assms(2-4) send_message_keeps_config by fastforce
next
  case (Pick_Up_Message acs args)
  then show ?thesis using assms(2-4) pick_up_message_keeps_config [OF assms(1)] by fastforce
next
  case (Attest_Message acs args)
  then show ?thesis using assms(2-4) attest_message_keeps_config [OF assms(1)] by fastforce
next
  case (Exec_Message acs args)
  then show ?thesis using assms(2-4) exec_message_keeps_config by fastforce
next
  case (Recv_Message acs args)
  then show ?thesis using assms(2-4) recv_message_keeps_config by fastforce
qed

end
