(* ===== verification/Config_Properties.thy ===== *)
theory Config_Properties
  imports Scenario Authority
begin

text \<open>
  Properties of registration, administration and adapter configuration: what each handler does
  on every branch, and how the handlers work together.
\<close>

section \<open>Registration\<close>

text \<open>C14. A successful \<^verbatim>\<open>register\<close> is signed by the program address of the integrator it names,
  stores a fresh configuration and a tracker at 0 at that integrator's program addresses,
  changes no other account and emits one event.\<close>

theorem register_creates:
  assumes "register P acs args s = Ok s'"
  shows "is_signer (rg_integrator_program_pda acs) \<and>
     create_program_address P (integrator_pda_seeds @ [[ra_integrator_program_pda_bump args]])
       (ra_integrator_program_id args) = Some (key (rg_integrator_program_pda acs)) \<and>
     (\<exists>kc cb kt tb. integrator_config_pda P (ra_integrator_program_id args) = (kc, cb) \<and>
        sequence_tracker_pda P (ra_integrator_program_id args) = (kt, tb) \<and>
        \<not> in_use s kc \<and> \<not> in_use s kt \<and>
        config_at s' kc = Some \<lparr>ic_bump = cb,
          ic_integrator_program_id = ra_integrator_program_id args,
          ic_admin = Some (ra_admin args), ic_pending_admin = None, ic_adapter_infos = []\<rparr> \<and>
        tracker_at s' kt = Some \<lparr>st_bump = tb,
          st_integrator_program_id = ra_integrator_program_id args, st_sequence = 0\<rparr> \<and>
        (\<forall>k. k \<noteq> kc \<and> k \<noteq> kt \<longrightarrow> accounts s' k = accounts s k)) \<and>
     events s' = events s @ [IntegratorRegistered (ra_integrator_program_id args) (ra_admin args)]"
  using assms unfolding register_eq_Ok
  by (auto simp: read_simps) (auto simp: emit_cpi_def store_def)

theorem register_creates_witness:
  "is_signer (rg_integrator_program_pda reg_accounts) \<and>
   events ledger_1 = [IntegratorRegistered the_integrator the_admin]"
  using register_creates [OF run_1] by (simp add: reg_args_def)

text \<open>C40. An integrator is registered once: in every ledger after its registration, a further
  attempt with correct accounts fails because the configuration account is in use.\<close>

theorem register_once:
  assumes "bitmaps_crate P" "reachable P T s"
    and "config_at s (fst (integrator_config_pda P (ra_integrator_program_id args))) = Some c"
    and "rtranclp (step P T) s s'"
    and "is_signer (rg_payer acs)" "is_writable (rg_payer acs)"
    and "is_signer (rg_integrator_program_pda acs)"
    and "key (rg_system_program acs) = system_program_id"
    and "key (rg_integrator_config acs) =
           fst (integrator_config_pda P (ra_integrator_program_id args))"
    and "is_writable (rg_integrator_config acs)"
    and "key (rg_payer acs) \<noteq> key (rg_integrator_config acs)"
  shows "register P acs args s' = Err AccountAlreadyInUse"
proof -
  obtain d where "view s' (key (rg_integrator_config acs)) = Some d"
    using steps_keep [OF assms(1,4) reachable_wf [OF assms(1,2)]
        view_Some_read(1) [OF assms(3)]] assms(9) by auto
  then have "in_use s' (key (rg_integrator_config acs))"
    using view_not_in_use by fastforce
  then show ?thesis
    using assms(5-11)
    by (simp add: register_def register_try_accounts_def init_pda_def constraint_seeds_def
        create_account_def integrator_config_pda_def signer_try_from_def system_try_from_def)
qed

theorem register_once_witness:
  "register sample_platform reg_accounts reg_args ledger_11 = Err AccountAlreadyInUse"
  by (rule register_once [OF sample_laws(1) scenario_reachable(11) [OF subset_UNIV], where c = "the_config [adapter_a, adapter_b]"])
    (simp_all add: scenario read_simps)

section \<open>The admin\<close>

text \<open>C21. After \<^verbatim>\<open>transfer_admin\<close>, the configuration is decided by \<^verbatim>\<open>claim_admin\<close>: the requested
  admin takes over, the current admin cancels the transfer, and everybody else is refused.\<close>

theorem transfer_then_claim:
  assumes "transfer_admin P acs args s = Ok s1"
    and "key (cl_integrator_config cacs) = key (tr_integrator_config acs)"
    and "is_signer (cl_new_admin cacs)" "is_writable (cl_integrator_config cacs)"
    and "key (cl_event_authority cacs) = event_authority P" "key (cl_program cacs) = endpoint_id"
  shows "if key (cl_new_admin cacs) = ta_new_admin args \<or>
           key (cl_new_admin cacs) = key (tr_admin acs)
     then \<exists>s2 c. claim_admin P cacs s1 = Ok s2 \<and>
       config_at s (key (tr_integrator_config acs)) = Some c \<and>
       config_at s2 (key (tr_integrator_config acs)) =
         Some (c\<lparr>ic_admin := Some (key (cl_new_admin cacs)), ic_pending_admin := None\<rparr>)
     else claim_admin P cacs s1 = Err (Endpoint_Error CallerNotAuthorized)"
proof -
  obtain c where c: "config_at s (key (tr_integrator_config acs)) = Some c"
    "ic_admin c = Some (key (tr_admin acs))"
    and s1: "config_at s1 (key (tr_integrator_config acs)) =
      Some (c\<lparr>ic_pending_admin := Some (ta_new_admin args)\<rparr>)"
    using assms(1)
    by (auto simp: transfer_admin_eq_Ok transfer_admin_try_accounts_eq_Ok read_simps)
  show ?thesis
  proof (cases "key (cl_new_admin cacs) = ta_new_admin args \<or>
      key (cl_new_admin cacs) = key (tr_admin acs)")
    case True
    then have "claim_admin_try_accounts P cacs s1 =
        Ok (c\<lparr>ic_pending_admin := Some (ta_new_admin args)\<rparr>)"
      using assms(2-5) c s1 by (auto simp: claim_admin_try_accounts_eq_Ok)
    then show ?thesis
      using True c(1) assms(2,6) by (auto simp: claim_admin_def self_cpi_def read_simps)
  next
    case False
    then show ?thesis
      using assms(2-4) c(2) s1
      by (auto simp: claim_admin_def claim_admin_try_accounts_def account_try_from_def load_data_def
          signer_try_from_def constraint_mut_def read_def split: option.splits if_splits)
  qed
qed

theorem transfer_then_claim_witness:
  "\<exists>s2 c. claim_admin sample_platform \<lparr>cl_new_admin = writable_signer next_admin,
       cl_integrator_config = writable config_key,
      cl_event_authority = writable (event_authority sample_platform),
      cl_program = writable endpoint_id\<rparr> handed_over = Ok s2 \<and>
     config_at s2 config_key = Some c \<and> ic_admin c = Some next_admin"
proof -
  let ?acs = "\<lparr>cl_new_admin = writable_signer next_admin,
    cl_integrator_config = writable config_key,
      cl_event_authority = writable (event_authority sample_platform),
      cl_program = writable endpoint_id\<rparr>"
  have "\<exists>s2 c. claim_admin sample_platform ?acs handed_over = Ok s2 \<and>
       config_at ledger_3 (key (tr_integrator_config hand_over_accounts)) = Some c \<and>
       config_at s2 (key (tr_integrator_config hand_over_accounts)) =
         Some (c\<lparr>ic_admin := Some (key (cl_new_admin ?acs)), ic_pending_admin := None\<rparr>)"
    using transfer_then_claim [OF hand_over_runs, of ?acs]
    by (simp add: hand_over_accounts_def hand_over_args_def writable_def writable_signer_def)
  then show ?thesis
    by (auto simp: hand_over_accounts_def writable_def writable_signer_def)
qed

text \<open>While a transfer is pending, none of the instructions reserved to the admin of that
  configuration succeeds, whoever signs it.\<close>

lemma pending_transfer_blocks:
  assumes "transfer_admin P acs args s = Ok s1"
    and "administers ix = Some (adm, cfg)" "key cfg = key (tr_integrator_config acs)"
  shows "\<exists>e. process P ix s1 = Err e"
proof (rule ccontr)
  assume "\<nexists>e. process P ix s1 = Err e"
  then obtain s2 where "process P ix s1 = Ok s2"
    by (cases "process P ix s1") auto
  from administers_needs_admin [OF assms(2) this] obtain c where
    "config_at s1 (key (tr_integrator_config acs)) = Some c" "ic_pending_admin c = None"
    unfolding assms(3) by blast
  with assms(1) show False
    by (auto simp: transfer_admin_eq_Ok read_simps)
qed

text \<open>C36. The event of \<^verbatim>\<open>update_admin\<close> and of \<^verbatim>\<open>claim_admin\<close> names the new admin twice: its
  \<^verbatim>\<open>old_admin\<close> is the admin after the change, so the log does not tell who was replaced.\<close>

theorem admin_updated_event_loses_old_admin:
  assumes "update_admin P acs args s = Ok s'" "claim_admin P cacs u = Ok u'"
  shows "events s' = events s @ [AdminUpdated (ua_integrator_program_id args)
           (ua_new_admin args) (ua_new_admin args)] \<and>
     (\<exists>c. config_at s (key (up_integrator_config acs)) = Some c \<and>
        ic_admin c = Some (key (up_admin acs))) \<and>
     (\<exists>c. config_at u (key (cl_integrator_config cacs)) = Some c \<and>
        events u' = events u @ [AdminUpdated (ic_integrator_program_id c)
           (key (cl_new_admin cacs)) (key (cl_new_admin cacs))])"
  using assms by (auto simp: update_admin_eq_Ok update_admin_try_accounts_eq_Ok
      claim_admin_eq_Ok claim_admin_try_accounts_eq_Ok)

theorem admin_updated_event_loses_old_admin_witness:
  "the_admin \<noteq> next_admin \<and> (\<exists>s'. update_admin sample_platform renew_accounts renew_args ledger_1 = Ok s' \<and>
     events s' = events ledger_1 @ [AdminUpdated the_integrator next_admin next_admin]) \<and>
   (\<exists>u'. claim_admin sample_platform \<lparr>cl_new_admin = writable_signer next_admin,
       cl_integrator_config = writable config_key,
      cl_event_authority = writable (event_authority sample_platform),
      cl_program = writable endpoint_id\<rparr> handed_over = Ok u' \<and>
     events u' = events handed_over @ [AdminUpdated the_integrator next_admin next_admin])"
proof -
  let ?acs = "\<lparr>cl_new_admin = writable_signer next_admin,
       cl_integrator_config = writable config_key,
      cl_event_authority = writable (event_authority sample_platform),
      cl_program = writable endpoint_id\<rparr>"
  obtain s' where upd: "update_admin sample_platform renew_accounts renew_args ledger_1 = Ok s'"
    unfolding update_admin_eq_Ok
    by (simp add: update_admin_try_accounts_eq_Ok renew_accounts_def renew_args_def scenario
        read_simps)
  obtain u' where cl: "claim_admin sample_platform ?acs handed_over = Ok u'"
    unfolding claim_admin_eq_Ok
    by (simp add: claim_admin_try_accounts_eq_Ok scenario handed_over_def read_simps)
  have "config_at handed_over config_key =
      Some ((the_config [adapter_a, adapter_b])\<lparr>ic_pending_admin := Some next_admin\<rparr>)"
    by (simp add: scenario handed_over_def read_simps)
  moreover have "the_admin \<noteq> next_admin" by code_simp
  ultimately show ?thesis
    using upd cl admin_updated_event_loses_old_admin [OF upd cl]
    by (simp add: renew_args_def writable_def writable_signer_def the_config_def)
qed

section \<open>Adapters\<close>

text \<open>C16. \<^verbatim>\<open>add_adapter\<close> on accounts that pass its constraints: refused for a caller that is not the
  admin, during an admin transfer and at 128 adapters; otherwise the adapter is appended, its
  AdapterInfo holds the position in the list as its index, and nothing else changes.\<close>

theorem add_adapter_branches:
  assumes "add_adapter_try_accounts P acs args s = Ok (s1, c, b)"
  shows "if ic_admin c \<noteq> Some (key (aa_admin acs))
       then add_adapter P acs args s = Err (Endpoint_Error CallerNotAuthorized)
     else if ic_pending_admin c \<noteq> None
       then add_adapter P acs args s = Err (Endpoint_Error AdminTransferInProgress)
     else if MAX_ADAPTERS \<le> length (ic_adapter_infos c)
       then add_adapter P acs args s = Err (Endpoint_Error MaxAdaptersReached)
     else if key (aa_program acs) \<noteq> endpoint_id then add_adapter P acs args s = Err MissingAccount
     else \<exists>s' a. add_adapter P acs args s = Ok s' \<and>
       config_at s' (key (aa_integrator_config acs)) =
         Some (c\<lparr>ic_adapter_infos := ic_adapter_infos c @ [aa_adapter_program_id args]\<rparr>) \<and>
       adapter_info_at s' (fst (adapter_info_pda P (aa_integrator_program_id args)
         (aa_adapter_program_id args))) = Some a \<and>
       ad_integrator_program_id a = aa_integrator_program_id args \<and>
       ad_adapter_program_id a = aa_adapter_program_id args \<and>
       unat (ad_index a) = length (ic_adapter_infos c) \<and>
       (\<forall>k. k \<noteq> key (aa_integrator_config acs) \<and> k \<noteq> key (aa_adapter_info acs) \<longrightarrow>
          accounts s' k = accounts s k)"
proof -
  consider "ic_admin c \<noteq> Some (key (aa_admin acs))"
    | "ic_admin c = Some (key (aa_admin acs))" "ic_pending_admin c \<noteq> None"
    | "ic_admin c = Some (key (aa_admin acs))" "ic_pending_admin c = None"
      "MAX_ADAPTERS \<le> length (ic_adapter_infos c)"
    | "ic_admin c = Some (key (aa_admin acs))" "ic_pending_admin c = None"
      "length (ic_adapter_infos c) < 128" "key (aa_program acs) \<noteq> endpoint_id"
    | "ic_admin c = Some (key (aa_admin acs))" "ic_pending_admin c = None"
      "length (ic_adapter_infos c) < 128" "key (aa_program acs) = endpoint_id"
    by (metis MAX_ADAPTERS_def not_le)
  then show ?thesis
  proof cases
    case 5
    have other: "key (aa_integrator_config acs) \<noteq> key (aa_adapter_info acs)"
      and pda: "fst (adapter_info_pda P (aa_integrator_program_id args)
         (aa_adapter_program_id args)) = key (aa_adapter_info acs)"
      using assms read_SomeD [of as_integrator_config s "key (aa_integrator_config acs)" c]
      by (auto simp: add_adapter_try_accounts_eq_Ok)
    obtain s' where "add_adapter P acs args s = Ok s'"
      using assms 5 unfolding add_adapter_eq_Ok by blast
    moreover from this assms have s': "s' =
       emit_cpi (AdapterAdded (aa_integrator_program_id args) (aa_adapter_program_id args)
          (of_nat (length (ic_adapter_infos c))))
         (store (key (aa_adapter_info acs)) (Adapter_Info_Data
            \<lparr>ad_bump = b, ad_integrator_program_id = aa_integrator_program_id args,
             ad_adapter_program_id = aa_adapter_program_id args,
             ad_index = of_nat (length (ic_adapter_infos c))\<rparr>)
         (store (key (aa_integrator_config acs)) (Integrator_Config_Data
            (c\<lparr>ic_adapter_infos := ic_adapter_infos c @ [aa_adapter_program_id args]\<rparr>)) s))"
      by (auto simp: add_adapter_eq_Ok)
    ultimately show ?thesis
      using 5 other by (simp add: read_simps pda MAX_ADAPTERS_def unat_of_nat)
        (simp add: emit_cpi_def store_def)
  qed (use assms in \<open>auto simp: add_adapter_def add_adapter_validate_def check_admin_branches
    config_add_adapter_def MAX_ADAPTERS_def self_cpi_branches Let_def\<close>)
qed

theorem add_adapter_branches_witness:
  "\<exists>s' a. add_adapter sample_platform (add_accounts adapter_b) (add_args adapter_b) ledger_2 = Ok s' \<and>
     adapter_info_at s' (adapter_key adapter_b) = Some a \<and> unat (ad_index a) = 1"
proof -
  have "add_adapter_try_accounts sample_platform (add_accounts adapter_b) (add_args adapter_b)
      ledger_2 = Ok (store (adapter_key adapter_b) Zero_Data ledger_2, the_config [adapter_a], 255)"
    by (simp add: add_adapter_try_accounts_eq_Ok scenario read_simps)
  from add_adapter_branches [OF this] show ?thesis
    by (auto simp: the_config_def add_accounts_def add_args_def writable_signer_def writable_def
        MAX_ADAPTERS_def scenario_find)
qed

text \<open>C17. \<^verbatim>\<open>enable_recv_adapter\<close> on accounts that pass its constraints, with every error in the order
  the code checks it. When the chain is new, the configuration it leaves names the integrator, the
  chain and the address's bump, sends to no adapter and receives from this one only; when the
  chain is configured already, the adapter's bit is added to the receive bitmap and the rest
  stays. No other account changes, and one event is emitted.\<close>

theorem enable_recv_adapter_branches:
  assumes "bitmaps_crate P" "enable_adapter_try_accounts P acs args s = Ok (s1, c, a, cc, b)"
    and k: "k = key (en_integrator_chain_config acs)"
    and receiving: "receiving = (case chain_config_at s k of None \<Rightarrow> {}
      | Some old \<Rightarrow> if cc_chain_id old = 0 then {} else adapters_of (cc_recv_adapter_bitmap old))"
  shows "if ic_admin c \<noteq> Some (key (en_admin acs))
       then enable_recv_adapter P acs args s = Err (Endpoint_Error CallerNotAuthorized)
     else if ic_pending_admin c \<noteq> None
       then enable_recv_adapter P acs args s = Err (Endpoint_Error AdminTransferInProgress)
     else if aia_chain_id args = 0
       then enable_recv_adapter P acs args s = Err (Endpoint_Error InvalidChainId)
     else if 128 \<le> unat (ad_index a)
       then enable_recv_adapter P acs args s = Err (Endpoint_Error BitmapIndexOutOfBounds)
     else if unat (ad_index a) \<in> receiving
       then enable_recv_adapter P acs args s = Err (Endpoint_Error AdapterAlreadyEnabled)
     else if key (en_program acs) \<noteq> endpoint_id
       then enable_recv_adapter P acs args s = Err MissingAccount
     else \<exists>s' new. enable_recv_adapter P acs args s = Ok s' \<and> chain_config_at s' k = Some new \<and>
       adapters_of (cc_recv_adapter_bitmap new) = insert (unat (ad_index a)) receiving \<and>
       (\<forall>old. chain_config_at s k = Some old \<and> cc_chain_id old \<noteq> 0 \<longrightarrow>
          new = old\<lparr>cc_recv_adapter_bitmap := cc_recv_adapter_bitmap new\<rparr>) \<and>
       ((\<forall>old. chain_config_at s k = Some old \<longrightarrow> cc_chain_id old = 0) \<longrightarrow>
          cc_integrator_program_id new = aia_integrator_program_id args \<and>
          cc_chain_id new = aia_chain_id args \<and>
          find_program_address P (integrator_chain_config_seeds (aia_integrator_program_id args)
            (aia_chain_id args)) endpoint_id = (k, cc_bump new) \<and>
          adapters_of (cc_send_adapter_bitmap new) = {}) \<and>
       (\<forall>l. l \<noteq> k \<longrightarrow> accounts s' l = accounts s l) \<and>
       events s' = events s @ [RecvAdapterEnabledForChain (aia_integrator_program_id args)
         (aia_chain_id args) (aia_adapter_program_id args)]"
proof -
  let ?cc = "initial_chain_config args b cc" and ?i = "unat (ad_index a)"
  note acc = assms(2) [unfolded enable_adapter_try_accounts_eq_Ok]
  have pda: "find_program_address P (integrator_chain_config_seeds (aia_integrator_program_id args)
      (aia_chain_id args)) endpoint_id = (k, b)"
    using acc by (simp add: k integrator_chain_config_pda_def)
  have stored: "chain_config_at s k = None \<and> cc = zero_chain_config \<or> chain_config_at s k = Some cc"
    using acc read_not_in_use by (auto simp: k)
  then have old: "adapters_of (cc_recv_adapter_bitmap ?cc) = receiving"
    by (auto simp: receiving initial_chain_config_def zero_chain_config_def)
  note branches = recv.enable_branches [OF assms(1,2), unfolded Let_def old, folded k]
  let ?s' = "emit_cpi (RecvAdapterEnabledForChain (aia_integrator_program_id args)
       (aia_chain_id args) (aia_adapter_program_id args)) (store k (Chain_Config_Data
         (?cc\<lparr>cc_recv_adapter_bitmap := with_adapter ?i (cc_recv_adapter_bitmap ?cc)\<rparr>)) s)"
  have frame: "accounts ?s' l = accounts s l" if "l \<noteq> k" for l
    using that by (simp add: emit_cpi_def store_def)
  show ?thesis
    using branches stored pda old frame
    by (auto simp: read_simps initial_chain_config_def zero_chain_config_def)
qed

theorem enable_recv_adapter_branches_witness:
  "(\<exists>s' new. enable_recv_adapter sample_platform (enable_accounts adapter_b) (chain_args adapter_b)
      ledger_3 = Ok s' \<and> chain_config_at s' chain_key = Some new \<and>
      adapters_of (cc_recv_adapter_bitmap new) = {1} \<and> adapters_of (cc_send_adapter_bitmap new) = {} \<and>
      cc_chain_id new = aia_chain_id (chain_args adapter_b)) \<and>
   enable_recv_adapter sample_platform (enable_accounts adapter_a) (chain_args adapter_a) ledger_6 =
     Err (Endpoint_Error AdapterAlreadyEnabled)"
proof
  have "enable_adapter_try_accounts sample_platform (enable_accounts adapter_b)
      (chain_args adapter_b) ledger_3 = Ok (store chain_key Zero_Data ledger_3,
        the_config [adapter_a, adapter_b], the_adapter adapter_b 1, zero_chain_config, 255)"
    by (simp add: enable_adapter_try_accounts_eq_Ok scenario read_simps)
  moreover have "chain_config_at ledger_3 chain_key = None"
    by (simp add: scenario read_simps)
  ultimately show "\<exists>s' new. enable_recv_adapter sample_platform (enable_accounts adapter_b)
      (chain_args adapter_b) ledger_3 = Ok s' \<and> chain_config_at s' chain_key = Some new \<and>
      adapters_of (cc_recv_adapter_bitmap new) = {1} \<and> adapters_of (cc_send_adapter_bitmap new) = {} \<and>
      cc_chain_id new = aia_chain_id (chain_args adapter_b)"
    using enable_recv_adapter_branches [OF sample_laws(1), of "enable_accounts adapter_b"
        "chain_args adapter_b" ledger_3 _ _ _ _ _ chain_key "{}"]
    by (fastforce simp: the_config_def the_adapter_def enable_accounts_def chain_args_def
        writable_def writable_signer_def)
next
  have "enable_adapter_try_accounts sample_platform (enable_accounts adapter_a)
      (chain_args adapter_a) ledger_6 =
      Ok (ledger_6, the_config [adapter_a, adapter_b], the_adapter adapter_a 0, the_chain 3 1, 255)"
    "chain_config_at ledger_6 chain_key = Some (the_chain 3 1)"
    by (simp_all add: enable_adapter_try_accounts_eq_Ok scenario read_simps)
  with enable_recv_adapter_branches [OF sample_laws(1), of "enable_accounts adapter_a"
      "chain_args adapter_a" ledger_6 _ _ _ _ _ chain_key "{0}"]
  show "enable_recv_adapter sample_platform (enable_accounts adapter_a) (chain_args adapter_a)
      ledger_6 = Err (Endpoint_Error AdapterAlreadyEnabled)"
    by (simp add: the_config_def the_adapter_def the_chain_def enable_accounts_def chain_args_def
        writable_def writable_signer_def scenario_bits)
qed

text \<open>C18. \<^verbatim>\<open>disable_send_adapter\<close> on accounts that pass its constraints: every error in the order the
  code checks it; otherwise the adapter's bit is cleared in the send bitmap, the receive bitmap
  stays, and one event is emitted.\<close>

theorem disable_send_adapter_branches:
  assumes "bitmaps_crate P" "disable_adapter_try_accounts P acs args s = Ok (c, cc, a)"
  shows "disable_send_adapter P acs args s =
     (let i = unat (ad_index a) in
      if ic_admin c \<noteq> Some (key (ds_admin acs)) then Err (Endpoint_Error CallerNotAuthorized)
      else if ic_pending_admin c \<noteq> None then Err (Endpoint_Error AdminTransferInProgress)
      else if 128 \<le> i then Err (Endpoint_Error BitmapIndexOutOfBounds)
      else if i \<notin> adapters_of (cc_send_adapter_bitmap cc)
      then Err (Endpoint_Error AdapterAlreadyDisabled)
      else if key (ds_program acs) \<noteq> endpoint_id then Err MissingAccount
      else Ok (emit_cpi (SendAdapterDisabledForChain (aia_integrator_program_id args)
                           (aia_chain_id args) (aia_adapter_program_id args))
             (store (key (ds_integrator_chain_config acs)) (Chain_Config_Data
                (cc\<lparr>cc_send_adapter_bitmap :=
                   without_adapter i (cc_send_adapter_bitmap cc)\<rparr>)) s)))"
  using send.disable_branches [OF assms] .

theorem disable_send_adapter_branches_witness:
  "\<exists>s'. disable_send_adapter sample_platform (disable_accounts adapter_a) (chain_args adapter_a)
      ledger_6 = Ok s' \<and> chain_config_at s' chain_key = Some (the_chain 2 1)"
proof -
  have "disable_adapter_try_accounts sample_platform (disable_accounts adapter_a)
      (chain_args adapter_a) ledger_6 =
      Ok (the_config [adapter_a, adapter_b], the_chain 3 1, the_adapter adapter_a 0)"
    by (simp add: disable_adapter_try_accounts_eq_Ok scenario read_simps)
  from disable_send_adapter_branches [OF sample_laws(1) this] show ?thesis
    by (simp add: the_config_def the_adapter_def the_chain_def disable_accounts_def
        chain_args_def writable_signer_def writable_def scenario_bits scenario_bitmaps read_simps)
qed

text \<open>C19. Enabling an adapter for a configured chain and disabling it again leaves the chain's
  configuration as it was, for sending and for receiving.\<close>

theorem enable_disable_round_trip:
  assumes "bitmaps_crate P"
    and "chain_config_at s (key (en_integrator_chain_config acs)) = Some cc" "cc_chain_id cc \<noteq> 0"
    and "key (ds_admin dacs) = key (en_admin acs)"
      "key (ds_integrator_config dacs) = key (en_integrator_config acs)"
      "key (ds_integrator_chain_config dacs) = key (en_integrator_chain_config acs)"
      "key (ds_adapter_info dacs) = key (en_adapter_info acs)"
      "key (ds_event_authority dacs) = key (en_event_authority acs)"
      "key (ds_program dacs) = key (en_program acs)"
      "is_signer (ds_admin dacs)" "is_writable (ds_integrator_chain_config dacs)"
  shows "(enable_send_adapter P acs args s = Ok s1 \<longrightarrow>
       (\<exists>s2. disable_send_adapter P dacs args s1 = Ok s2 \<and>
          chain_config_at s2 (key (en_integrator_chain_config acs)) = Some cc)) \<and>
     (enable_recv_adapter P acs args s = Ok s1 \<longrightarrow>
       (\<exists>s2. disable_recv_adapter P dacs args s1 = Ok s2 \<and>
          chain_config_at s2 (key (en_integrator_chain_config acs)) = Some cc))"
  using send.enable_then_disable [OF assms(1) _ assms(2-)]
    recv.enable_then_disable [OF assms(1) _ assms(2-)] by blast

theorem enable_disable_round_trip_witness:
  "(\<exists>s2. disable_send_adapter sample_platform (disable_accounts adapter_b) (chain_args adapter_b)
      ledger_5 = Ok s2 \<and> chain_config_at s2 chain_key = Some (the_chain 1 0)) \<and>
   (\<exists>s2. disable_recv_adapter sample_platform (disable_accounts adapter_a) (chain_args adapter_a)
      ledger_6 = Ok s2 \<and> chain_config_at s2 chain_key = Some (the_chain 3 0))"
proof -
  have keys: "key (en_integrator_chain_config (enable_accounts adapter_a)) = chain_key"
    "key (en_integrator_chain_config (enable_accounts adapter_b)) = chain_key"
    by (simp_all add: scenario)
  have "\<exists>s2. disable_send_adapter sample_platform (disable_accounts adapter_b)
      (chain_args adapter_b) ledger_5 = Ok s2 \<and>
      chain_config_at s2 (key (en_integrator_chain_config (enable_accounts adapter_b))) =
        Some (the_chain 1 0)"
    by (rule enable_disable_round_trip [OF sample_laws(1), THEN conjunct1, rule_format, OF _ _ _ _
          _ _ _ _ _ _ run_5]) (simp_all add: scenario read_simps)
  moreover have "\<exists>s2. disable_recv_adapter sample_platform (disable_accounts adapter_a)
      (chain_args adapter_a) ledger_6 = Ok s2 \<and>
      chain_config_at s2 (key (en_integrator_chain_config (enable_accounts adapter_a))) =
        Some (the_chain 3 0)"
    by (rule enable_disable_round_trip [OF sample_laws(1), THEN conjunct2, rule_format, OF _ _ _ _
          _ _ _ _ _ _ run_6]) (simp_all add: scenario read_simps)
  ultimately show ?thesis unfolding keys by blast
qed

end
