(* ===== verification/Cpi.thy ===== *)
theory Cpi
  imports Ledger
begin

text \<open>
  Cross-program invocation, as the two mock programs use it: the accounts a caller passes on,
  the rights the callee's account struct asks for, and the program addresses the caller signs
  for with \<^verbatim>\<open>with_signer\<close>.
\<close>

text \<open>\<^verbatim>\<open>SystemAccount\<close>: owned by the system program.\<close>

definition system_account_try_from :: "ledger \<Rightarrow> account_meta \<Rightarrow> unit result" where
  "system_account_try_from s ai =
     require (owner_of s (key ai) = system_program_id) (Anchor_Error AccountNotSystemOwned)"

text \<open>\<^verbatim>\<open>Program<Endpoint>\<close>.\<close>

definition endpoint_try_from :: "account_meta \<Rightarrow> unit result" where
  "endpoint_try_from ai = require (key ai = endpoint_id) (Anchor_Error InvalidProgramId)"

text \<open>\<^verbatim>\<open>seeds = .., bump, seeds::program = prog\<close>; without \<^verbatim>\<open>seeds::program\<close>, the running program.\<close>

definition constraint_program_seeds ::
  "'bm platform \<Rightarrow> seeds \<Rightarrow> pubkey \<Rightarrow> account_meta \<Rightarrow> u8 result" where
  "constraint_program_seeds P sds prog ai =
     and_then (require (key ai = fst (find_program_address P sds prog))
                 (Anchor_Error ConstraintSeeds)) (\<lambda>_.
     Ok (snd (find_program_address P sds prog)))"

text \<open>
  One account of a call: the callee's struct asks for a signature (\<open>sig\<close>) or for write access
  (\<open>wr\<close>); the runtime lets the caller pass on only what it holds or signs for itself.
\<close>

definition pass_on :: "pubkey option \<Rightarrow> bool \<Rightarrow> bool \<Rightarrow> account_meta \<Rightarrow> account_meta result" where
  "pass_on signing sig wr ai =
     and_then (require ((sig \<longrightarrow> is_signer ai \<or> signing = Some (key ai)) \<and>
                        (wr \<longrightarrow> is_writable ai)) PrivilegeEscalation) (\<lambda>_.
     Ok \<lparr>key = key ai, is_signer = sig, is_writable = wr\<rparr>)"

text \<open>The meta the callee sees.\<close>

definition passed :: "bool \<Rightarrow> bool \<Rightarrow> account_meta \<Rightarrow> account_meta" where
  "passed sig wr ai = \<lparr>key = key ai, is_signer = sig, is_writable = wr\<rparr>"

lemma pass_on_ok [simp]:
  "sig \<longrightarrow> is_signer ai \<or> signing = Some (key ai) \<Longrightarrow> wr \<longrightarrow> is_writable ai \<Longrightarrow>
   pass_on signing sig wr ai = Ok (passed sig wr ai)"
  by (simp add: pass_on_def passed_def)

lemma system_account_try_from_eq_Ok [ok_iff]:
  "system_account_try_from s ai = Ok u \<longleftrightarrow> owner_of s (key ai) = system_program_id"
  by (simp add: system_account_try_from_def ok_iff)

lemma endpoint_try_from_eq_Ok [ok_iff]: "endpoint_try_from ai = Ok u \<longleftrightarrow> key ai = endpoint_id"
  by (simp add: endpoint_try_from_def ok_iff)

lemma constraint_program_seeds_eq_Ok [ok_iff]:
  "constraint_program_seeds P sds prog ai = Ok b \<longleftrightarrow>
     find_program_address P sds prog = (key ai, b)"
  by (auto simp: constraint_program_seeds_def ok_iff prod_eq_iff)

text \<open>With the bump that \<^verbatim>\<open>find_program_address\<close> found, a program signs for that address.\<close>

lemma signs_for_found:
  assumes "program_addresses P" "find_program_address P sds prog = (k, b)"
  shows "create_program_address P (sds @ [[b]]) prog = Some k"
  using program_addresses.find_create [OF assms(1), of sds prog] assms(2) by simp

end
