(* ===== verification/Mock_Integrator.thy ===== *)
theory Mock_Integrator
  imports Cpi Register Outbound Inbound
begin

text \<open>
  \<^verbatim>\<open>svm/programs/mock-integrator/src/lib.rs\<close>: an integrator program. Each instruction checks its
  own accounts and calls the endpoint, signing for its program address
  \<^verbatim>\<open>[b"endpoint_integrator"]\<close>.
\<close>

text \<open>\<^verbatim>\<open>declare_id!("661Ly6gSCDiGWzC4tKJhS8tqXNWJU6yfbhxNKC4gPF5t")\<close>.\<close>

definition mock_integrator_id :: pubkey where
  "mock_integrator_id = Pubkey (pad32
     [75, 146, 186, 89, 252, 247, 41, 172, 156, 190, 194, 83, 134, 57, 103, 203,
      85, 1, 251, 244, 103, 2, 161, 163, 240, 75, 27, 206, 9, 165, 83, 147])"

text \<open>\<^verbatim>\<open>signer_seeds\<close> with the bump of the accounts struct: the address the program signs for.\<close>

definition integrator_signs :: "'bm platform \<Rightarrow> u8 \<Rightarrow> pubkey option" where
  "integrator_signs P bump =
     create_program_address P (integrator_pda_seeds @ [[bump]]) mock_integrator_id"

section \<open>invoke\_register\<close>

record invoke_register_accounts =
  ir_payer :: account_meta
  ir_integrator_config :: account_meta
  ir_sequence_tracker :: account_meta
  ir_integrator_program_pda :: account_meta
  ir_event_authority :: account_meta
  ir_program :: account_meta
  ir_system_program :: account_meta
  ir_endpoint_program :: account_meta

definition invoke_register_try_accounts ::
  "'bm platform \<Rightarrow> invoke_register_accounts \<Rightarrow> ledger \<Rightarrow> u8 result" where
  "invoke_register_try_accounts P acs s =
     and_then (signer_try_from (ir_payer acs)) (\<lambda>_.
     and_then (system_account_try_from s (ir_integrator_program_pda acs)) (\<lambda>_.
     and_then (system_try_from (ir_system_program acs)) (\<lambda>_.
     and_then (endpoint_try_from (ir_endpoint_program acs)) (\<lambda>_.
     and_then (constraint_mut (ir_payer acs)) (\<lambda>_.
     and_then (constraint_mut (ir_integrator_config acs)) (\<lambda>_.
     and_then (constraint_mut (ir_sequence_tracker acs)) (\<lambda>_.
     and_then (constraint_program_seeds P integrator_pda_seeds mock_integrator_id
                 (ir_integrator_program_pda acs)) (\<lambda>bump.
     and_then (constraint_program_seeds P event_authority_seeds endpoint_id
                 (ir_event_authority acs)) (\<lambda>_.
     Ok bump)))))))))"

text \<open>The \<^verbatim>\<open>CpiContext\<close> helper and the rights \<^verbatim>\<open>endpoint::cpi::accounts::Register\<close> asks for.\<close>

definition invoke_register_context ::
  "pubkey option \<Rightarrow> invoke_register_accounts \<Rightarrow> register_accounts result" where
  "invoke_register_context signing acs =
     and_then (pass_on signing True True (ir_payer acs)) (\<lambda>payer.
     and_then (pass_on signing False True (ir_integrator_config acs)) (\<lambda>integrator_config.
     and_then (pass_on signing False True (ir_sequence_tracker acs)) (\<lambda>sequence_tracker.
     and_then (pass_on signing True False (ir_integrator_program_pda acs)) (\<lambda>pda.
     and_then (pass_on signing False False (ir_system_program acs)) (\<lambda>system_program.
     and_then (pass_on signing False False (ir_event_authority acs)) (\<lambda>event_authority.
     and_then (pass_on signing False False (ir_program acs)) (\<lambda>program.
     Ok \<lparr>rg_payer = payer, rg_integrator_config = integrator_config,
         rg_sequence_tracker = sequence_tracker, rg_integrator_program_pda = pda,
         rg_system_program = system_program,
         rg_event_authority = event_authority, rg_program = program\<rparr>)))))))"

definition invoke_register ::
  "'bm platform \<Rightarrow> invoke_register_accounts \<Rightarrow> pubkey \<Rightarrow> ledger \<Rightarrow> ledger result" where
  "invoke_register P acs admin s =
     and_then (invoke_register_try_accounts P acs s) (\<lambda>bump.
     and_then (invoke_register_context (integrator_signs P bump) acs) (\<lambda>cpi.
     register P cpi \<lparr>ra_integrator_program_id = mock_integrator_id,
       ra_integrator_program_pda_bump = bump, ra_admin = admin\<rparr> s))"

section \<open>invoke\_send\_message\<close>

record invoke_send_message_args =
  iz_dst_chain :: u16
  iz_dst_addr :: universal_address
  iz_payload_hash :: bytes32

record invoke_send_message_accounts =
  iz_payer :: account_meta
  iz_integrator_program_pda :: account_meta
  iz_integrator_chain_config :: account_meta
  iz_outbox_message :: account_meta
  iz_sequence_tracker :: account_meta
  iz_event_authority :: account_meta
  iz_program :: account_meta
  iz_endpoint_program :: account_meta
  iz_system_program :: account_meta

definition invoke_send_message_try_accounts ::
  "'bm platform \<Rightarrow> invoke_send_message_accounts \<Rightarrow> ledger \<Rightarrow> u8 result" where
  "invoke_send_message_try_accounts P acs s =
     and_then (signer_try_from (iz_payer acs)) (\<lambda>_.
     and_then (system_account_try_from s (iz_integrator_program_pda acs)) (\<lambda>_.
     and_then (signer_try_from (iz_outbox_message acs)) (\<lambda>_.
     and_then (endpoint_try_from (iz_endpoint_program acs)) (\<lambda>_.
     and_then (system_try_from (iz_system_program acs)) (\<lambda>_.
     and_then (constraint_mut (iz_payer acs)) (\<lambda>_.
     and_then (constraint_program_seeds P integrator_pda_seeds mock_integrator_id
                 (iz_integrator_program_pda acs)) (\<lambda>bump.
     and_then (constraint_mut (iz_integrator_chain_config acs)) (\<lambda>_.
     and_then (constraint_mut (iz_outbox_message acs)) (\<lambda>_.
     and_then (constraint_mut (iz_sequence_tracker acs)) (\<lambda>_.
     and_then (constraint_program_seeds P event_authority_seeds endpoint_id
                 (iz_event_authority acs)) (\<lambda>_.
     Ok bump)))))))))))"

definition invoke_send_message_context ::
  "pubkey option \<Rightarrow> invoke_send_message_accounts \<Rightarrow> send_message_accounts result" where
  "invoke_send_message_context signing acs =
     and_then (pass_on signing True True (iz_payer acs)) (\<lambda>payer.
     and_then (pass_on signing True False (iz_integrator_program_pda acs)) (\<lambda>pda.
     and_then (pass_on signing False False (iz_integrator_chain_config acs)) (\<lambda>chain_config.
     and_then (pass_on signing False True (iz_sequence_tracker acs)) (\<lambda>sequence_tracker.
     and_then (pass_on signing True True (iz_outbox_message acs)) (\<lambda>outbox_message.
     and_then (pass_on signing False False (iz_system_program acs)) (\<lambda>system_program.
     and_then (pass_on signing False False (iz_event_authority acs)) (\<lambda>event_authority.
     and_then (pass_on signing False False (iz_program acs)) (\<lambda>program.
     Ok \<lparr>sm_payer = payer, sm_integrator_program_pda = pda,
         sm_integrator_chain_config = chain_config, sm_sequence_tracker = sequence_tracker,
         sm_outbox_message = outbox_message, sm_system_program = system_program,
         sm_event_authority = event_authority, sm_program = program\<rparr>))))))))"

definition invoke_send_message ::
  "'bm platform \<Rightarrow> invoke_send_message_accounts \<Rightarrow> invoke_send_message_args \<Rightarrow> ledger \<Rightarrow>
     ledger result" where
  "invoke_send_message P acs args s =
     and_then (invoke_send_message_try_accounts P acs s) (\<lambda>bump.
     and_then (invoke_send_message_context (integrator_signs P bump) acs) (\<lambda>cpi.
     send_message P cpi \<lparr>sm_integrator_program_id = mock_integrator_id,
       sm_integrator_program_pda_bump = bump, sm_dst_chain = iz_dst_chain args,
       sm_dst_addr = iz_dst_addr args, sm_payload_hash = iz_payload_hash args\<rparr> s))"

section \<open>invoke\_recv\_message\<close>

record invoke_recv_message_accounts =
  iv_payer :: account_meta
  iv_integrator_program_pda :: account_meta
  iv_attestation_info :: account_meta
  iv_integrator_chain_config :: account_meta
  iv_event_authority :: account_meta
  iv_program :: account_meta
  iv_system_program :: account_meta
  iv_endpoint_program :: account_meta

definition invoke_recv_message_try_accounts ::
  "'bm platform \<Rightarrow> invoke_recv_message_accounts \<Rightarrow> ledger \<Rightarrow> u8 result" where
  "invoke_recv_message_try_accounts P acs s =
     and_then (signer_try_from (iv_payer acs)) (\<lambda>_.
     and_then (system_account_try_from s (iv_integrator_program_pda acs)) (\<lambda>_.
     and_then (system_try_from (iv_system_program acs)) (\<lambda>_.
     and_then (endpoint_try_from (iv_endpoint_program acs)) (\<lambda>_.
     and_then (constraint_mut (iv_payer acs)) (\<lambda>_.
     and_then (constraint_program_seeds P integrator_pda_seeds mock_integrator_id
                 (iv_integrator_program_pda acs)) (\<lambda>bump.
     and_then (constraint_mut (iv_attestation_info acs)) (\<lambda>_.
     and_then (constraint_program_seeds P event_authority_seeds endpoint_id
                 (iv_event_authority acs)) (\<lambda>_.
     Ok bump))))))))"

definition invoke_recv_message_context ::
  "pubkey option \<Rightarrow> invoke_recv_message_accounts \<Rightarrow> recv_message_accounts result" where
  "invoke_recv_message_context signing acs =
     and_then (pass_on signing True True (iv_payer acs)) (\<lambda>payer.
     and_then (pass_on signing True False (iv_integrator_program_pda acs)) (\<lambda>pda.
     and_then (pass_on signing False False (iv_integrator_chain_config acs)) (\<lambda>chain_config.
     and_then (pass_on signing False True (iv_attestation_info acs)) (\<lambda>attestation_info.
     and_then (pass_on signing False False (iv_system_program acs)) (\<lambda>system_program.
     and_then (pass_on signing False False (iv_event_authority acs)) (\<lambda>event_authority.
     and_then (pass_on signing False False (iv_program acs)) (\<lambda>program.
     Ok \<lparr>rm_payer = payer, rm_integrator_program_pda = pda,
         rm_integrator_chain_config = chain_config, rm_attestation_info = attestation_info,
         rm_system_program = system_program,
         rm_event_authority = event_authority, rm_program = program\<rparr>)))))))"

definition invoke_recv_message ::
  "'bm platform \<Rightarrow> invoke_recv_message_accounts \<Rightarrow> recv_message_args \<Rightarrow> ledger \<Rightarrow>
     ledger result" where
  "invoke_recv_message P acs args s =
     and_then (invoke_recv_message_try_accounts P acs s) (\<lambda>bump.
     and_then (invoke_recv_message_context (integrator_signs P bump) acs) (\<lambda>cpi.
     recv_message P cpi args s))"

section \<open>invoke\_exec\_message\<close>

record invoke_exec_message_accounts =
  ie_payer :: account_meta
  ie_integrator_program_pda :: account_meta
  ie_attestation_info :: account_meta
  ie_event_authority :: account_meta
  ie_program :: account_meta
  ie_system_program :: account_meta
  ie_endpoint_program :: account_meta

definition invoke_exec_message_try_accounts ::
  "'bm platform \<Rightarrow> invoke_exec_message_accounts \<Rightarrow> ledger \<Rightarrow> u8 result" where
  "invoke_exec_message_try_accounts P acs s =
     and_then (signer_try_from (ie_payer acs)) (\<lambda>_.
     and_then (system_account_try_from s (ie_integrator_program_pda acs)) (\<lambda>_.
     and_then (system_try_from (ie_system_program acs)) (\<lambda>_.
     and_then (endpoint_try_from (ie_endpoint_program acs)) (\<lambda>_.
     and_then (constraint_mut (ie_payer acs)) (\<lambda>_.
     and_then (constraint_program_seeds P integrator_pda_seeds mock_integrator_id
                 (ie_integrator_program_pda acs)) (\<lambda>bump.
     and_then (constraint_mut (ie_attestation_info acs)) (\<lambda>_.
     and_then (constraint_program_seeds P event_authority_seeds endpoint_id
                 (ie_event_authority acs)) (\<lambda>_.
     Ok bump))))))))"

definition invoke_exec_message_context ::
  "pubkey option \<Rightarrow> invoke_exec_message_accounts \<Rightarrow> exec_message_accounts result" where
  "invoke_exec_message_context signing acs =
     and_then (pass_on signing True True (ie_payer acs)) (\<lambda>payer.
     and_then (pass_on signing True False (ie_integrator_program_pda acs)) (\<lambda>pda.
     and_then (pass_on signing False True (ie_attestation_info acs)) (\<lambda>attestation_info.
     and_then (pass_on signing False False (ie_system_program acs)) (\<lambda>system_program.
     and_then (pass_on signing False False (ie_event_authority acs)) (\<lambda>event_authority.
     and_then (pass_on signing False False (ie_program acs)) (\<lambda>program.
     Ok \<lparr>em_payer = payer, em_integrator_program_pda = pda,
         em_attestation_info = attestation_info, em_system_program = system_program,
         em_event_authority = event_authority, em_program = program\<rparr>))))))"

definition invoke_exec_message ::
  "'bm platform \<Rightarrow> invoke_exec_message_accounts \<Rightarrow> exec_message_args \<Rightarrow> ledger \<Rightarrow>
     ledger result" where
  "invoke_exec_message P acs args s =
     and_then (invoke_exec_message_try_accounts P acs s) (\<lambda>bump.
     and_then (invoke_exec_message_context (integrator_signs P bump) acs) (\<lambda>cpi.
     exec_message P cpi args s))"

section \<open>The calls carry the rights they need\<close>

lemma integrator_signs_found:
  assumes "program_addresses P"
    and "find_program_address P integrator_pda_seeds mock_integrator_id = (k, b)"
  shows "integrator_signs P b = Some k"
  using signs_for_found [OF assms] by (simp add: integrator_signs_def)

lemma invoke_register_try_accounts_eq_Ok [ok_iff]:
  "invoke_register_try_accounts P acs s = Ok b \<longleftrightarrow>
     is_signer (ir_payer acs) \<and>
     is_writable (ir_payer acs) \<and>
     is_writable (ir_integrator_config acs) \<and>
     is_writable (ir_sequence_tracker acs) \<and>
     owner_of s (key (ir_integrator_program_pda acs)) = system_program_id \<and>
     key (ir_system_program acs) = system_program_id \<and>
     key (ir_endpoint_program acs) = endpoint_id \<and>
     find_program_address P integrator_pda_seeds mock_integrator_id = (key (ir_integrator_program_pda acs), b) \<and>
     fst (find_program_address P event_authority_seeds endpoint_id) = key (ir_event_authority acs)"
  unfolding invoke_register_try_accounts_def by (auto simp: ok_iff prod_eq_iff)

lemma invoke_register_calls:
  assumes "program_addresses P" "invoke_register_try_accounts P acs s = Ok b"
  shows "invoke_register P acs admin s = register P
     \<lparr>rg_payer = passed True True (ir_payer acs),
      rg_integrator_config = passed False True (ir_integrator_config acs),
      rg_sequence_tracker = passed False True (ir_sequence_tracker acs),
      rg_integrator_program_pda = passed True False (ir_integrator_program_pda acs),
      rg_system_program = passed False False (ir_system_program acs),
      rg_event_authority = passed False False (ir_event_authority acs),
      rg_program = passed False False (ir_program acs)\<rparr>
     \<lparr>ra_integrator_program_id = mock_integrator_id, ra_integrator_program_pda_bump = b,
      ra_admin = admin\<rparr> s"
  unfolding invoke_register_def assms(2) invoke_register_context_def
  using assms(2) integrator_signs_found [OF assms(1)]
  by (simp add: invoke_register_try_accounts_eq_Ok)

lemma invoke_send_message_try_accounts_eq_Ok [ok_iff]:
  "invoke_send_message_try_accounts P acs s = Ok b \<longleftrightarrow>
     is_signer (iz_payer acs) \<and>
     is_writable (iz_payer acs) \<and>
     is_signer (iz_outbox_message acs) \<and>
     is_writable (iz_outbox_message acs) \<and>
     is_writable (iz_integrator_chain_config acs) \<and>
     is_writable (iz_sequence_tracker acs) \<and>
     owner_of s (key (iz_integrator_program_pda acs)) = system_program_id \<and>
     key (iz_system_program acs) = system_program_id \<and>
     key (iz_endpoint_program acs) = endpoint_id \<and>
     find_program_address P integrator_pda_seeds mock_integrator_id = (key (iz_integrator_program_pda acs), b) \<and>
     fst (find_program_address P event_authority_seeds endpoint_id) = key (iz_event_authority acs)"
  unfolding invoke_send_message_try_accounts_def by (auto simp: ok_iff prod_eq_iff)

lemma invoke_send_message_calls:
  assumes "program_addresses P" "invoke_send_message_try_accounts P acs s = Ok b"
  shows "invoke_send_message P acs args s = send_message P
     \<lparr>sm_payer = passed True True (iz_payer acs),
      sm_integrator_program_pda = passed True False (iz_integrator_program_pda acs),
      sm_integrator_chain_config = passed False False (iz_integrator_chain_config acs),
      sm_sequence_tracker = passed False True (iz_sequence_tracker acs),
      sm_outbox_message = passed True True (iz_outbox_message acs),
      sm_system_program = passed False False (iz_system_program acs),
      sm_event_authority = passed False False (iz_event_authority acs),
      sm_program = passed False False (iz_program acs)\<rparr>
     \<lparr>sm_integrator_program_id = mock_integrator_id, sm_integrator_program_pda_bump = b,
      sm_dst_chain = iz_dst_chain args, sm_dst_addr = iz_dst_addr args,
      sm_payload_hash = iz_payload_hash args\<rparr> s"
  unfolding invoke_send_message_def assms(2) invoke_send_message_context_def
  using assms(2) integrator_signs_found [OF assms(1)]
  by (simp add: invoke_send_message_try_accounts_eq_Ok)

lemma invoke_recv_message_try_accounts_eq_Ok [ok_iff]:
  "invoke_recv_message_try_accounts P acs s = Ok b \<longleftrightarrow>
     is_signer (iv_payer acs) \<and>
     is_writable (iv_payer acs) \<and>
     is_writable (iv_attestation_info acs) \<and>
     owner_of s (key (iv_integrator_program_pda acs)) = system_program_id \<and>
     key (iv_system_program acs) = system_program_id \<and>
     key (iv_endpoint_program acs) = endpoint_id \<and>
     find_program_address P integrator_pda_seeds mock_integrator_id = (key (iv_integrator_program_pda acs), b) \<and>
     fst (find_program_address P event_authority_seeds endpoint_id) = key (iv_event_authority acs)"
  unfolding invoke_recv_message_try_accounts_def by (auto simp: ok_iff prod_eq_iff)

lemma invoke_recv_message_calls:
  assumes "program_addresses P" "invoke_recv_message_try_accounts P acs s = Ok b"
  shows "invoke_recv_message P acs args s = recv_message P
     \<lparr>rm_payer = passed True True (iv_payer acs),
      rm_integrator_program_pda = passed True False (iv_integrator_program_pda acs),
      rm_integrator_chain_config = passed False False (iv_integrator_chain_config acs),
      rm_attestation_info = passed False True (iv_attestation_info acs),
      rm_system_program = passed False False (iv_system_program acs),
      rm_event_authority = passed False False (iv_event_authority acs),
      rm_program = passed False False (iv_program acs)\<rparr> args s"
  unfolding invoke_recv_message_def assms(2) invoke_recv_message_context_def
  using assms(2) integrator_signs_found [OF assms(1)]
  by (simp add: invoke_recv_message_try_accounts_eq_Ok)

lemma invoke_exec_message_try_accounts_eq_Ok [ok_iff]:
  "invoke_exec_message_try_accounts P acs s = Ok b \<longleftrightarrow>
     is_signer (ie_payer acs) \<and>
     is_writable (ie_payer acs) \<and>
     is_writable (ie_attestation_info acs) \<and>
     owner_of s (key (ie_integrator_program_pda acs)) = system_program_id \<and>
     key (ie_system_program acs) = system_program_id \<and>
     key (ie_endpoint_program acs) = endpoint_id \<and>
     find_program_address P integrator_pda_seeds mock_integrator_id = (key (ie_integrator_program_pda acs), b) \<and>
     fst (find_program_address P event_authority_seeds endpoint_id) = key (ie_event_authority acs)"
  unfolding invoke_exec_message_try_accounts_def by (auto simp: ok_iff prod_eq_iff)

lemma invoke_exec_message_calls:
  assumes "program_addresses P" "invoke_exec_message_try_accounts P acs s = Ok b"
  shows "invoke_exec_message P acs args s = exec_message P
     \<lparr>em_payer = passed True True (ie_payer acs),
      em_integrator_program_pda = passed True False (ie_integrator_program_pda acs),
      em_attestation_info = passed False True (ie_attestation_info acs),
      em_system_program = passed False False (ie_system_program acs),
      em_event_authority = passed False False (ie_event_authority acs),
      em_program = passed False False (ie_program acs)\<rparr> args s"
  unfolding invoke_exec_message_def assms(2) invoke_exec_message_context_def
  using assms(2) integrator_signs_found [OF assms(1)]
  by (simp add: invoke_exec_message_try_accounts_eq_Ok)

end
