(* ===== verification/Mock_Adapter.thy ===== *)
theory Mock_Adapter
  imports Cpi Outbound Inbound
begin

text \<open>
  \<^verbatim>\<open>svm/programs/mock-adapter/src/lib.rs\<close>: an adapter program. Each instruction checks its own
  accounts and calls the endpoint, signing for its program address \<^verbatim>\<open>[b"adapter_pda"]\<close>.
\<close>

text \<open>\<^verbatim>\<open>declare_id!("5k8XySmYJ6nQTF8ZFZtRoevjCx9Y9PS5MT9oJDLNA162")\<close>.\<close>

definition mock_adapter_id :: pubkey where
  "mock_adapter_id = Pubkey (pad32
     [70, 123, 61, 193, 223, 234, 155, 255, 49, 135, 15, 36, 179, 247, 186, 66,
      77, 131, 171, 220, 124, 201, 211, 107, 94, 170, 212, 52, 141, 86, 253, 59])"

definition adapter_signs :: "'bm platform \<Rightarrow> u8 \<Rightarrow> pubkey option" where
  "adapter_signs P bump =
     create_program_address P (adapter_pda_seeds @ [[bump]]) mock_adapter_id"

section \<open>invoke\_pick\_up\_message\<close>

record invoke_pick_up_message_accounts =
  ip_outbox_message :: account_meta
  ip_adapter_info :: account_meta
  ip_adapter_pda :: account_meta
  ip_event_authority :: account_meta
  ip_program :: account_meta
  ip_refund_recipient :: account_meta
  ip_system_program :: account_meta
  ip_endpoint_program :: account_meta

definition invoke_pick_up_message_try_accounts ::
  "'bm platform \<Rightarrow> invoke_pick_up_message_accounts \<Rightarrow> ledger \<Rightarrow> u8 result" where
  "invoke_pick_up_message_try_accounts P acs s =
     and_then (system_account_try_from s (ip_adapter_pda acs)) (\<lambda>_.
     and_then (system_try_from (ip_system_program acs)) (\<lambda>_.
     and_then (endpoint_try_from (ip_endpoint_program acs)) (\<lambda>_.
     and_then (constraint_mut (ip_outbox_message acs)) (\<lambda>_.
     and_then (constraint_program_seeds P adapter_pda_seeds mock_adapter_id
                 (ip_adapter_pda acs)) (\<lambda>bump.
     and_then (constraint_program_seeds P event_authority_seeds endpoint_id
                 (ip_event_authority acs)) (\<lambda>_.
     and_then (constraint_mut (ip_refund_recipient acs)) (\<lambda>_.
     Ok bump)))))))"

definition invoke_pick_up_message_context ::
  "pubkey option \<Rightarrow> invoke_pick_up_message_accounts \<Rightarrow> pick_up_message_accounts result" where
  "invoke_pick_up_message_context signing acs =
     and_then (pass_on signing False True (ip_outbox_message acs)) (\<lambda>outbox_message.
     and_then (pass_on signing False False (ip_adapter_info acs)) (\<lambda>adapter_info.
     and_then (pass_on signing True False (ip_adapter_pda acs)) (\<lambda>pda.
     and_then (pass_on signing False True (ip_refund_recipient acs)) (\<lambda>refund_recipient.
     and_then (pass_on signing False False (ip_system_program acs)) (\<lambda>system_program.
     and_then (pass_on signing False False (ip_event_authority acs)) (\<lambda>event_authority.
     and_then (pass_on signing False False (ip_program acs)) (\<lambda>program.
     Ok \<lparr>pu_outbox_message = outbox_message, pu_adapter_info = adapter_info,
         pu_adapter_pda = pda, pu_refund_recipient = refund_recipient,
         pu_system_program = system_program,
         pu_event_authority = event_authority, pu_program = program\<rparr>)))))))"

definition invoke_pick_up_message ::
  "'bm platform \<Rightarrow> invoke_pick_up_message_accounts \<Rightarrow> ledger \<Rightarrow> ledger result" where
  "invoke_pick_up_message P acs s =
     and_then (invoke_pick_up_message_try_accounts P acs s) (\<lambda>bump.
     and_then (invoke_pick_up_message_context (adapter_signs P bump) acs) (\<lambda>cpi.
     pick_up_message P cpi \<lparr>pu_adapter_program_id = mock_adapter_id,
       pu_adapter_pda_bump = bump\<rparr> s))"

section \<open>invoke\_attest\_message\<close>

text \<open>\<^verbatim>\<open>InvokeAttestMessageArgs\<close>; its field \<^verbatim>\<open>message_hash\<close> is never read.\<close>

record invoke_attest_message_args =
  ia_src_chain :: u16
  ia_src_addr :: universal_address
  ia_sequence :: u64
  ia_dst_chain :: u16
  ia_integrator_program_id :: pubkey
  ia_payload_hash :: bytes32
  ia_message_hash :: bytes32

record invoke_attest_message_accounts =
  ia_payer :: account_meta
  ia_adapter_info :: account_meta
  ia_adapter_pda :: account_meta
  ia_integrator_chain_config :: account_meta
  ia_attestation_info :: account_meta
  ia_event_authority :: account_meta
  ia_program :: account_meta
  ia_system_program :: account_meta
  ia_endpoint_program :: account_meta

definition invoke_attest_message_try_accounts ::
  "'bm platform \<Rightarrow> invoke_attest_message_accounts \<Rightarrow> ledger \<Rightarrow> u8 result" where
  "invoke_attest_message_try_accounts P acs s =
     and_then (signer_try_from (ia_payer acs)) (\<lambda>_.
     and_then (system_account_try_from s (ia_adapter_pda acs)) (\<lambda>_.
     and_then (system_try_from (ia_system_program acs)) (\<lambda>_.
     and_then (endpoint_try_from (ia_endpoint_program acs)) (\<lambda>_.
     and_then (constraint_mut (ia_payer acs)) (\<lambda>_.
     and_then (constraint_program_seeds P adapter_pda_seeds mock_adapter_id
                 (ia_adapter_pda acs)) (\<lambda>bump.
     and_then (constraint_mut (ia_attestation_info acs)) (\<lambda>_.
     and_then (constraint_program_seeds P event_authority_seeds endpoint_id
                 (ia_event_authority acs)) (\<lambda>_.
     Ok bump))))))))"

definition invoke_attest_message_context ::
  "pubkey option \<Rightarrow> invoke_attest_message_accounts \<Rightarrow> attest_message_accounts result" where
  "invoke_attest_message_context signing acs =
     and_then (pass_on signing True True (ia_payer acs)) (\<lambda>payer.
     and_then (pass_on signing False False (ia_adapter_info acs)) (\<lambda>adapter_info.
     and_then (pass_on signing True False (ia_adapter_pda acs)) (\<lambda>pda.
     and_then (pass_on signing False False (ia_integrator_chain_config acs)) (\<lambda>chain_config.
     and_then (pass_on signing False True (ia_attestation_info acs)) (\<lambda>attestation_info.
     and_then (pass_on signing False False (ia_system_program acs)) (\<lambda>system_program.
     and_then (pass_on signing False False (ia_event_authority acs)) (\<lambda>event_authority.
     and_then (pass_on signing False False (ia_program acs)) (\<lambda>program.
     Ok \<lparr>am_payer = payer, am_adapter_info = adapter_info, am_adapter_pda = pda,
         am_integrator_chain_config = chain_config, am_attestation_info = attestation_info,
         am_system_program = system_program,
         am_event_authority = event_authority, am_program = program\<rparr>))))))))"

definition invoke_attest_message ::
  "'bm platform \<Rightarrow> invoke_attest_message_accounts \<Rightarrow> invoke_attest_message_args \<Rightarrow> ledger \<Rightarrow>
     ledger result" where
  "invoke_attest_message P acs args s =
     and_then (invoke_attest_message_try_accounts P acs s) (\<lambda>bump.
     and_then (invoke_attest_message_context (adapter_signs P bump) acs) (\<lambda>cpi.
     attest_message P cpi \<lparr>am_adapter_program_id = mock_adapter_id,
       am_adapter_pda_bump = bump, am_src_chain = ia_src_chain args,
       am_src_addr = ia_src_addr args, am_sequence = ia_sequence args,
       am_dst_chain = ia_dst_chain args,
       am_integrator_program_id = ia_integrator_program_id args,
       am_payload_hash = ia_payload_hash args\<rparr> s))"

section \<open>The calls carry the rights they need\<close>

lemma adapter_signs_found:
  assumes "program_addresses P"
    and "find_program_address P adapter_pda_seeds mock_adapter_id = (k, b)"
  shows "adapter_signs P b = Some k"
  using signs_for_found [OF assms] by (simp add: adapter_signs_def)

lemma invoke_pick_up_message_try_accounts_eq_Ok [ok_iff]:
  "invoke_pick_up_message_try_accounts P acs s = Ok b \<longleftrightarrow>
     is_writable (ip_outbox_message acs) \<and>
     is_writable (ip_refund_recipient acs) \<and>
     owner_of s (key (ip_adapter_pda acs)) = system_program_id \<and>
     key (ip_system_program acs) = system_program_id \<and>
     key (ip_endpoint_program acs) = endpoint_id \<and>
     find_program_address P adapter_pda_seeds mock_adapter_id = (key (ip_adapter_pda acs), b) \<and>
     fst (find_program_address P event_authority_seeds endpoint_id) = key (ip_event_authority acs)"
  unfolding invoke_pick_up_message_try_accounts_def by (auto simp: ok_iff prod_eq_iff)

lemma invoke_pick_up_message_calls:
  assumes "program_addresses P" "invoke_pick_up_message_try_accounts P acs s = Ok b"
  shows "invoke_pick_up_message P acs s = pick_up_message P
     \<lparr>pu_outbox_message = passed False True (ip_outbox_message acs),
      pu_adapter_info = passed False False (ip_adapter_info acs),
      pu_adapter_pda = passed True False (ip_adapter_pda acs),
      pu_refund_recipient = passed False True (ip_refund_recipient acs),
      pu_system_program = passed False False (ip_system_program acs),
      pu_event_authority = passed False False (ip_event_authority acs),
      pu_program = passed False False (ip_program acs)\<rparr>
     \<lparr>pu_adapter_program_id = mock_adapter_id, pu_adapter_pda_bump = b\<rparr> s"
  unfolding invoke_pick_up_message_def assms(2) invoke_pick_up_message_context_def
  using assms(2) adapter_signs_found [OF assms(1)]
  by (simp add: invoke_pick_up_message_try_accounts_eq_Ok)

lemma invoke_attest_message_try_accounts_eq_Ok [ok_iff]:
  "invoke_attest_message_try_accounts P acs s = Ok b \<longleftrightarrow>
     is_signer (ia_payer acs) \<and>
     is_writable (ia_payer acs) \<and>
     is_writable (ia_attestation_info acs) \<and>
     owner_of s (key (ia_adapter_pda acs)) = system_program_id \<and>
     key (ia_system_program acs) = system_program_id \<and>
     key (ia_endpoint_program acs) = endpoint_id \<and>
     find_program_address P adapter_pda_seeds mock_adapter_id = (key (ia_adapter_pda acs), b) \<and>
     fst (find_program_address P event_authority_seeds endpoint_id) = key (ia_event_authority acs)"
  unfolding invoke_attest_message_try_accounts_def by (auto simp: ok_iff prod_eq_iff)

lemma invoke_attest_message_calls:
  assumes "program_addresses P" "invoke_attest_message_try_accounts P acs s = Ok b"
  shows "invoke_attest_message P acs args s = attest_message P
     \<lparr>am_payer = passed True True (ia_payer acs),
      am_adapter_info = passed False False (ia_adapter_info acs),
      am_adapter_pda = passed True False (ia_adapter_pda acs),
      am_integrator_chain_config = passed False False (ia_integrator_chain_config acs),
      am_attestation_info = passed False True (ia_attestation_info acs),
      am_system_program = passed False False (ia_system_program acs),
      am_event_authority = passed False False (ia_event_authority acs),
      am_program = passed False False (ia_program acs)\<rparr>
     \<lparr>am_adapter_program_id = mock_adapter_id, am_adapter_pda_bump = b,
      am_src_chain = ia_src_chain args, am_src_addr = ia_src_addr args,
      am_sequence = ia_sequence args, am_dst_chain = ia_dst_chain args,
      am_integrator_program_id = ia_integrator_program_id args,
      am_payload_hash = ia_payload_hash args\<rparr> s"
  unfolding invoke_attest_message_def assms(2) invoke_attest_message_context_def
  using assms(2) adapter_signs_found [OF assms(1)]
  by (simp add: invoke_attest_message_try_accounts_eq_Ok)

end
