(* ===== verification/Message_Properties.thy ===== *)
theory Message_Properties
  imports Scenario Mock_Integrator Mock_Adapter
begin

text \<open>
  Properties of sending, picking up, attesting, receiving and executing messages, and of the
  two mock programs that call the endpoint.
\<close>

section \<open>Sending\<close>

text \<open>C23. \<^verbatim>\<open>send_message\<close> on accounts that pass its constraints: refused when no adapter is enabled
  for sending, a panic when the sequence numbers are used up; otherwise the outbox message
  carries the tracker's number and a snapshot of the enabled adapters, the tracker advances by
  one and no other account changes.\<close>

theorem send_message_branches:
  assumes "bitmaps_crate P" "send_message_try_accounts P acs args s = Ok (s1, cc, t)"
  shows "if adapters_of (cc_send_adapter_bitmap cc) = {}
       then send_message P acs args s = Err (Endpoint_Error AdapterNotEnabled)
     else if st_sequence t = - 1 then send_message P acs args s = Err Panicked
     else if key (sm_program acs) \<noteq> endpoint_id then send_message P acs args s = Err MissingAccount
     else \<exists>s'. send_message P acs args s = Ok s' \<and>
       outbox_at s' (key (sm_outbox_message acs)) = Some
         \<lparr>ob_src_addr = from_pubkey (sm_integrator_program_id args),
          ob_sequence = st_sequence t, ob_dst_chain = sm_dst_chain args,
          ob_dst_addr = sm_dst_addr args, ob_payload_hash = sm_payload_hash args,
          ob_outstanding_adapters = cc_send_adapter_bitmap cc,
          ob_refund_recipient = key (sm_payer acs)\<rparr> \<and>
       tracker_at s' (key (sm_sequence_tracker acs)) =
         Some (t\<lparr>st_sequence := st_sequence t + 1\<rparr>) \<and>
       (\<forall>k. k \<noteq> key (sm_outbox_message acs) \<and> k \<noteq> key (sm_sequence_tracker acs) \<longrightarrow>
          accounts s' k = accounts s k)"
proof -
  note empty = bitmaps_crate.bitmap_is_empty_unfold [OF assms(1)]
  consider "adapters_of (cc_send_adapter_bitmap cc) = {}"
    | "adapters_of (cc_send_adapter_bitmap cc) \<noteq> {}" "st_sequence t = - 1"
    | "adapters_of (cc_send_adapter_bitmap cc) \<noteq> {}" "st_sequence t \<noteq> - 1"
      "key (sm_program acs) \<noteq> endpoint_id"
    | "adapters_of (cc_send_adapter_bitmap cc) \<noteq> {}" "st_sequence t \<noteq> - 1"
      "key (sm_program acs) = endpoint_id"
    by blast
  then show ?thesis
  proof cases
    case 1
    then show ?thesis using assms(2) by (simp add: send_message_def empty)
  next
    case 2
    then have "next_sequence t = Err Panicked" by (simp add: next_sequence_branches)
    then show ?thesis using assms(2) 2 by (simp add: send_message_def empty)
  next
    case 3
    then show ?thesis
      using assms(2) by (simp add: send_message_def empty next_sequence_branches self_cpi_branches)
  next
    case 4
    then have n: "next_sequence t =
        Ok (t\<lparr>st_sequence := st_sequence t + 1\<rparr>, st_sequence t)"
      by (simp add: next_sequence_branches)
    obtain s' where "send_message P acs args s = Ok s'"
      using assms(2) 4 n unfolding send_message_eq_Ok empty by blast
    moreover from this have s': "s' = emit_cpi (MessageSent
          (from_pubkey (sm_integrator_program_id args)) (st_sequence t + 1) (sm_dst_addr args)
          (sm_dst_chain args) (sm_payload_hash args))
        (store (key (sm_outbox_message acs)) (Outbox_Message_Data
           \<lparr>ob_src_addr = from_pubkey (sm_integrator_program_id args),
            ob_sequence = st_sequence t, ob_dst_chain = sm_dst_chain args,
            ob_dst_addr = sm_dst_addr args, ob_payload_hash = sm_payload_hash args,
            ob_outstanding_adapters = cc_send_adapter_bitmap cc,
            ob_refund_recipient = key (sm_payer acs)\<rparr>)
        (store (key (sm_sequence_tracker acs))
           (Sequence_Tracker_Data (t\<lparr>st_sequence := st_sequence t + 1\<rparr>)) s))"
      using assms(2) n by (auto simp: send_message_eq_Ok)
    ultimately show ?thesis
      using 4 send_message_try_accounts_distinct [OF assms(2)]
      by (simp add: read_simps) (simp add: emit_cpi_def store_def)
  qed
qed

theorem send_message_branches_witness:
  "\<exists>s'. send_message sample_platform send_accounts send_args ledger_6 = Ok s' \<and>
     outbox_at s' the_outbox = Some (the_message 3) \<and> tracker_at s' tracker_key = Some (the_tracker 1)"
proof -
  have "send_message_try_accounts sample_platform send_accounts send_args ledger_6 =
      Ok (store the_outbox Zero_Data ledger_6, the_chain 3 1, the_tracker 0)"
    by (simp add: send_message_try_accounts_eq_Ok scenario read_simps)
  from send_message_branches [OF sample_laws(1) this] show ?thesis
    by (auto simp: the_chain_def the_tracker_def the_message_def send_accounts_def send_args_def
        writable_signer_def writable_def scenario_bits)
qed

text \<open>C37. The event of \<^verbatim>\<open>send_message\<close> carries the number after the message's own: adapters that
  match events with outbox messages by sequence are off by one.\<close>

theorem message_sent_event_is_ahead:
  assumes "send_message P acs args s = Ok s'"
  shows "\<exists>m. outbox_at s' (key (sm_outbox_message acs)) = Some m \<and>
     events s' = events s @ [MessageSent (ob_src_addr m) (ob_sequence m + 1) (ob_dst_addr m)
       (ob_dst_chain m) (ob_payload_hash m)]"
proof -
  obtain s1 cc t t' q where acc: "send_message_try_accounts P acs args s = Ok (s1, cc, t)"
    and nq: "next_sequence t = Ok (t', q)"
    and s': "s' = emit_cpi (MessageSent (from_pubkey (sm_integrator_program_id args))
                         (st_sequence t') (sm_dst_addr args) (sm_dst_chain args)
                         (sm_payload_hash args))
               (store (key (sm_outbox_message acs)) (Outbox_Message_Data
                  \<lparr>ob_src_addr = from_pubkey (sm_integrator_program_id args), ob_sequence = q,
                   ob_dst_chain = sm_dst_chain args, ob_dst_addr = sm_dst_addr args,
                   ob_payload_hash = sm_payload_hash args,
                   ob_outstanding_adapters = cc_send_adapter_bitmap cc,
                   ob_refund_recipient = key (sm_payer acs)\<rparr>)
               (store (key (sm_sequence_tracker acs)) (Sequence_Tracker_Data t') s))"
    using assms unfolding send_message_eq_Ok by blast
  have "st_sequence t' = q + 1"
    using nq by (auto simp: next_sequence_branches split: if_splits)
  then show ?thesis
    unfolding s' by (simp add: read_simps)
qed

theorem message_sent_event_is_ahead_witness:
  "\<exists>m. outbox_at ledger_7 the_outbox = Some m \<and> ob_sequence m = 0 \<and>
     events ledger_7 = events ledger_6 @ [MessageSent (ob_src_addr m) 1 (ob_dst_addr m)
       (ob_dst_chain m) (ob_payload_hash m)]"
proof -
  have "outbox_at ledger_7 the_outbox = Some (the_message 3)"
    by (simp add: ledger_7_def read_simps)
  then show ?thesis
    using message_sent_event_is_ahead [OF run_7]
    by (auto simp: send_accounts_def writable_signer_def the_message_def)
qed

section \<open>Picking up\<close>

lemma pick_up_outbox_key [simp]: "key (pu_outbox_message (pick_up_accounts a)) = the_outbox"
  by (simp add: pick_up_accounts_def writable_def)

text \<open>C24. \<^verbatim>\<open>pick_up_message\<close> on accounts that pass its constraints: refused unless the adapter's bit
  is outstanding; otherwise the bit is cleared, and the account is closed exactly when no bit
  remains.\<close>

theorem pick_up_message_by_case:
  assumes "bitmaps_crate P" "pick_up_message_try_accounts P acs args s = Ok (m, a)"
  shows "pick_up_message P acs args s =
     (if unat (ad_index a) \<notin> adapters_of (ob_outstanding_adapters m)
      then Err (Endpoint_Error MessageAlreadyPickedUp)
      else if key (pu_program acs) \<noteq> endpoint_id then Err MissingAccount
      else let bm = without_adapter (unat (ad_index a)) (ob_outstanding_adapters m);
               s1 = emit_cpi (MessagePickedUp (ob_src_addr m) (ob_sequence m)
                 (ob_dst_chain m) (ob_dst_addr m) (ob_payload_hash m)
                 (pu_adapter_program_id args) (as_value bm)) s
           in if adapters_of bm = {} then Ok (close_account (key (pu_outbox_message acs)) s1)
              else Ok (store (key (pu_outbox_message acs))
                     (Outbox_Message_Data (m\<lparr>ob_outstanding_adapters := bm\<rparr>)) s1))"
  using bitmaps_crate.pick_up_message_branches [OF assms] .

theorem pick_up_message_by_case_witness:
  "\<exists>s'. pick_up_message sample_platform (pick_up_accounts adapter_b) (pick_up_args adapter_b)
      ledger_8 = Ok (close_account the_outbox s')"
proof -
  have "pick_up_message_try_accounts sample_platform (pick_up_accounts adapter_b)
      (pick_up_args adapter_b) ledger_8 = Ok (the_message 2, the_adapter adapter_b 1)"
    by (simp add: pick_up_message_try_accounts_eq_Ok scenario read_simps)
  from pick_up_message_by_case [OF sample_laws(1) this] show ?thesis
    by (auto simp: the_message_def the_adapter_def pick_up_accounts_def writable_def
        scenario_bits Let_def)
qed

text \<open>C25. An adapter picks a message up once: right after a successful pick-up, the same call fails,
  because the account is closed or because the adapter's bit is gone.\<close>

theorem pick_up_message_once:
  assumes "bitmaps_crate P" "pick_up_message P acs args s = Ok s1"
  shows "pick_up_message P acs args s1 = Err (Anchor_Error AccountNotInitialized) \<and>
       accounts s1 (key (pu_outbox_message acs)) = None \<or>
     pick_up_message P acs args s1 = Err (Endpoint_Error MessageAlreadyPickedUp)"
proof (rule bitmaps_crate.pick_up_message_OkE [OF assms])
  fix m a assume "s1 = close_account (key (pu_outbox_message acs))
         (emit_cpi (MessagePickedUp (ob_src_addr m) (ob_sequence m) (ob_dst_chain m)
           (ob_dst_addr m) (ob_payload_hash m) (pu_adapter_program_id args) 0) s)"
  then show ?thesis
    by (simp add: pick_up_message_def pick_up_message_try_accounts_def account_try_from_def
        close_account_def)
next
  fix m a bm
  assume acc: "pick_up_message_try_accounts P acs args s = Ok (m, a)"
    and bm: "adapters_of bm = adapters_of (ob_outstanding_adapters m) - {unat (ad_index a)}"
    and s1: "s1 = store (key (pu_outbox_message acs))
         (Outbox_Message_Data (m\<lparr>ob_outstanding_adapters := bm\<rparr>))
         (emit_cpi (MessagePickedUp (ob_src_addr m) (ob_sequence m) (ob_dst_chain m)
           (ob_dst_addr m) (ob_payload_hash m) (pu_adapter_program_id args) (as_value bm)) s)"
  have "pick_up_message_try_accounts P acs args s1 = Ok (m\<lparr>ob_outstanding_adapters := bm\<rparr>, a)"
    using pick_up_other_accounts [OF acc refl acc] unfolding s1 by simp
  then show ?thesis
    using bm by (simp add: bitmaps_crate.pick_up_message_branches [OF assms(1)])
qed

theorem pick_up_message_once_witness:
  "pick_up_message sample_platform (pick_up_accounts adapter_a) (pick_up_args adapter_a) ledger_8 =
     Err (Endpoint_Error MessageAlreadyPickedUp)"
proof -
  have "accounts ledger_8 the_outbox \<noteq> None"
    by (simp add: ledger_8_def store_def)
  then show ?thesis
    using pick_up_message_once [OF sample_laws(1) run_8] pick_up_outbox_key by auto
qed

text \<open>C26. Every message is delivered to all its adapters and then disappears: when each outstanding
  adapter calls \<^verbatim>\<open>pick_up_message\<close> with accounts that pass the constraints, in any order, all
  the calls succeed and the last one closes the account.\<close>

theorem pick_ups_drain_message:
  assumes "bitmaps_crate P" "calls \<noteq> []"
    and "distinct (map (\<lambda>(_, _, i). i) calls)"
    and "set (map (\<lambda>(_, _, i). i) calls) = adapters_of (ob_outstanding_adapters m)"
    and "\<And>acs args i. (acs, args, i) \<in> set calls \<Longrightarrow> key (pu_outbox_message acs) = k \<and>
           key (pu_program acs) = endpoint_id \<and>
           (\<exists>a. pick_up_message_try_accounts P acs args s = Ok (m, a) \<and> unat (ad_index a) = i)"
  shows "\<exists>s'. run P (map (\<lambda>(acs, args, _). Pick_Up_Message acs args) calls) s = Ok s' \<and>
     accounts s' k = None \<and> (\<forall>l. l \<noteq> k \<longrightarrow> accounts s' l = accounts s l)"
  using bitmaps_crate.pick_ups_drain [OF assms] .

theorem pick_ups_drain_message_witness:
  "\<exists>s'. run sample_platform
      [Pick_Up_Message (pick_up_accounts adapter_b) (pick_up_args adapter_b),
       Pick_Up_Message (pick_up_accounts adapter_a) (pick_up_args adapter_a)] ledger_7 = Ok s' \<and>
     accounts s' the_outbox = None"
proof -
  have ready: "pick_up_message_try_accounts sample_platform (pick_up_accounts adapter_b)
      (pick_up_args adapter_b) ledger_7 = Ok (the_message 3, the_adapter adapter_b 1)"
    "pick_up_message_try_accounts sample_platform (pick_up_accounts adapter_a)
      (pick_up_args adapter_a) ledger_7 = Ok (the_message 3, the_adapter adapter_a 0)"
    by (simp_all add: pick_up_message_try_accounts_eq_Ok scenario read_simps)
  have "adapters_of (ob_outstanding_adapters (the_message 3)) = {1, 0}"
    "unat (ad_index (the_adapter adapter_b 1)) = 1" "unat (ad_index (the_adapter adapter_a 0)) = 0"
    by (auto simp: the_message_def the_adapter_def scenario_bits)
  then have "\<exists>s'. run sample_platform (map (\<lambda>(acs, args, _). Pick_Up_Message acs args)
      [(pick_up_accounts adapter_b, pick_up_args adapter_b, 1 :: nat),
       (pick_up_accounts adapter_a, pick_up_args adapter_a, 0)]) ledger_7 = Ok s' \<and>
      accounts s' the_outbox = None \<and> (\<forall>l. l \<noteq> the_outbox \<longrightarrow> accounts s' l = accounts ledger_7 l)"
    by (intro pick_ups_drain_message [OF sample_laws(1), where m = "the_message 3"])
      (use ready in \<open>auto simp: pick_up_accounts_def writable_def\<close>)
  then show ?thesis by (simp only: list.map prod.case) blast
qed

section \<open>Attesting\<close>

text \<open>C27. \<^verbatim>\<open>attest_message\<close> on accounts that pass its constraints: refused for another destination
  chain, for an adapter that is not enabled for receiving from the source chain, for chain 0
  and for a second vote of the adapter; otherwise the adapter's bit is added to the message's
  attestations, whether or not the message was executed before, and nothing else of it
  changes.\<close>

theorem attest_message_branches:
  assumes "bitmaps_crate P" "attest_message_try_accounts P acs args s = Ok (s1, a, cc, i0, b)"
    and "i = (if at_src_chain i0 = 0
       then \<lparr>at_bump = b, at_message_hash = am_message_hash P args,
             at_src_chain = am_src_chain args, at_src_addr = am_src_addr args,
             at_sequence = am_sequence args, at_dst_chain = am_dst_chain args,
             at_dst_addr = from_pubkey (am_integrator_program_id args),
             at_payload_hash = am_payload_hash args, at_executed = False,
             at_attested_adapters = bitmap_new\<rparr>
       else i0)"
  shows "if am_dst_chain args \<noteq> CHAIN_ID
       then attest_message P acs args s = Err (Endpoint_Error InvalidDestinationChain)
     else if unat (ad_index a) \<notin> adapters_of (cc_recv_adapter_bitmap cc)
       then attest_message P acs args s = Err (Endpoint_Error AdapterNotEnabled)
     else if at_src_chain i = 0
       then attest_message P acs args s = Err (Endpoint_Error InvalidChainId)
     else if unat (ad_index a) \<in> adapters_of (at_attested_adapters i)
       then attest_message P acs args s = Err (Endpoint_Error DuplicateMessageAttestation)
     else if key (am_program acs) \<noteq> endpoint_id
       then attest_message P acs args s = Err MissingAccount
     else \<exists>s'. attest_message P acs args s = Ok s' \<and>
       attestation_at s' (key (am_attestation_info acs)) =
         Some (i\<lparr>at_attested_adapters :=
           with_adapter (unat (ad_index a)) (at_attested_adapters i)\<rparr>) \<and>
       (\<forall>k. k \<noteq> key (am_attestation_info acs) \<longrightarrow> accounts s' k = accounts s k)"
proof -
  note get = bitmaps_crate.bitmap_get_unfold [OF assms(1)]
  note set = bitmaps_crate.bitmap_set_unfold [OF assms(1)]
  have s1: "\<forall>k. k \<noteq> key (am_attestation_info acs) \<longrightarrow> accounts s1 k = accounts s k"
    using assms(2) by (auto simp: attest_message_try_accounts_eq_Ok store_def)
  have new: "(if at_src_chain i0 = 0
       then attestation_info_new P b (am_src_chain args) (am_src_addr args) (am_sequence args)
              (am_dst_chain args) (from_pubkey (am_integrator_program_id args))
              (am_payload_hash args)
       else Ok i0) = (if at_src_chain i = 0 then Err (Endpoint_Error InvalidChainId) else Ok i)"
    if "am_dst_chain args = CHAIN_ID"
    using that by (simp add: assms(3) attestation_info_new_def am_message_hash_def CHAIN_ID_def
        compute_own_message_hash_def)
  have eq: "attest_message P acs args s =
      (if unat (ad_index a) \<notin> adapters_of (cc_recv_adapter_bitmap cc)
       then Err (Endpoint_Error AdapterNotEnabled)
       else if at_src_chain i = 0 then Err (Endpoint_Error InvalidChainId)
       else if unat (ad_index a) \<in> adapters_of (at_attested_adapters i)
       then Err (Endpoint_Error DuplicateMessageAttestation)
       else if key (am_program acs) \<noteq> endpoint_id then Err MissingAccount
       else let j = i\<lparr>at_attested_adapters :=
           with_adapter (unat (ad_index a)) (at_attested_adapters i)\<rparr> in
         Ok (emit_cpi (MessageAttestedTo (at_message_hash j) (am_src_chain args)
               (am_src_addr args) (am_sequence args) (am_dst_chain args)
               (from_pubkey (am_integrator_program_id args)) (am_payload_hash args)
               (as_value (at_attested_adapters j)) (from_pubkey (am_adapter_program_id args)))
             (store (key (am_attestation_info acs)) (Attestation_Info_Data j) s1)))"
    if dst: "am_dst_chain args = CHAIN_ID"
  proof (cases "unat (ad_index a) \<in> adapters_of (cc_recv_adapter_bitmap cc)")
    case True
    then have bound: "unat (ad_index a) < 128" by (rule adapters_of_bounded)
    show ?thesis
      unfolding attest_message_def assms(2) and_then.simps prod.case new [OF dst]
      using True dst bound by (simp add: get set self_cpi_branches)
  next
    case False
    with dst assms(2) show ?thesis by (simp add: attest_message_def get)
  qed
  show ?thesis
  proof (cases "am_dst_chain args = CHAIN_ID")
    case True
    then show ?thesis
      using s1 by (simp add: eq Let_def read_simps) (simp add: store_def emit_cpi_def)
  next
    case False
    then show ?thesis using assms(2) by (simp add: attest_message_def)
  qed
qed

theorem attest_message_branches_witness:
  "attest_message sample_platform (attest_accounts adapter_a) (attest_args adapter_a) ledger_11 =
     Err (Endpoint_Error DuplicateMessageAttestation)"
proof -
  have "attest_message_try_accounts sample_platform (attest_accounts adapter_a)
      (attest_args adapter_a) ledger_11 =
      Ok (ledger_11, the_adapter adapter_a 0, the_chain 3 1, the_attestation True 1, 255)"
    by (simp add: attest_message_try_accounts_eq_Ok scenario read_simps)
  from attest_message_branches [OF sample_laws(1) this refl] show ?thesis
    by (simp add: attest_args_def the_adapter_def the_chain_def the_attestation_def scenario_bits)
qed

section \<open>Executing\<close>

text \<open>C28. \<^verbatim>\<open>exec_message\<close> on accounts that pass its constraints: refused when the message is already
  executed and for chain 0; otherwise the message is stored as executed, with the votes it
  had, and the event names its hash.\<close>

theorem exec_message_branches:
  assumes "exec_message_try_accounts P acs args s = Ok (s1, i0, b)"
    and "i = (if at_src_chain i0 = 0
       then \<lparr>at_bump = b, at_message_hash = em_message_hash P args,
             at_src_chain = em_src_chain args, at_src_addr = em_src_addr args,
             at_sequence = em_sequence args, at_dst_chain = em_dst_chain args,
             at_dst_addr = from_pubkey (em_integrator_program_id args),
             at_payload_hash = em_payload_hash args, at_executed = False,
             at_attested_adapters = bitmap_new\<rparr>
       else i0)"
  shows "if at_executed i0
       then exec_message P acs args s = Err (Endpoint_Error AlreadyExecuted)
     else if at_src_chain i0 = 0 \<and> (em_src_chain args = 0 \<or> em_dst_chain args = 0)
       then exec_message P acs args s = Err (Endpoint_Error InvalidChainId)
     else if key (em_program acs) \<noteq> endpoint_id
       then exec_message P acs args s = Err MissingAccount
     else \<exists>s' e. exec_message P acs args s = Ok s' \<and>
       attestation_at s' (key (em_attestation_info acs)) = Some (i\<lparr>at_executed := True\<rparr>) \<and>
       events s' = events s @ [e] \<and> execution_hash e = Some (at_message_hash i)"
proof -
  have s1: "events s1 = events s"
    using assms(1) by (auto simp: exec_message_try_accounts_eq_Ok)
  have new: "(if at_src_chain i0 = 0
       then attestation_info_new P b (em_src_chain args) (em_src_addr args) (em_sequence args)
              (em_dst_chain args) (from_pubkey (em_integrator_program_id args))
              (em_payload_hash args)
       else Ok i0) =
      (if at_src_chain i0 = 0 \<and> (em_src_chain args = 0 \<or> em_dst_chain args = 0)
       then Err (Endpoint_Error InvalidChainId) else Ok i)"
    by (auto simp: assms(2) attestation_info_new_def em_message_hash_def
        compute_own_message_hash_def)
  have "exec_message P acs args s =
      and_then (require (\<not> at_executed i0) (Endpoint_Error AlreadyExecuted)) (\<lambda>_.
      and_then (if at_src_chain i0 = 0 \<and> (em_src_chain args = 0 \<or> em_dst_chain args = 0)
                then Err (Endpoint_Error InvalidChainId) else Ok i) (\<lambda>info.
      and_then (self_cpi (em_program acs)) (\<lambda>_.
      Ok (emit_cpi (MessageExecuted (at_message_hash (info\<lparr>at_executed := True\<rparr>))
                     (em_src_chain args) (em_src_addr args) (em_sequence args) (em_dst_chain args)
                     (from_pubkey (em_integrator_program_id args)) (em_payload_hash args))
          (store (key (em_attestation_info acs))
            (Attestation_Info_Data (info\<lparr>at_executed := True\<rparr>)) s1)))))"
    by (simp only: exec_message_def assms(1) and_then.simps prod.case new Let_def)
  then show ?thesis
    using s1 by (auto simp: self_cpi_branches read_simps)
qed

theorem exec_message_branches_witness:
  "exec_message sample_platform exec_accounts exec_args ledger_11 =
     Err (Endpoint_Error AlreadyExecuted)"
proof -
  have "exec_message_try_accounts sample_platform exec_accounts exec_args ledger_11 =
      Ok (ledger_11, the_attestation True 1, 255)"
    by (simp add: exec_message_try_accounts_eq_Ok scenario read_simps)
  from exec_message_branches [OF this refl] show ?thesis
    by (simp add: the_attestation_def)
qed

section \<open>The mock programs\<close>

text \<open>C38. The mock integrator's \<^verbatim>\<open>invoke_send_message\<close> reaches the endpoint: when its own account
  checks pass, the call carries every right \<^verbatim>\<open>send_message\<close> asks for, is signed by the mock's
  program address and names the mock itself as the integrator, so the result is that of the
  endpoint's instruction.\<close>

theorem mock_integrator_sends:
  assumes "program_addresses P" "invoke_send_message_try_accounts P acs s = Ok b"
  shows "invoke_send_message P acs args s = send_message P
     \<lparr>sm_payer = passed True True (iz_payer acs),
      sm_integrator_program_pda = passed True False (iz_integrator_program_pda acs),
      sm_integrator_chain_config = passed False False (iz_integrator_chain_config acs),
      sm_sequence_tracker = passed False True (iz_sequence_tracker acs),
      sm_outbox_message = passed True True (iz_outbox_message acs),
      sm_system_program = passed False False (iz_system_program acs),
      sm_event_authority = passed False False (iz_event_authority acs),
      sm_program = passed False False (iz_program acs)\<rparr>
     \<lparr>sm_integrator_program_id = mock_integrator_id, sm_integrator_program_pda_bump = b,
      sm_dst_chain = iz_dst_chain args, sm_dst_addr = iz_dst_addr args,
      sm_payload_hash = iz_payload_hash args\<rparr> s"
  using invoke_send_message_calls [OF assms] .

theorem mock_integrator_sends_witness:
  "invoke_send_message sample_platform
     \<lparr>iz_payer = writable_signer the_payer,
      iz_integrator_program_pda = writable (fst (find_program_address sample_platform
        integrator_pda_seeds mock_integrator_id)),
      iz_integrator_chain_config = writable chain_key,
      iz_outbox_message = writable_signer the_outbox, iz_sequence_tracker = writable tracker_key,
      iz_event_authority = writable (fst (find_program_address sample_platform
        event_authority_seeds endpoint_id)),
      iz_program = writable endpoint_id, iz_endpoint_program = writable endpoint_id,
      iz_system_program = writable system_program_id\<rparr>
     \<lparr>iz_dst_chain = 2, iz_dst_addr = the_peer, iz_payload_hash = the_payload\<rparr> empty_ledger =
   Err (Anchor_Error AccountNotInitialized)" (is "invoke_send_message _ ?acs ?args _ = _")
proof -
  have "invoke_send_message_try_accounts sample_platform ?acs empty_ledger = Ok 255"
    by (simp add: invoke_send_message_try_accounts_eq_Ok writable_def writable_signer_def
        sample_platform_def owner_of_def empty_ledger_def)
  from mock_integrator_sends [OF sample_laws(2) this, of ?args] show ?thesis
    by (simp add: send_message_def send_message_try_accounts_def signer_try_from_def passed_def
        account_try_from_def empty_ledger_def)
qed

text \<open>C39. The mock adapter's \<^verbatim>\<open>invoke_attest_message\<close> reaches the endpoint: when its own account
  checks pass, the call carries every right \<^verbatim>\<open>attest_message\<close> asks for, is signed by the mock's
  program address and attests as the mock itself, whatever \<^verbatim>\<open>message_hash\<close> was passed.\<close>

theorem mock_adapter_attests:
  assumes "program_addresses P" "invoke_attest_message_try_accounts P acs s = Ok b"
  shows "invoke_attest_message P acs args s = attest_message P
     \<lparr>am_payer = passed True True (ia_payer acs),
      am_adapter_info = passed False False (ia_adapter_info acs),
      am_adapter_pda = passed True False (ia_adapter_pda acs),
      am_integrator_chain_config = passed False False (ia_integrator_chain_config acs),
      am_attestation_info = passed False True (ia_attestation_info acs),
      am_system_program = passed False False (ia_system_program acs),
      am_event_authority = passed False False (ia_event_authority acs),
      am_program = passed False False (ia_program acs)\<rparr>
     \<lparr>am_adapter_program_id = mock_adapter_id, am_adapter_pda_bump = b,
      am_src_chain = ia_src_chain args, am_src_addr = ia_src_addr args,
      am_sequence = ia_sequence args, am_dst_chain = ia_dst_chain args,
      am_integrator_program_id = ia_integrator_program_id args,
      am_payload_hash = ia_payload_hash args\<rparr> s"
  using invoke_attest_message_calls [OF assms] .

theorem mock_adapter_attests_witness:
  "invoke_attest_message sample_platform
     \<lparr>ia_payer = writable_signer the_payer, ia_adapter_info = writable (adapter_key adapter_a),
      ia_adapter_pda = writable (fst (find_program_address sample_platform
        adapter_pda_seeds mock_adapter_id)),
      ia_integrator_chain_config = writable chain_key,
      ia_attestation_info = writable attestation_key,
      ia_event_authority = writable (fst (find_program_address sample_platform
        event_authority_seeds endpoint_id)),
      ia_program = writable endpoint_id, ia_system_program = writable system_program_id,
      ia_endpoint_program = writable endpoint_id\<rparr>
     \<lparr>ia_src_chain = 2, ia_src_addr = the_peer, ia_sequence = 7, ia_dst_chain = 1,
      ia_integrator_program_id = the_integrator, ia_payload_hash = the_payload,
      ia_message_hash = the_payload\<rparr> empty_ledger =
   Err (Anchor_Error AccountNotInitialized)" (is "invoke_attest_message _ ?acs ?args _ = _")
proof -
  have "invoke_attest_message_try_accounts sample_platform ?acs empty_ledger = Ok 255"
    by (simp add: invoke_attest_message_try_accounts_eq_Ok writable_def writable_signer_def
        sample_platform_def owner_of_def empty_ledger_def)
  from mock_adapter_attests [OF sample_laws(2) this, of ?args] show ?thesis
    by (simp add: attest_message_def attest_message_try_accounts_def signer_try_from_def
        passed_def account_try_from_def empty_ledger_def)
qed

end
