(* ===== verification/Isolation.thy ===== *)
theory Isolation
  imports Registry
begin

text \<open>
  Integrators do not interfere: an instruction writes the configuration, chain, adapter and
  tracker accounts of the one integrator it acts for, and of no other.
\<close>

text \<open>The integrator an account belongs to; messages and attestations belong to none.\<close>

fun account_integrator :: "account_data \<Rightarrow> pubkey option" where
  "account_integrator (Integrator_Config_Data c) = Some (ic_integrator_program_id c)"
| "account_integrator (Chain_Config_Data c) = Some (cc_integrator_program_id c)"
| "account_integrator (Adapter_Info_Data a) = Some (ad_integrator_program_id a)"
| "account_integrator (Sequence_Tracker_Data t) = Some (st_integrator_program_id t)"
| "account_integrator _ = None"

text \<open>The integrator whose accounts an instruction writes.\<close>

fun acts_for :: "ledger \<Rightarrow> instruction \<Rightarrow> pubkey option" where
  "acts_for s (Register acs args) = Some (ra_integrator_program_id args)"
| "acts_for s (Add_Adapter acs args) = Some (aa_integrator_program_id args)"
| "acts_for s (Enable_Recv_Adapter acs args) = Some (aia_integrator_program_id args)"
| "acts_for s (Enable_Send_Adapter acs args) = Some (aia_integrator_program_id args)"
| "acts_for s (Disable_Recv_Adapter acs args) = Some (aia_integrator_program_id args)"
| "acts_for s (Disable_Send_Adapter acs args) = Some (aia_integrator_program_id args)"
| "acts_for s (Update_Admin acs args) = Some (ua_integrator_program_id args)"
| "acts_for s (Transfer_Admin acs args) = Some (ta_integrator_program_id args)"
| "acts_for s (Claim_Admin acs) =
     map_option ic_integrator_program_id (config_at s (key (cl_integrator_config acs)))"
| "acts_for s (Discard_Admin acs) =
     map_option ic_integrator_program_id (config_at s (key (di_integrator_config acs)))"
| "acts_for s (Send_Message acs args) = Some (sm_integrator_program_id args)"
| "acts_for s _ = None"

text \<open>An account that may be written without touching an account of \<open>J\<close>.\<close>

definition foreign :: "ledger \<Rightarrow> pubkey \<Rightarrow> pubkey \<Rightarrow> bool" where
  "foreign s J l \<longleftrightarrow>
     \<not> in_use s l \<or> (\<exists>d. view s l = Some d \<and> account_integrator d \<noteq> Some J)"

definition untouched :: "ledger \<Rightarrow> ledger \<Rightarrow> pubkey \<Rightarrow> bool" where
  "untouched s s' J \<longleftrightarrow>
     (\<forall>k d. view s k = Some d \<and> account_integrator d = Some J \<longrightarrow> view s' k = Some d)"

lemma untouched_refl [simp]: "untouched s s J"
  by (simp add: untouched_def)

lemma untouched_emit [simp]: "untouched s (emit_cpi e s') J \<longleftrightarrow> untouched s s' J"
  by (simp add: untouched_def read_simps)

lemma untouched_store: "untouched s s' J \<Longrightarrow> foreign s J l \<Longrightarrow> untouched s (store l d s') J"
  unfolding untouched_def foreign_def by (auto simp: read_simps dest: view_not_in_use)

lemma untouched_close: "untouched s s' J \<Longrightarrow> foreign s J l \<Longrightarrow> untouched s (close_account l s') J"
  unfolding untouched_def foreign_def by (auto simp: read_simps dest: view_not_in_use)

lemma foreign_read:
  "\<not> in_use s l \<Longrightarrow> foreign s J l"
  "config_at s l = Some c \<Longrightarrow> ic_integrator_program_id c \<noteq> J \<Longrightarrow> foreign s J l"
  "chain_config_at s l = Some cc \<Longrightarrow> cc_integrator_program_id cc \<noteq> J \<Longrightarrow> foreign s J l"
  "tracker_at s l = Some t \<Longrightarrow> st_integrator_program_id t \<noteq> J \<Longrightarrow> foreign s J l"
  "outbox_at s l = Some m \<Longrightarrow> foreign s J l"
  "attestation_at s l = Some i \<Longrightarrow> foreign s J l"
  by (auto simp: foreign_def dest!: view_Some_read)

section \<open>Every instruction leaves other integrators alone\<close>

lemma attest_untouched:
  assumes "bitmaps_crate P" "attest_message P acs args s = Ok s'"
  shows "untouched s s' J"
proof (rule bitmaps_crate.attest_message_OkE [OF assms])
  fix s1 a cc i0 b i bm
  assume acc: "attest_message_try_accounts P acs args s = Ok (s1, a, cc, i0, b)"
    and s': "s' = emit_cpi (MessageAttestedTo (at_message_hash i) (am_src_chain args)
             (am_src_addr args) (am_sequence args) (am_dst_chain args)
             (from_pubkey (am_integrator_program_id args)) (am_payload_hash args)
             (as_value bm) (from_pubkey (am_adapter_program_id args)))
           (store (key (am_attestation_info acs))
              (Attestation_Info_Data (i\<lparr>at_attested_adapters := bm\<rparr>)) s)"
  have "foreign s J (key (am_attestation_info acs))"
    using acc foreign_read(1,6) by (auto simp: attest_message_try_accounts_eq_Ok)
  then show ?thesis unfolding s' by (simp add: untouched_store)
qed

lemma exec_untouched:
  assumes "exec_message P acs args s = Ok s'"
  shows "untouched s s' J"
proof -
  have "foreign s J (key (em_attestation_info acs))"
    using assms foreign_read(1,6)
    by (auto simp: exec_message_eq_Ok exec_message_try_accounts_eq_Ok)
  then show ?thesis
    using assms by (auto simp: exec_message_eq_Ok untouched_store)
qed

lemma recv_untouched:
  assumes "recv_message P acs args s = Ok s'"
  shows "untouched s s' J"
  using assms foreign_read(6)
  by (auto simp: recv_message_eq_Ok recv_message_try_accounts_eq_Ok untouched_store)

lemma pick_up_untouched:
  assumes "bitmaps_crate P" "pick_up_message P acs args s = Ok s'"
  shows "untouched s s' J"
proof -
  have "foreign s J (key (pu_outbox_message acs))"
    using assms(2) foreign_read(5) unfolding bitmaps_crate.pick_up_message_eq_Ok [OF assms(1)]
    by (auto simp: pick_up_message_try_accounts_eq_Ok)
  then show ?thesis
    by (rule_tac bitmaps_crate.pick_up_message_OkE [OF assms])
      (simp_all add: untouched_store untouched_close)
qed

lemma register_untouched: "register P acs args s = Ok s' \<Longrightarrow> untouched s s' J"
  by (auto simp: register_eq_Ok intro!: untouched_store foreign_read(1))

context deployment
begin

lemma foreign_config:
  assumes "wf_ledger P T s" "config_at s k = Some c"
    and "create_program_address P (integrator_config_seeds I @ [[ic_bump c]]) endpoint_id = Some k"
    and "integrator_config_seeds I \<in> T" "I \<noteq> J"
  shows "foreign s J k"
  using checked_config [OF assms(1,2), of I] assms(3-) foreign_read(2) [OF assms(2)]
  by (auto simp: checked_def)

lemma foreign_chain:
  assumes "wf_ledger P T s" "\<not> in_use s k \<or> chain_config_at s k \<noteq> None"
    and "fst (integrator_chain_config_pda P I ch) = k"
    and "integrator_chain_config_seeds I ch \<in> T" "I \<noteq> J"
  shows "foreign s J k"
proof (cases "in_use s k")
  case True
  then obtain cc where cc: "chain_config_at s k = Some cc" using assms(2) by blast
  have "checked P T k (integrator_chain_config_seeds I ch)
      (snd (integrator_chain_config_pda P I ch))"
    using find_create [of "integrator_chain_config_seeds I ch" endpoint_id] assms(3,4)
    by (simp add: checked_def integrator_chain_config_pda_def)
  then show ?thesis
    using checked_chain [OF assms(1) cc] assms(5) foreign_read(3) [OF cc] by simp
qed (simp add: foreign_read(1))

lemma add_adapter_untouched:
  assumes "wf_ledger P T s" "add_adapter P acs args s = Ok s'"
    and "seeds_used P s (Add_Adapter acs args) \<subseteq> T" "aa_integrator_program_id args \<noteq> J"
  shows "untouched s s' J"
proof -
  have "foreign s J (key (aa_integrator_config acs))" "foreign s J (key (aa_adapter_info acs))"
    using assms foreign_config [OF assms(1)] foreign_read(1)
    by (auto simp: add_adapter_eq_Ok add_adapter_try_accounts_eq_Ok)
  then show ?thesis
    using assms(2) by (auto simp: add_adapter_eq_Ok untouched_store)
qed

lemma update_admin_untouched:
  assumes "wf_ledger P T s" "update_admin P acs args s = Ok s'"
    and "seeds_used P s (Update_Admin acs args) \<subseteq> T" "ua_integrator_program_id args \<noteq> J"
  shows "untouched s s' J"
  using assms foreign_config [OF assms(1)]
  by (auto simp: update_admin_eq_Ok update_admin_try_accounts_eq_Ok intro!: untouched_store)

lemma transfer_admin_untouched:
  assumes "wf_ledger P T s" "transfer_admin P acs args s = Ok s'"
    and "seeds_used P s (Transfer_Admin acs args) \<subseteq> T" "ta_integrator_program_id args \<noteq> J"
  shows "untouched s s' J"
  using assms foreign_config [OF assms(1)]
  by (auto simp: transfer_admin_eq_Ok transfer_admin_try_accounts_eq_Ok intro!: untouched_store)

lemma send_message_untouched:
  assumes "wf_ledger P T s" "send_message P acs args s = Ok s'"
    and "seeds_used P s (Send_Message acs args) \<subseteq> T" "sm_integrator_program_id args \<noteq> J"
  shows "untouched s s' J"
proof -
  obtain s1 cc t where acc: "send_message_try_accounts P acs args s = Ok (s1, cc, t)"
    using assms(2) by (auto simp: send_message_eq_Ok)
  have "st_integrator_program_id t = sm_integrator_program_id args"
    using acc assms(3) checked_tracker [OF assms(1)]
    by (auto simp: send_message_try_accounts_eq_Ok checked_def)
  then have "foreign s J (key (sm_sequence_tracker acs))"
    using acc assms(4) foreign_read(4) by (auto simp: send_message_try_accounts_eq_Ok)
  moreover have "foreign s J (key (sm_outbox_message acs))"
    using acc foreign_read(1) by (simp add: send_message_try_accounts_eq_Ok)
  ultimately show ?thesis
    using assms(2) by (auto simp: send_message_eq_Ok untouched_store)
qed

end

lemma claim_admin_untouched:
  assumes "claim_admin P acs s = Ok s'" "acts_for s (Claim_Admin acs) \<noteq> Some J"
  shows "untouched s s' J"
  using assms foreign_read(2)
  by (auto simp: claim_admin_eq_Ok claim_admin_try_accounts_eq_Ok intro!: untouched_store)

lemma discard_admin_untouched:
  assumes "discard_admin P acs s = Ok s'" "acts_for s (Discard_Admin acs) \<noteq> Some J"
  shows "untouched s s' J"
  using assms foreign_read(2)
  by (auto simp: discard_admin_eq_Ok discard_admin_try_accounts_eq_Ok intro!: untouched_store)

context adapter_direction
begin

lemma enable_untouched:
  assumes "deployment P T" "wf_ledger P T s" "enable P acs args s = Ok s'"
    and "seeds_used P s (Enable_Recv_Adapter acs args) \<subseteq> T" "aia_integrator_program_id args \<noteq> J"
  shows "untouched s s' J"
proof -
  note crate = deployment.axioms(1) [OF assms(1)]
  have "foreign s J (key (en_integrator_chain_config acs))"
    using assms(3-5) deployment.foreign_chain [OF assms(1,2),
        of "key (en_integrator_chain_config acs)" "aia_integrator_program_id args"
          "aia_chain_id args" J]
    unfolding enable_eq_Ok [OF crate] by (auto simp: enable_adapter_try_accounts_eq_Ok)
  then show ?thesis
    using assms(3) unfolding enable_eq_Ok [OF crate] Let_def by (auto simp: untouched_store)
qed

lemma disable_untouched:
  assumes "deployment P T" "wf_ledger P T s" "disable P acs args s = Ok s'"
    and "seeds_used P s (Disable_Recv_Adapter acs args) \<subseteq> T" "aia_integrator_program_id args \<noteq> J"
  shows "untouched s s' J"
proof -
  note crate = deployment.axioms(1) [OF assms(1)]
  have "foreign s J (key (ds_integrator_chain_config acs))"
    using assms(3-5) deployment.foreign_chain [OF assms(1,2),
        of "key (ds_integrator_chain_config acs)" "aia_integrator_program_id args"
          "aia_chain_id args" J]
    unfolding disable_eq_Ok [OF crate] by (auto simp: disable_adapter_try_accounts_eq_Ok)
  then show ?thesis
    using assms(3) unfolding disable_eq_Ok [OF crate] by (auto simp: untouched_store)
qed

end

lemma process_untouched:
  assumes "deployment P T" "wf_ledger P T s" "process P ix s = Ok s'" "seeds_used P s ix \<subseteq> T"
    and "acts_for s ix \<noteq> Some J"
  shows "untouched s s' J"
proof (cases ix)
  case (Enable_Recv_Adapter acs args)
  then show ?thesis using assms recv.enable_untouched [OF assms(1,2)] by simp
next
  case (Enable_Send_Adapter acs args)
  then show ?thesis using assms send.enable_untouched [OF assms(1,2)] by simp
next
  case (Disable_Recv_Adapter acs args)
  then show ?thesis using assms recv.disable_untouched [OF assms(1,2)] by simp
next
  case (Disable_Send_Adapter acs args)
  then show ?thesis using assms send.disable_untouched [OF assms(1,2)] by simp
next
  case (Claim_Admin acs)
  then show ?thesis using assms(3,5) claim_admin_untouched by auto
next
  case (Discard_Admin acs)
  then show ?thesis using assms(3,5) discard_admin_untouched by auto
qed (use assms deployment.axioms(1) [OF assms(1)] in
  \<open>auto intro: register_untouched deployment.add_adapter_untouched
    deployment.update_admin_untouched deployment.transfer_admin_untouched
    deployment.send_message_untouched pick_up_untouched attest_untouched exec_untouched
    recv_untouched\<close>)

end
