(* ===== verification/Votes.thy ===== *)
theory Votes
  imports Registry
begin

text \<open>
  Where the votes for a message come from: the votes stored in an AttestationInfo only grow by
  \<^verbatim>\<open>attest_message\<close>, called by an adapter that is enabled for receiving from the source chain.
\<close>

section \<open>The votes stored at an address\<close>

definition votes :: "ledger \<Rightarrow> pubkey \<Rightarrow> nat set" where
  "votes s k = (case attestation_at s k of None \<Rightarrow> {} | Some i \<Rightarrow> adapters_of (at_attested_adapters i))"

lemma votes_emit [simp]: "votes (emit_cpi e s) k = votes s k"
  by (simp add: votes_def read_simps)

lemma votes_store:
  "votes (store l (Attestation_Info_Data i) s) k =
     (if k = l then adapters_of (at_attested_adapters i) else votes s k)"
  by (simp add: votes_def read_simps)

section \<open>Handlers that add no vote\<close>

context adapter_direction
begin

lemma enable_adds_no_vote:
  assumes "bitmaps_crate P" "enable P acs args s = Ok s'"
  shows "votes s' k \<subseteq> votes s k"
  using assms(2) unfolding enable_eq_Ok [OF assms(1)] Let_def
  by (auto simp: votes_def read_simps split: if_splits)

lemma disable_adds_no_vote:
  assumes "bitmaps_crate P" "disable P acs args s = Ok s'"
  shows "votes s' k \<subseteq> votes s k"
  using assms(2) unfolding disable_eq_Ok [OF assms(1)]
  by (auto simp: votes_def read_simps split: if_splits)

end

lemma pick_up_adds_no_vote:
  assumes "bitmaps_crate P" "pick_up_message P acs args s = Ok s'"
  shows "votes s' k \<subseteq> votes s k"
  by (rule bitmaps_crate.pick_up_message_OkE [OF assms]) (simp_all add: votes_def read_simps)

lemma recv_adds_no_vote:
  assumes "recv_message P acs args s = Ok s'"
  shows "votes s' k \<subseteq> votes s k"
  using assms
  by (auto simp: recv_message_eq_Ok recv_message_try_accounts_eq_Ok votes_def read_simps
      split: if_splits)

lemma exec_adds_no_vote:
  assumes "exec_message P acs args s = Ok s'"
  shows "votes s' k \<subseteq> votes s k"
  using assms
  by (auto simp: exec_message_eq_Ok exec_message_try_accounts_eq_Ok attestation_info_new_eq_Ok
      zero_attestation_info_def votes_def read_simps split: if_splits)

text \<open>The instructions that store no attestation at all.\<close>

lemma others_add_no_vote:
  "register P ra rg s = Ok s' \<Longrightarrow> votes s' k \<subseteq> votes s k"
  "add_adapter P aa ag s = Ok s' \<Longrightarrow> votes s' k \<subseteq> votes s k"
  "update_admin P ua ug s = Ok s' \<Longrightarrow> votes s' k \<subseteq> votes s k"
  "transfer_admin P ta tg s = Ok s' \<Longrightarrow> votes s' k \<subseteq> votes s k"
  "claim_admin P ca s = Ok s' \<Longrightarrow> votes s' k \<subseteq> votes s k"
  "discard_admin P da s = Ok s' \<Longrightarrow> votes s' k \<subseteq> votes s k"
  "send_message P sa sg s = Ok s' \<Longrightarrow> votes s' k \<subseteq> votes s k"
  by (auto simp: register_eq_Ok add_adapter_eq_Ok update_admin_eq_Ok transfer_admin_eq_Ok
      claim_admin_eq_Ok discard_admin_eq_Ok send_message_eq_Ok votes_def read_simps split: if_splits)

lemmas no_new_vote = recv.enable_adds_no_vote send.enable_adds_no_vote
  recv.disable_adds_no_vote send.disable_adds_no_vote pick_up_adds_no_vote

section \<open>A new vote\<close>

lemma attest_votes:
  assumes "bitmaps_crate P" "attest_message P acs args s = Ok s'" "n \<in> votes s' k" "n \<notin> votes s k"
  shows "\<exists>s1 a cc i b. attest_message_try_accounts P acs args s = Ok (s1, a, cc, i, b) \<and>
     k = key (am_attestation_info acs) \<and> n = unat (ad_index a) \<and>
     n \<in> adapters_of (cc_recv_adapter_bitmap cc) \<and> am_dst_chain args = CHAIN_ID"
proof (rule bitmaps_crate.attest_message_OkE [OF assms(1,2)])
  fix s1 a cc i0 b i bm
  assume acc: "attest_message_try_accounts P acs args s = Ok (s1, a, cc, i0, b)"
    and more: "am_dst_chain args = CHAIN_ID"
      "unat (ad_index a) \<in> adapters_of (cc_recv_adapter_bitmap cc)"
    and i: "if at_src_chain i0 = 0
     then attestation_info_new P b (am_src_chain args) (am_src_addr args) (am_sequence args)
            (am_dst_chain args) (from_pubkey (am_integrator_program_id args))
            (am_payload_hash args) = Ok i
     else i = i0"
    and bm: "adapters_of bm = insert (unat (ad_index a)) (adapters_of (at_attested_adapters i))"
    and s': "s' = emit_cpi (MessageAttestedTo (at_message_hash i) (am_src_chain args)
             (am_src_addr args) (am_sequence args) (am_dst_chain args)
             (from_pubkey (am_integrator_program_id args)) (am_payload_hash args)
             (as_value bm) (from_pubkey (am_adapter_program_id args)))
           (store (key (am_attestation_info acs))
              (Attestation_Info_Data (i\<lparr>at_attested_adapters := bm\<rparr>)) s)"
  have "adapters_of (at_attested_adapters i) \<subseteq> votes s (key (am_attestation_info acs))"
    using acc i
    by (auto simp: attest_message_try_accounts_eq_Ok attestation_info_new_eq_Ok
        zero_attestation_info_def votes_def split: if_splits)
  then have "k = key (am_attestation_info acs)" "n = unat (ad_index a)"
    using assms(3,4) unfolding s' by (auto simp: votes_store bm split: if_splits)
  then show ?thesis using acc more by blast
qed

lemma new_vote_attested:
  assumes "bitmaps_crate P" "process P ix s = Ok s'" "n \<in> votes s' k" "n \<notin> votes s k"
  shows "\<exists>acs args. ix = Attest_Message acs args \<and> attest_message P acs args s = Ok s'"
proof (rule ccontr)
  assume no: "\<nexists>acs args. ix = Attest_Message acs args \<and> attest_message P acs args s = Ok s'"
  have "votes s' k \<subseteq> votes s k"
    using assms(2) no
    by (cases ix)
      (auto elim!: no_new_vote [OF assms(1), THEN subsetD] others_add_no_vote [THEN subsetD]
        recv_adds_no_vote [THEN subsetD] exec_adds_no_vote [THEN subsetD])
  then show False using assms(3,4) by blast
qed

section \<open>Who votes\<close>

context deployment
begin

lemma new_vote:
  assumes "wf_ledger P T s" "process P ix s = Ok s'" "seeds_used P s ix \<subseteq> T"
    and "n \<in> votes s' k" "n \<notin> votes s k"
  shows "\<exists>acs args a cc. ix = Attest_Message acs args \<and>
     k = fst (attestation_info_pda P (am_message_hash P args)) \<and>
     am_dst_chain args = CHAIN_ID \<and> is_signer (am_adapter_pda acs) \<and>
     create_program_address P (adapter_pda_seeds @ [[am_adapter_pda_bump args]])
       (am_adapter_program_id args) = Some (key (am_adapter_pda acs)) \<and>
     adapter_info_at s (key (am_adapter_info acs)) = Some a \<and>
     ad_integrator_program_id a = am_integrator_program_id args \<and>
     ad_adapter_program_id a = am_adapter_program_id args \<and> unat (ad_index a) = n \<and>
     chain_config_at s (key (am_integrator_chain_config acs)) = Some cc \<and>
     cc_integrator_program_id cc = am_integrator_program_id args \<and>
     cc_chain_id cc = am_src_chain args \<and> n \<in> adapters_of (cc_recv_adapter_bitmap cc)"
proof -
  obtain acs args where ix: "ix = Attest_Message acs args"
    and ok: "attest_message P acs args s = Ok s'"
    using new_vote_attested [OF bitmaps_crate_axioms assms(2,4,5)] by blast
  obtain s1 a cc i b where acc: "attest_message_try_accounts P acs args s = Ok (s1, a, cc, i, b)"
    and k: "k = key (am_attestation_info acs)" "n = unat (ad_index a)"
      "n \<in> adapters_of (cc_recv_adapter_bitmap cc)" "am_dst_chain args = CHAIN_ID"
    using attest_votes [OF bitmaps_crate_axioms ok assms(4,5)] by blast
  note acc' = acc [unfolded attest_message_try_accounts_eq_Ok]
  have "ad_integrator_program_id a = am_integrator_program_id args \<and>
      ad_adapter_program_id a = am_adapter_program_id args"
    using acc' assms(3) by (intro checked_adapter [OF assms(1)]) (auto simp: checked_def ix)
  moreover have "cc_integrator_program_id cc = am_integrator_program_id args \<and>
      cc_chain_id cc = am_src_chain args"
    using acc' assms(3) by (intro checked_chain [OF assms(1)]) (auto simp: checked_def ix)
  ultimately show ?thesis
    using acc' k ix by auto
qed

end

end
