(* ===== verification/Router.thy ===== *)
theory Router
  imports State
begin

text \<open>
  What the endpoint promises, without accounts, addresses and bitmaps: a router keeps, for every
  integrator, its admin and its list of adapters, per chain the adapters that send and receive,
  the messages waiting in the outbox, the votes for incoming messages and the messages that were
  executed. \<open>perform\<close> says for every request whether it is granted and what it changes.
\<close>

section \<open>The state\<close>

record member =
  mb_admin :: "pubkey option"
  mb_pending :: "pubkey option"
  mb_adapters :: "pubkey list"

record parcel =
  pc_sender :: pubkey
  pc_number :: nat
  pc_dst_chain :: u16
  pc_dst_addr :: universal_address
  pc_payload_hash :: bytes32
  pc_waiting_for :: "pubkey set"
  pc_refund_recipient :: pubkey

record router =
  members :: "pubkey \<Rightarrow> member option"
  senders :: "pubkey \<times> u16 \<Rightarrow> pubkey set"
  receivers :: "pubkey \<times> u16 \<Rightarrow> pubkey set"
  sent :: "pubkey \<Rightarrow> nat option"          \<comment> \<open>how many messages the integrator has sent\<close>
  outbox :: "pubkey \<Rightarrow> parcel option"
  voted :: "bytes32 \<Rightarrow> nat set"           \<comment> \<open>positions in the receiver's list of adapters\<close>
  executed :: "bytes32 set"

definition new_router :: router where
  "new_router = \<lparr>members = (\<lambda>_. None), senders = (\<lambda>_. {}), receivers = (\<lambda>_. {}),
     sent = (\<lambda>_. None), outbox = (\<lambda>_. None), voted = (\<lambda>_. {}), executed = {}\<rparr>"

section \<open>The requests\<close>

datatype request =
    Join pubkey pubkey                       \<comment> \<open>integrator, admin\<close>
  | Add pubkey pubkey pubkey                 \<comment> \<open>caller, integrator, adapter\<close>
  | Start_Receiving pubkey pubkey u16 pubkey \<comment> \<open>caller, integrator, chain, adapter\<close>
  | Start_Sending pubkey pubkey u16 pubkey
  | Stop_Receiving pubkey pubkey u16 pubkey
  | Stop_Sending pubkey pubkey u16 pubkey
  | Replace_Admin pubkey pubkey pubkey       \<comment> \<open>caller, integrator, new admin\<close>
  | Offer_Admin pubkey pubkey pubkey
  | Settle_Admin pubkey pubkey               \<comment> \<open>caller, integrator\<close>
  | Drop_Admin pubkey pubkey
  | Send pubkey pubkey u16 universal_address bytes32 pubkey
                                             \<comment> \<open>integrator, box, message, refund recipient\<close>
  | Pick_Up pubkey pubkey                    \<comment> \<open>box, adapter\<close>
  | Vote pubkey u16 u16 pubkey bytes32       \<comment> \<open>receiver, source, destination, adapter, hash\<close>
  | Execute u16 u16 bytes32                  \<comment> \<open>source, destination, hash\<close>
  | Receive bytes32

text \<open>The admin acts alone, and not while an offer is open.\<close>

definition in_charge :: "pubkey \<Rightarrow> member \<Rightarrow> bool" where
  "in_charge who m \<longleftrightarrow> mb_admin m = Some who \<and> mb_pending m = None"

definition guarded :: "bool \<Rightarrow> 'a \<Rightarrow> 'a option" where
  "guarded b x = (if b then Some x else None)"

text \<open>What a member's request changes, when the integrator is a member.\<close>

definition for_member :: "router \<Rightarrow> pubkey \<Rightarrow> (member \<Rightarrow> router option) \<Rightarrow> router option" where
  "for_member r I f = (case members r I of None \<Rightarrow> None | Some m \<Rightarrow> f m)"

definition put_member :: "router \<Rightarrow> pubkey \<Rightarrow> member \<Rightarrow> router" where
  "put_member r I m = r\<lparr>members := (members r)(I := Some m)\<rparr>"

text \<open>The position of an adapter in a list.\<close>

definition position :: "pubkey \<Rightarrow> pubkey list \<Rightarrow> nat" where
  "position a xs = length (takeWhile (\<lambda>x. x \<noteq> a) xs)"

fun perform :: "request \<Rightarrow> router \<Rightarrow> router option" where
  "perform (Join I adm) r =
     guarded (members r I = None \<and> sent r I = None)
       (r\<lparr>members := (members r)(I := Some \<lparr>mb_admin = Some adm, mb_pending = None, mb_adapters = []\<rparr>),
          sent := (sent r)(I := Some 0)\<rparr>)"
| "perform (Add who I a) r = for_member r I (\<lambda>m.
     guarded (in_charge who m \<and> a \<notin> set (mb_adapters m) \<and> length (mb_adapters m) < MAX_ADAPTERS)
       (put_member r I (m\<lparr>mb_adapters := mb_adapters m @ [a]\<rparr>)))"
| "perform (Start_Receiving who I ch a) r = for_member r I (\<lambda>m.
     guarded (in_charge who m \<and> ch \<noteq> 0 \<and> a \<in> set (mb_adapters m) \<and> a \<notin> receivers r (I, ch))
       (r\<lparr>receivers := (receivers r)((I, ch) := insert a (receivers r (I, ch)))\<rparr>))"
| "perform (Start_Sending who I ch a) r = for_member r I (\<lambda>m.
     guarded (in_charge who m \<and> ch \<noteq> 0 \<and> a \<in> set (mb_adapters m) \<and> a \<notin> senders r (I, ch))
       (r\<lparr>senders := (senders r)((I, ch) := insert a (senders r (I, ch)))\<rparr>))"
| "perform (Stop_Receiving who I ch a) r = for_member r I (\<lambda>m.
     guarded (in_charge who m \<and> a \<in> receivers r (I, ch))
       (r\<lparr>receivers := (receivers r)((I, ch) := receivers r (I, ch) - {a})\<rparr>))"
| "perform (Stop_Sending who I ch a) r = for_member r I (\<lambda>m.
     guarded (in_charge who m \<and> a \<in> senders r (I, ch))
       (r\<lparr>senders := (senders r)((I, ch) := senders r (I, ch) - {a})\<rparr>))"
| "perform (Replace_Admin who I new) r = for_member r I (\<lambda>m.
     guarded (in_charge who m) (put_member r I (m\<lparr>mb_admin := Some new\<rparr>)))"
| "perform (Offer_Admin who I new) r = for_member r I (\<lambda>m.
     guarded (in_charge who m) (put_member r I (m\<lparr>mb_pending := Some new\<rparr>)))"
| "perform (Settle_Admin who I) r = for_member r I (\<lambda>m.
     guarded (mb_pending m \<noteq> None \<and> (mb_pending m = Some who \<or> mb_admin m = Some who))
       (put_member r I (m\<lparr>mb_admin := Some who, mb_pending := None\<rparr>)))"
| "perform (Drop_Admin who I) r = for_member r I (\<lambda>m.
     guarded (in_charge who m) (put_member r I (m\<lparr>mb_admin := None\<rparr>)))"
| "perform (Send I box ch addr payload refund) r = (case sent r I of None \<Rightarrow> None | Some n \<Rightarrow>
     guarded (senders r (I, ch) \<noteq> {} \<and> outbox r box = None \<and> n < 2 ^ 64 - 1)
       (r\<lparr>sent := (sent r)(I := Some (n + 1)),
          outbox := (outbox r)(box := Some \<lparr>pc_sender = I, pc_number = n, pc_dst_chain = ch,
            pc_dst_addr = addr, pc_payload_hash = payload, pc_waiting_for = senders r (I, ch),
            pc_refund_recipient = refund\<rparr>)\<rparr>))"
| "perform (Pick_Up box a) r = (case outbox r box of None \<Rightarrow> None | Some p \<Rightarrow>
     guarded (a \<in> pc_waiting_for p)
       (r\<lparr>outbox := (outbox r)(box := guarded (pc_waiting_for p \<noteq> {a})
            (p\<lparr>pc_waiting_for := pc_waiting_for p - {a}\<rparr>))\<rparr>))"
| "perform (Vote I ch dst a h) r = for_member r I (\<lambda>m.
     guarded (dst = CHAIN_ID \<and> a \<in> receivers r (I, ch) \<and> position a (mb_adapters m) \<notin> voted r h)
       (r\<lparr>voted := (voted r)(h := insert (position a (mb_adapters m)) (voted r h))\<rparr>))"
| "perform (Execute src dst h) r =
     guarded (h \<notin> executed r \<and> (voted r h \<noteq> {} \<or> src \<noteq> 0 \<and> dst \<noteq> 0))
       (r\<lparr>executed := insert h (executed r)\<rparr>)"
| "perform (Receive h) r =
     guarded (h \<notin> executed r \<and> voted r h \<noteq> {}) (r\<lparr>executed := insert h (executed r)\<rparr>)"

text \<open>A router state that some sequence of granted requests leads to.\<close>

inductive granted :: "router \<Rightarrow> bool" where
  granted_new: "granted new_router"
| granted_step: "granted r \<Longrightarrow> perform q r = Some r' \<Longrightarrow> granted r'"

section \<open>Positions\<close>

lemma position_nth [simp]: "distinct xs \<Longrightarrow> i < length xs \<Longrightarrow> position (xs ! i) xs = i"
proof (induction xs arbitrary: i)
  case (Cons x xs)
  then show ?case by (cases i) (auto simp: position_def)
qed simp

lemma guarded_eq_Some [simp]: "guarded b x = Some y \<longleftrightarrow> b \<and> y = x"
  by (auto simp: guarded_def)

lemma guarded_True [simp]: "guarded True x = Some x"
  by (simp add: guarded_def)

end
