(* ===== verification/Refinement.thy ===== *)
theory Refinement
  imports Registry Router
begin

text \<open>
  The endpoint implements the router: \<open>router_of\<close> reads the router's state off a ledger, and every
  successful instruction on a reachable ledger is a request that the router grants, with the
  same outcome.
\<close>

section \<open>Accounts found by their identity\<close>

text \<open>
  The account of the identity \<open>x\<close>: what stands at the program address of its seeds, when that is
  an account that stores this very identity.
\<close>

definition stored :: "'bm platform \<Rightarrow> (account_data \<Rightarrow> 'a option) \<Rightarrow> ('k \<Rightarrow> seeds) \<Rightarrow> ('a \<Rightarrow> 'k) \<Rightarrow>
    ledger \<Rightarrow> 'k \<Rightarrow> 'a option" where
  "stored P proj sds ident s x =
     (case read proj s (fst (find_program_address P (sds x) endpoint_id)) of None \<Rightarrow> None
      | Some v \<Rightarrow> if ident v = x then Some v else None)"

definition config_of :: "'bm platform \<Rightarrow> ledger \<Rightarrow> pubkey \<Rightarrow> integrator_config option" where
  "config_of P s = stored P as_integrator_config integrator_config_seeds ic_integrator_program_id s"

definition chain_of :: "'bm platform \<Rightarrow> ledger \<Rightarrow> pubkey \<times> u16 \<Rightarrow> integrator_chain_config option" where
  "chain_of P s = stored P as_chain_config (\<lambda>(I, ch). integrator_chain_config_seeds I ch)
     (\<lambda>cc. (cc_integrator_program_id cc, cc_chain_id cc)) s"

definition tracker_of :: "'bm platform \<Rightarrow> ledger \<Rightarrow> pubkey \<Rightarrow> sequence_tracker option" where
  "tracker_of P s = stored P as_sequence_tracker sequence_tracker_seeds st_integrator_program_id s"

definition attestation_of :: "'bm platform \<Rightarrow> ledger \<Rightarrow> bytes32 \<Rightarrow> attestation_info option" where
  "attestation_of P s = stored P as_attestation_info attestation_info_seeds at_message_hash s"

lemmas stored_defs = config_of_def chain_of_def tracker_of_def attestation_of_def

section \<open>The router of a ledger\<close>

definition member_of :: "integrator_config \<Rightarrow> member" where
  "member_of c = \<lparr>mb_admin = ic_admin c, mb_pending = ic_pending_admin c,
     mb_adapters = ic_adapter_infos c\<rparr>"

type_synonym configs = "pubkey \<Rightarrow> integrator_config option"

definition adapters_in :: "configs \<Rightarrow> pubkey \<Rightarrow> pubkey list" where
  "adapters_in C I = (case C I of None \<Rightarrow> [] | Some c \<Rightarrow> ic_adapter_infos c)"

text \<open>The adapters of an integrator that a bitmap stands for.\<close>

definition named :: "configs \<Rightarrow> pubkey \<Rightarrow> bitmap \<Rightarrow> pubkey set" where
  "named C I b = (\<lambda>i. adapters_in C I ! i) ` adapters_of b"

definition chain_adapters :: "(integrator_chain_config \<Rightarrow> bitmap) \<Rightarrow> configs \<Rightarrow>
    (pubkey \<times> u16 \<Rightarrow> integrator_chain_config option) \<Rightarrow> pubkey \<times> u16 \<Rightarrow> pubkey set" where
  "chain_adapters bitmap_of C H x =
     (case H x of None \<Rightarrow> {} | Some cc \<Rightarrow> named C (fst x) (bitmap_of cc))"

definition parcel_of :: "configs \<Rightarrow> outbox_message \<Rightarrow> parcel" where
  "parcel_of C m = \<lparr>pc_sender = to_pubkey (ob_src_addr m), pc_number = unat (ob_sequence m),
     pc_dst_chain = ob_dst_chain m, pc_dst_addr = ob_dst_addr m,
     pc_payload_hash = ob_payload_hash m,
     pc_waiting_for = named C (to_pubkey (ob_src_addr m)) (ob_outstanding_adapters m),
     pc_refund_recipient = ob_refund_recipient m\<rparr>"

definition votes_for :: "attestation_info option \<Rightarrow> nat set" where
  "votes_for i = (case i of None \<Rightarrow> {} | Some i \<Rightarrow> adapters_of (at_attested_adapters i))"

definition is_executed :: "attestation_info option \<Rightarrow> bool" where
  "is_executed i = (case i of None \<Rightarrow> False | Some i \<Rightarrow> at_executed i)"

definition router_from :: "configs \<Rightarrow> (pubkey \<times> u16 \<Rightarrow> integrator_chain_config option) \<Rightarrow>
    (pubkey \<Rightarrow> sequence_tracker option) \<Rightarrow> (pubkey \<Rightarrow> outbox_message option) \<Rightarrow>
    (bytes32 \<Rightarrow> attestation_info option) \<Rightarrow> router" where
  "router_from C H N B A = \<lparr>members = (\<lambda>I. map_option member_of (C I)),
     senders = chain_adapters cc_send_adapter_bitmap C H,
     receivers = chain_adapters cc_recv_adapter_bitmap C H,
     sent = (\<lambda>I. map_option (\<lambda>t. unat (st_sequence t)) (N I)),
     outbox = (\<lambda>k. map_option (parcel_of C) (B k)),
     voted = (\<lambda>h. votes_for (A h)), executed = {h. is_executed (A h)}\<rparr>"

definition router_of :: "'bm platform \<Rightarrow> ledger \<Rightarrow> router" where
  "router_of P s = router_from (config_of P s) (chain_of P s) (tracker_of P s) (outbox_at s)
     (attestation_of P s)"

text \<open>The request an instruction stands for.\<close>

fun request_of :: "'bm platform \<Rightarrow> ledger \<Rightarrow> instruction \<Rightarrow> request" where
  "request_of P s (Register acs args) = Join (ra_integrator_program_id args) (ra_admin args)"
| "request_of P s (Add_Adapter acs args) =
     Add (key (aa_admin acs)) (aa_integrator_program_id args) (aa_adapter_program_id args)"
| "request_of P s (Enable_Recv_Adapter acs args) = Start_Receiving (key (en_admin acs))
     (aia_integrator_program_id args) (aia_chain_id args) (aia_adapter_program_id args)"
| "request_of P s (Enable_Send_Adapter acs args) = Start_Sending (key (en_admin acs))
     (aia_integrator_program_id args) (aia_chain_id args) (aia_adapter_program_id args)"
| "request_of P s (Disable_Recv_Adapter acs args) = Stop_Receiving (key (ds_admin acs))
     (aia_integrator_program_id args) (aia_chain_id args) (aia_adapter_program_id args)"
| "request_of P s (Disable_Send_Adapter acs args) = Stop_Sending (key (ds_admin acs))
     (aia_integrator_program_id args) (aia_chain_id args) (aia_adapter_program_id args)"
| "request_of P s (Update_Admin acs args) =
     Replace_Admin (key (up_admin acs)) (ua_integrator_program_id args) (ua_new_admin args)"
| "request_of P s (Transfer_Admin acs args) =
     Offer_Admin (key (tr_admin acs)) (ta_integrator_program_id args) (ta_new_admin args)"
| "request_of P s (Claim_Admin acs) = Settle_Admin (key (cl_new_admin acs))
     (case config_at s (key (cl_integrator_config acs)) of
        None \<Rightarrow> system_program_id | Some c \<Rightarrow> ic_integrator_program_id c)"
| "request_of P s (Discard_Admin acs) = Drop_Admin (key (di_admin acs))
     (case config_at s (key (di_integrator_config acs)) of
        None \<Rightarrow> system_program_id | Some c \<Rightarrow> ic_integrator_program_id c)"
| "request_of P s (Send_Message acs args) = Send (sm_integrator_program_id args)
     (key (sm_outbox_message acs)) (sm_dst_chain args) (sm_dst_addr args) (sm_payload_hash args)
     (key (sm_payer acs))"
| "request_of P s (Pick_Up_Message acs args) =
     Pick_Up (key (pu_outbox_message acs)) (pu_adapter_program_id args)"
| "request_of P s (Attest_Message acs args) = Vote (am_integrator_program_id args)
     (am_src_chain args) (am_dst_chain args) (am_adapter_program_id args) (am_message_hash P args)"
| "request_of P s (Exec_Message acs args) =
     Execute (em_src_chain args) (em_dst_chain args) (em_message_hash P args)"
| "request_of P s (Recv_Message acs args) = Receive (rm_message_hash P args)"

section \<open>Reading after writing\<close>

lemma read_frame: "proj d = None \<Longrightarrow> read proj s k = None \<Longrightarrow> read proj (store k d s) = read proj s"
  by (rule ext) (simp add: read_simps)

lemma read_close_frame: "read proj s k = None \<Longrightarrow> read proj (close_account k s) = read proj s"
  by (rule ext) (simp add: read_simps)

lemma stored_cong: "read proj s' = read proj s \<Longrightarrow> stored P proj sds ident s' = stored P proj sds ident s"
  by (rule ext) (simp add: stored_def)

lemma stored_update:
  assumes "proj d = Some v" "fst (find_program_address P (sds (ident v)) endpoint_id) = k"
    and "\<And>v0. read proj s k = Some v0 \<Longrightarrow> ident v0 = ident v"
  shows "stored P proj sds ident (store k d s) = (stored P proj sds ident s)(ident v := Some v)"
proof
  fix x show "stored P proj sds ident (store k d s) x =
      ((stored P proj sds ident s)(ident v := Some v)) x"
    using assms by (cases "x = ident v") (auto simp: stored_def read_simps split: option.splits)
qed

lemma stored_emit [simp]: "stored P proj sds ident (emit_cpi e s) = stored P proj sds ident s"
  by (rule stored_cong) (simp add: read_simps)

lemma config_of_emit [simp]: "config_of P (emit_cpi e s) = config_of P s"
  by (simp add: config_of_def)

lemma router_of_emit [simp]: "router_of P (emit_cpi e s) = router_of P s"
  by (simp add: router_of_def stored_defs read_simps)

text \<open>An address holds nothing of the endpoint, or an account of one type.\<close>

lemma one_type:
  "config_at s k = Some c \<Longrightarrow> chain_config_at s k = None \<and> adapter_info_at s k = None \<and>
     tracker_at s k = None \<and> outbox_at s k = None \<and> attestation_at s k = None"
  "chain_config_at s k = Some cc \<Longrightarrow> config_at s k = None \<and> adapter_info_at s k = None \<and>
     tracker_at s k = None \<and> outbox_at s k = None \<and> attestation_at s k = None"
  "tracker_at s k = Some t \<Longrightarrow> config_at s k = None \<and> chain_config_at s k = None \<and>
     adapter_info_at s k = None \<and> outbox_at s k = None \<and> attestation_at s k = None"
  "outbox_at s k = Some m \<Longrightarrow> config_at s k = None \<and> chain_config_at s k = None \<and>
     adapter_info_at s k = None \<and> tracker_at s k = None \<and> attestation_at s k = None"
  "attestation_at s k = Some i \<Longrightarrow> config_at s k = None \<and> chain_config_at s k = None \<and>
     adapter_info_at s k = None \<and> tracker_at s k = None \<and> outbox_at s k = None"
  by (auto simp: read_def split: option.splits if_splits account_data.splits elim!:
      as_integrator_config.elims as_chain_config.elims as_sequence_tracker.elims
      as_outbox_message.elims as_attestation_info.elims)

lemma free_reads:
  "\<not> in_use s k \<Longrightarrow> config_at s k = None \<and> chain_config_at s k = None \<and> tracker_at s k = None \<and>
     outbox_at s k = None \<and> attestation_at s k = None"
  by (simp add: read_not_in_use)

lemmas stored_frame = stored_cong [OF read_frame]

section \<open>What a write does to the router\<close>

lemma router_from_chain: "router_from C (H(x := Some cc)) N B A = router_from C H N B A
   \<lparr>senders := (senders (router_from C H N B A))(x := named C (fst x) (cc_send_adapter_bitmap cc)),
    receivers := (receivers (router_from C H N B A))
      (x := named C (fst x) (cc_recv_adapter_bitmap cc))\<rparr>"
  by (simp add: router_from_def chain_adapters_def fun_eq_iff)

lemma router_from_tracker: "router_from C H (N(I := Some t)) B A = router_from C H N B A
   \<lparr>sent := (sent (router_from C H N B A))(I := Some (unat (st_sequence t)))\<rparr>"
  by (simp add: router_from_def fun_eq_iff)

lemma router_from_outbox: "router_from C H N (B(k := m)) A = router_from C H N B A
   \<lparr>outbox := (outbox (router_from C H N B A))(k := map_option (parcel_of C) m)\<rparr>"
  by (simp add: router_from_def fun_eq_iff)

lemma router_from_attestation: "router_from C H N B (A(h := Some i)) = router_from C H N B A
   \<lparr>voted := (voted (router_from C H N B A))(h := adapters_of (at_attested_adapters i)),
    executed := (if at_executed i then insert h (executed (router_from C H N B A))
      else executed (router_from C H N B A) - {h})\<rparr>"
  by (auto simp: router_from_def votes_for_def is_executed_def fun_eq_iff)

text \<open>A configuration that keeps its adapters, or appends some, changes no name in use.\<close>

lemma named_extended:
  assumes "\<And>i. i \<in> adapters_of b \<Longrightarrow> i < length (adapters_in C J)"
    and "\<exists>xs. ic_adapter_infos c = adapters_in C I @ xs"
  shows "named (C(I := Some c)) J b = named C J b"
  unfolding named_def using assms
  by (intro image_cong) (auto simp: adapters_in_def nth_append split: if_splits)

lemma router_from_config:
  assumes "\<And>x cc i. H x = Some cc \<Longrightarrow> i \<in> adapters_of (cc_send_adapter_bitmap cc) \<union>
       adapters_of (cc_recv_adapter_bitmap cc) \<Longrightarrow> i < length (adapters_in C (fst x))"
    and "\<And>k m i. B k = Some m \<Longrightarrow> i \<in> adapters_of (ob_outstanding_adapters m) \<Longrightarrow>
       i < length (adapters_in C (to_pubkey (ob_src_addr m)))"
    and "\<exists>xs. ic_adapter_infos c = adapters_in C I @ xs"
  shows "router_from (C(I := Some c)) H N B A = put_member (router_from C H N B A) I (member_of c)"
proof -
  have "chain_adapters f (C(I := Some c)) H = chain_adapters f C H"
    if "f = cc_send_adapter_bitmap \<or> f = cc_recv_adapter_bitmap" for f
    using that assms(1,3) by (auto simp: chain_adapters_def fun_eq_iff split: option.splits
        intro!: named_extended)
  moreover have "map_option (parcel_of (C(I := Some c))) (B k) = map_option (parcel_of C) (B k)" for k
    using assms(2,3) by (cases "B k") (auto simp: parcel_of_def intro!: named_extended)
  ultimately show ?thesis
    by (simp add: router_from_def put_member_def fun_eq_iff)
qed

text \<open>
  The writes of the handlers, each with the condition its handler checks: the address is the
  program address of the identity written, and it is unused or holds that identity already.
\<close>

lemma router_store_adapter_info:
  assumes "\<not> in_use s k"
  shows "router_of P (store k (Adapter_Info_Data a) s) = router_of P s"
  using free_reads [OF assms] by (simp add: router_of_def stored_defs stored_frame read_frame)

lemma router_store_config:
  assumes "fst (integrator_config_pda P (ic_integrator_program_id c)) = k"
    and "\<not> in_use s k \<or> (\<exists>c0. config_at s k = Some c0 \<and>
       ic_integrator_program_id c0 = ic_integrator_program_id c)"
  shows "router_of P (store k (Integrator_Config_Data c) s) =
     router_from ((config_of P s)(ic_integrator_program_id c := Some c)) (chain_of P s)
       (tracker_of P s) (outbox_at s) (attestation_of P s)"
proof -
  have "config_of P (store k (Integrator_Config_Data c) s) =
      (config_of P s)(ic_integrator_program_id c := Some c)"
    unfolding config_of_def
    by (rule stored_update) (use assms in \<open>auto simp: integrator_config_pda_def read_not_in_use\<close>)
  moreover have "chain_config_at s k = None \<and> tracker_at s k = None \<and> outbox_at s k = None \<and>
      attestation_at s k = None"
    using assms(2) free_reads one_type(1) by blast
  ultimately show ?thesis
    by (simp add: router_of_def chain_of_def tracker_of_def attestation_of_def stored_frame
        read_frame)
qed

lemma router_store_tracker:
  assumes "fst (sequence_tracker_pda P (st_integrator_program_id t)) = k"
    and "\<not> in_use s k \<or> (\<exists>t0. tracker_at s k = Some t0 \<and>
       st_integrator_program_id t0 = st_integrator_program_id t)"
  shows "router_of P (store k (Sequence_Tracker_Data t) s) = router_of P s
     \<lparr>sent := (sent (router_of P s))(st_integrator_program_id t := Some (unat (st_sequence t)))\<rparr>"
proof -
  have "tracker_of P (store k (Sequence_Tracker_Data t) s) =
      (tracker_of P s)(st_integrator_program_id t := Some t)"
    unfolding tracker_of_def
    by (rule stored_update) (use assms in \<open>auto simp: sequence_tracker_pda_def read_not_in_use\<close>)
  moreover have "config_at s k = None \<and> chain_config_at s k = None \<and> outbox_at s k = None \<and>
      attestation_at s k = None"
    using assms(2) free_reads one_type(3) by blast
  ultimately show ?thesis
    by (simp add: router_of_def config_of_def chain_of_def attestation_of_def stored_frame
        read_frame router_from_tracker)
qed

lemma router_store_attestation:
  assumes "fst (attestation_info_pda P (at_message_hash i)) = k"
    and "\<not> in_use s k \<or> (\<exists>i0. attestation_at s k = Some i0 \<and> at_message_hash i0 = at_message_hash i)"
  shows "router_of P (store k (Attestation_Info_Data i) s) = router_of P s
     \<lparr>voted := (voted (router_of P s))(at_message_hash i := adapters_of (at_attested_adapters i)),
      executed := (if at_executed i then insert (at_message_hash i) (executed (router_of P s))
        else executed (router_of P s) - {at_message_hash i})\<rparr>"
proof -
  have "attestation_of P (store k (Attestation_Info_Data i) s) =
      (attestation_of P s)(at_message_hash i := Some i)"
    unfolding attestation_of_def
    by (rule stored_update) (use assms in \<open>auto simp: attestation_info_pda_def read_not_in_use\<close>)
  moreover have "config_at s k = None \<and> chain_config_at s k = None \<and> outbox_at s k = None \<and>
      tracker_at s k = None"
    using assms(2) free_reads one_type(5) by blast
  ultimately show ?thesis
    by (simp add: router_of_def config_of_def chain_of_def tracker_of_def stored_frame
        read_frame router_from_attestation)
qed

lemma router_store_chain:
  assumes "fst (integrator_chain_config_pda P (cc_integrator_program_id cc) (cc_chain_id cc)) = k"
    and "\<not> in_use s k \<or> (\<exists>cc0. chain_config_at s k = Some cc0 \<and>
       cc_integrator_program_id cc0 = cc_integrator_program_id cc \<and>
       cc_chain_id cc0 = cc_chain_id cc)"
    and "x = (cc_integrator_program_id cc, cc_chain_id cc)"
  shows "router_of P (store k (Chain_Config_Data cc) s) = router_of P s
     \<lparr>senders := (senders (router_of P s))
        (x := named (config_of P s) (fst x) (cc_send_adapter_bitmap cc)),
      receivers := (receivers (router_of P s))
        (x := named (config_of P s) (fst x) (cc_recv_adapter_bitmap cc))\<rparr>"
proof -
  have "chain_of P (store k (Chain_Config_Data cc) s) = (chain_of P s)(x := Some cc)"
    unfolding chain_of_def assms(3)
    by (rule stored_update [where ident = "\<lambda>cc. (cc_integrator_program_id cc, cc_chain_id cc)"])
      (use assms in \<open>auto simp: integrator_chain_config_pda_def read_not_in_use\<close>)
  moreover have "config_at s k = None \<and> attestation_at s k = None \<and> outbox_at s k = None \<and>
      tracker_at s k = None"
    using assms(2) free_reads one_type(2) by blast
  ultimately show ?thesis
    by (simp add: router_of_def config_of_def attestation_of_def tracker_of_def stored_frame
        read_frame router_from_chain)
qed

lemma router_store_outbox:
  assumes "\<not> in_use s k \<or> outbox_at s k \<noteq> None"
  shows "router_of P (store k (Outbox_Message_Data m) s) = router_of P s
     \<lparr>outbox := (outbox (router_of P s))(k := Some (parcel_of (config_of P s) m))\<rparr>"
proof -
  have "outbox_at (store k (Outbox_Message_Data m) s) = (outbox_at s)(k := Some m)"
    by (simp add: read_simps fun_eq_iff)
  moreover have "config_at s k = None \<and> chain_config_at s k = None \<and> tracker_at s k = None \<and>
      attestation_at s k = None"
    using assms free_reads one_type(4) by blast
  ultimately show ?thesis
    by (simp add: router_of_def stored_defs stored_frame router_from_outbox)
qed

lemma router_close_outbox:
  assumes "outbox_at s k \<noteq> None"
  shows "router_of P (close_account k s) = router_of P s
     \<lparr>outbox := (outbox (router_of P s))(k := None)\<rparr>"
proof -
  have "outbox_at (close_account k s) = (outbox_at s)(k := None)"
    by (simp add: read_simps fun_eq_iff)
  moreover have "config_at s k = None \<and> chain_config_at s k = None \<and> tracker_at s k = None \<and>
      attestation_at s k = None"
    using assms one_type(4) by blast
  ultimately show ?thesis
    by (simp add: router_of_def stored_defs stored_cong [OF read_close_frame] router_from_outbox)
qed

section \<open>Finding the accounts of a well-formed ledger\<close>

lemma stored_iff:
  assumes "\<And>k v. read proj s k = Some v \<Longrightarrow>
      fst (find_program_address P (sds (ident v)) endpoint_id) = k"
  shows "stored P proj sds ident s x = Some v \<longleftrightarrow> (\<exists>k. read proj s k = Some v \<and> ident v = x)"
proof
  assume "stored P proj sds ident s x = Some v"
  then show "\<exists>k. read proj s k = Some v \<and> ident v = x"
    by (auto simp: stored_def split: option.splits if_splits)
next
  assume "\<exists>k. read proj s k = Some v \<and> ident v = x"
  then obtain k where k: "read proj s k = Some v" "ident v = x" by blast
  then show "stored P proj sds ident s x = Some v"
    using assms [OF k(1)] by (simp add: stored_def)
qed

lemma config_of_iff:
  assumes "wf_ledger P T s"
  shows "config_of P s I = Some c \<longleftrightarrow> (\<exists>k. config_at s k = Some c \<and> ic_integrator_program_id c = I)"
  unfolding config_of_def
  by (rule stored_iff) (use config.wf_readD [OF assms] in \<open>auto simp: derived_def\<close>)

lemma chain_of_iff:
  assumes "wf_ledger P T s"
  shows "chain_of P s x = Some cc \<longleftrightarrow> (\<exists>k. chain_config_at s k = Some cc \<and>
     (cc_integrator_program_id cc, cc_chain_id cc) = x)"
  unfolding chain_of_def
  by (rule stored_iff) (use chain_config.wf_readD [OF assms] in \<open>auto simp: derived_def\<close>)

lemma tracker_of_iff:
  assumes "wf_ledger P T s"
  shows "tracker_of P s I = Some t \<longleftrightarrow> (\<exists>k. tracker_at s k = Some t \<and> st_integrator_program_id t = I)"
  unfolding tracker_of_def
  by (rule stored_iff) (use tracker.wf_readD [OF assms] in \<open>auto simp: derived_def\<close>)

lemma attestation_of_iff:
  assumes "wf_ledger P T s"
  shows "attestation_of P s h = Some i \<longleftrightarrow> (\<exists>k. attestation_at s k = Some i \<and> at_message_hash i = h)"
  unfolding attestation_of_def
  by (rule stored_iff) (use attestation.wf_readD [OF assms] in \<open>fastforce simp: derived_def\<close>)

lemma stored_reads:
  assumes "wf_ledger P T s"
  shows "config_at s k = Some c \<Longrightarrow> config_of P s (ic_integrator_program_id c) = Some c"
    "chain_config_at s k = Some cc \<Longrightarrow>
       chain_of P s (cc_integrator_program_id cc, cc_chain_id cc) = Some cc"
    "tracker_at s k = Some t \<Longrightarrow> tracker_of P s (st_integrator_program_id t) = Some t"
    "attestation_at s k = Some i \<Longrightarrow> attestation_of P s (at_message_hash i) = Some i"
  by (auto simp: config_of_iff [OF assms] chain_of_iff [OF assms] tracker_of_iff [OF assms]
      attestation_of_iff [OF assms])

section \<open>Names of adapters\<close>

lemma has_adapters_length:
  assumes "wf_ledger P T s" "has_adapters s I (Suc i)"
  shows "i < length (adapters_in (config_of P s) I)"
proof -
  obtain k c where "config_at s k = Some c" "ic_integrator_program_id c = I"
    "Suc i \<le> length (ic_adapter_infos c)"
    using assms(2) by (auto simp: has_adapters_def)
  then have "config_of P s I = Some c" "i < length (ic_adapter_infos c)"
    using config_of_iff [OF assms(1)] by auto
  then show ?thesis by (simp add: adapters_in_def)
qed

lemma chain_bits_bound:
  assumes "wf_ledger P T s" "registry_ok s" "chain_of P s x = Some cc"
    and "i \<in> adapters_of (cc_send_adapter_bitmap cc) \<union> adapters_of (cc_recv_adapter_bitmap cc)"
  shows "i < length (adapters_in (config_of P s) (fst x))"
proof -
  obtain k where "chain_config_at s k = Some cc"
    "(cc_integrator_program_id cc, cc_chain_id cc) = x"
    using assms(3) chain_of_iff [OF assms(1)] by blast
  then have "has_adapters s (fst x) (Suc i)"
    using assms(2,4) by (auto simp: registry_ok_def chains_bounded_def)
  then show ?thesis by (rule has_adapters_length [OF assms(1)])
qed

lemma outbox_bits_bound:
  assumes "wf_ledger P T s" "registry_ok s" "outbox_at s k = Some m"
    and "i \<in> adapters_of (ob_outstanding_adapters m)"
  shows "i < length (adapters_in (config_of P s) (to_pubkey (ob_src_addr m)))"
  using assms has_adapters_length [OF assms(1)] by (auto simp: registry_ok_def outbox_bounded_def)

lemma named_with:
  assumes "i < 128"
  shows "named C I (with_adapter i b) = insert (adapters_in C I ! i) (named C I b)"
  using assms by (simp add: named_def)

lemma nth_in_named:
  assumes "distinct (adapters_in C I)" "i < length (adapters_in C I)"
    and "\<And>j. j \<in> adapters_of b \<Longrightarrow> j < length (adapters_in C I)"
  shows "adapters_in C I ! i \<in> named C I b \<longleftrightarrow> i \<in> adapters_of b"
  using assms by (auto simp: named_def nth_eq_iff_index_eq)

lemma named_without:
  assumes "distinct (adapters_in C I)" "i < length (adapters_in C I)"
    and "\<And>j. j \<in> adapters_of b \<Longrightarrow> j < length (adapters_in C I)"
  shows "named C I (without_adapter i b) = named C I b - {adapters_in C I ! i}"
  using assms by (auto simp: named_def nth_eq_iff_index_eq)

text \<open>The chain account \<open>k\<close> of \<open>x\<close>, or the fresh one that stands for it.\<close>

definition chain_account :: "'bm platform \<Rightarrow> ledger \<Rightarrow> pubkey \<Rightarrow> pubkey \<times> u16 \<Rightarrow>
    integrator_chain_config \<Rightarrow> bool" where
  "chain_account P s k x cc \<longleftrightarrow> fst (integrator_chain_config_pda P (fst x) (snd x)) = k \<and>
     (cc_integrator_program_id cc, cc_chain_id cc) = x \<and>
     (chain_config_at s k = Some cc \<or> \<not> in_use s k \<and> cc_send_adapter_bitmap cc = bitmap_new \<and>
        cc_recv_adapter_bitmap cc = bitmap_new)"

context deployment
begin

text \<open>An AdapterInfo account names an entry of its integrator's list, at the index it stores.\<close>

lemma adapter_named:
  assumes "wf_ledger P T s" "registry_ok s" "adapter_info_at s k = Some a"
  obtains c where "config_of P s (ad_integrator_program_id a) = Some c"
    "unat (ad_index a) < length (ic_adapter_infos c)"
    "ic_adapter_infos c ! unat (ad_index a) = ad_adapter_program_id a"
    "distinct (ic_adapter_infos c)"
proof -
  obtain kc c where c: "config_at s kc = Some c"
    "ic_integrator_program_id c = ad_integrator_program_id a"
    "unat (ad_index a) < length (ic_adapter_infos c)"
    "ic_adapter_infos c ! unat (ad_index a) = ad_adapter_program_id a"
    using assms(2,3) unfolding registry_ok_def adapters_listed_def by blast
  moreover have "distinct (ic_adapter_infos c)"
    using backed_distinct_adapters [OF assms(1) _ c(1)] assms(2) by (simp add: registry_ok_def)
  ultimately show ?thesis using that config_of_iff [OF assms(1)] by blast
qed

section \<open>Requests about a configuration\<close>

lemma config_of_checked:
  assumes "wf_ledger P T s" "config_at s k = Some c"
    and "create_program_address P (integrator_config_seeds I @ [[b]]) endpoint_id = Some k"
    and "integrator_config_seeds I \<in> T"
  shows "config_of P s I = Some c \<and> ic_integrator_program_id c = I"
  using checked_config [OF assms(1,2), of I b] assms(2-4) config_of_iff [OF assms(1)]
  by (auto simp: checked_def)

lemma router_put_config:
  assumes "wf_ledger P T s" "registry_ok s" "config_at s k = Some c0"
    and "ic_integrator_program_id c = ic_integrator_program_id c0"
    and "\<exists>xs. ic_adapter_infos c = ic_adapter_infos c0 @ xs"
  shows "router_of P (store k (Integrator_Config_Data c) s) =
     put_member (router_of P s) (ic_integrator_program_id c0) (member_of c)"
proof -
  have "fst (integrator_config_pda P (ic_integrator_program_id c)) = k"
    using config.wf_readD [OF assms(1,3)] assms(4)
    by (auto simp: derived_def integrator_config_pda_def)
  then have "router_of P (store k (Integrator_Config_Data c) s) =
      router_from ((config_of P s)(ic_integrator_program_id c0 := Some c)) (chain_of P s)
        (tracker_of P s) (outbox_at s) (attestation_of P s)"
    using router_store_config [of P c k s] assms(3,4) by auto
  also have "\<dots> = put_member (router_of P s) (ic_integrator_program_id c0) (member_of c)"
    unfolding router_of_def
  proof (rule router_from_config)
    show "\<exists>xs. ic_adapter_infos c =
        adapters_in (config_of P s) (ic_integrator_program_id c0) @ xs"
      using stored_reads(1) [OF assms(1,3)] assms(5) by (simp add: adapters_in_def)
  qed (fact chain_bits_bound [OF assms(1,2)], fact outbox_bits_bound [OF assms(1,2)])
  finally show ?thesis .
qed

lemma members_router: "members (router_of P s) I = map_option member_of (config_of P s I)"
  by (simp add: router_of_def router_from_def)

lemma in_charge_member [simp]:
  "in_charge who (member_of c) \<longleftrightarrow> ic_admin c = Some who \<and> ic_pending_admin c = None"
  by (simp add: in_charge_def member_of_def)

lemma update_admin_refines:
  assumes "wf_ledger P T s" "registry_ok s" "update_admin P acs args s = Ok s'"
    and "seeds_used P s (Update_Admin acs args) \<subseteq> T"
  shows "perform (request_of P s (Update_Admin acs args)) (router_of P s) = Some (router_of P s')"
proof -
  obtain c where acc: "update_admin_try_accounts P acs args s = Ok c"
    and adm: "ic_admin c = Some (key (up_admin acs))" "ic_pending_admin c = None"
    and s': "s' = emit_cpi (AdminUpdated (ua_integrator_program_id args) (ua_new_admin args)
        (ua_new_admin args)) (store (key (up_integrator_config acs))
          (Integrator_Config_Data (c\<lparr>ic_admin := Some (ua_new_admin args)\<rparr>)) s)"
    using assms(3) unfolding update_admin_eq_Ok by blast
  have c: "config_at s (key (up_integrator_config acs)) = Some c"
    "config_of P s (ua_integrator_program_id args) = Some c"
    "ic_integrator_program_id c = ua_integrator_program_id args"
    using acc config_of_checked [OF assms(1)] assms(4)
    by (auto simp: update_admin_try_accounts_eq_Ok)
  show ?thesis
    unfolding s' using adm c router_put_config [OF assms(1,2) c(1)]
    by (simp add: for_member_def members_router) (simp add: member_of_def)
qed

lemma transfer_admin_refines:
  assumes "wf_ledger P T s" "registry_ok s" "transfer_admin P acs args s = Ok s'"
    and "seeds_used P s (Transfer_Admin acs args) \<subseteq> T"
  shows "perform (request_of P s (Transfer_Admin acs args)) (router_of P s) = Some (router_of P s')"
proof -
  obtain c where acc: "transfer_admin_try_accounts P acs args s = Ok c"
    and adm: "ic_admin c = Some (key (tr_admin acs))" "ic_pending_admin c = None"
    and s': "s' = emit_cpi (AdminUpdateRequested (ta_integrator_program_id args)
        (key (tr_admin acs)) (ta_new_admin args)) (store (key (tr_integrator_config acs))
          (Integrator_Config_Data (c\<lparr>ic_pending_admin := Some (ta_new_admin args)\<rparr>)) s)"
    using assms(3) unfolding transfer_admin_eq_Ok by blast
  have c: "config_at s (key (tr_integrator_config acs)) = Some c"
    "config_of P s (ta_integrator_program_id args) = Some c"
    "ic_integrator_program_id c = ta_integrator_program_id args"
    using acc config_of_checked [OF assms(1)] assms(4)
    by (auto simp: transfer_admin_try_accounts_eq_Ok)
  show ?thesis
    unfolding s' using adm c router_put_config [OF assms(1,2) c(1)]
    by (simp add: for_member_def members_router) (simp add: member_of_def)
qed

lemma claim_admin_refines:
  assumes "wf_ledger P T s" "registry_ok s" "claim_admin P acs s = Ok s'"
  shows "perform (request_of P s (Claim_Admin acs)) (router_of P s) = Some (router_of P s')"
proof -
  obtain c where acc: "claim_admin_try_accounts P acs s = Ok c"
    and s': "s' = emit_cpi (AdminUpdated (ic_integrator_program_id c) (key (cl_new_admin acs))
        (key (cl_new_admin acs))) (store (key (cl_integrator_config acs)) (Integrator_Config_Data
          (c\<lparr>ic_admin := Some (key (cl_new_admin acs)), ic_pending_admin := None\<rparr>)) s)"
    using assms(3) unfolding claim_admin_eq_Ok by blast
  have c: "config_at s (key (cl_integrator_config acs)) = Some c"
    "config_of P s (ic_integrator_program_id c) = Some c"
    and who: "ic_pending_admin c \<noteq> None" "ic_pending_admin c = Some (key (cl_new_admin acs)) \<or>
      ic_admin c = Some (key (cl_new_admin acs))"
    using acc stored_reads(1) [OF assms(1)] by (auto simp: claim_admin_try_accounts_eq_Ok)
  show ?thesis
    unfolding s' using who c router_put_config [OF assms(1,2) c(1)]
    by (simp add: for_member_def members_router) (simp add: member_of_def)
qed

lemma discard_admin_refines:
  assumes "wf_ledger P T s" "registry_ok s" "discard_admin P acs s = Ok s'"
  shows "perform (request_of P s (Discard_Admin acs)) (router_of P s) = Some (router_of P s')"
proof -
  obtain c where acc: "discard_admin_try_accounts P acs s = Ok c"
    and adm: "ic_admin c = Some (key (di_admin acs))" "ic_pending_admin c = None"
    and s': "s' = emit_cpi (AdminDiscarded (ic_integrator_program_id c))
        (store (key (di_integrator_config acs)) (Integrator_Config_Data (c\<lparr>ic_admin := None\<rparr>)) s)"
    using assms(3) unfolding discard_admin_eq_Ok by blast
  have c: "config_at s (key (di_integrator_config acs)) = Some c"
    "config_of P s (ic_integrator_program_id c) = Some c"
    using acc stored_reads(1) [OF assms(1)] by (auto simp: discard_admin_try_accounts_eq_Ok)
  show ?thesis
    unfolding s' using adm c router_put_config [OF assms(1,2) c(1)]
    by (simp add: for_member_def members_router) (simp add: member_of_def)
qed

lemma register_refines:
  assumes "wf_ledger P T s" "registry_ok s" "register P acs args s = Ok s'"
  shows "perform (request_of P s (Register acs args)) (router_of P s) = Some (router_of P s')"
proof -
  let ?I = "ra_integrator_program_id args"
  let ?kc = "key (rg_integrator_config acs)" and ?kt = "key (rg_sequence_tracker acs)"
  obtain cb tb where pda: "integrator_config_pda P ?I = (?kc, cb)" "sequence_tracker_pda P ?I = (?kt, tb)"
    and free: "\<not> in_use s ?kc" "\<not> in_use s ?kt" "?kt \<noteq> ?kc"
    and s': "s' = emit_cpi (IntegratorRegistered ?I (ra_admin args))
      (store ?kt (Sequence_Tracker_Data \<lparr>st_bump = tb, st_integrator_program_id = ?I, st_sequence = 0\<rparr>)
      (store ?kc (Integrator_Config_Data \<lparr>ic_bump = cb, ic_integrator_program_id = ?I,
         ic_admin = Some (ra_admin args), ic_pending_admin = None, ic_adapter_infos = []\<rparr>) s))"
    using assms(3) unfolding register_eq_Ok by blast
  let ?c = "\<lparr>ic_bump = cb, ic_integrator_program_id = ?I, ic_admin = Some (ra_admin args),
      ic_pending_admin = None, ic_adapter_infos = []\<rparr>"
  have none: "config_of P s ?I = None" "tracker_of P s ?I = None"
    using pda free free_reads
    by (simp_all add: stored_defs stored_def integrator_config_pda_def sequence_tracker_pda_def)
  have "router_of P (store ?kc (Integrator_Config_Data ?c) s) =
      router_from ((config_of P s)(?I := Some ?c)) (chain_of P s) (tracker_of P s) (outbox_at s)
        (attestation_of P s)"
    using router_store_config [of P ?c ?kc s] pda(1) free(1) by simp
  also have "\<dots> = put_member (router_of P s) ?I (member_of ?c)"
    unfolding router_of_def
    by (rule router_from_config) (use none chain_bits_bound [OF assms(1,2)]
        outbox_bits_bound [OF assms(1,2)] in \<open>auto simp: adapters_in_def\<close>)
  finally show ?thesis
    unfolding s' using none pda(2) free
    by (simp add: router_store_tracker read_simps put_member_def member_of_def)
      (simp add: router_of_def router_from_def)
qed

lemma add_adapter_refines:
  assumes "wf_ledger P T s" "registry_ok s" "add_adapter P acs args s = Ok s'"
    and "seeds_used P s (Add_Adapter acs args) \<subseteq> T"
  shows "perform (request_of P s (Add_Adapter acs args)) (router_of P s) = Some (router_of P s')"
proof -
  let ?I = "aa_integrator_program_id args" and ?A = "aa_adapter_program_id args"
  obtain s1 c b where acc: "add_adapter_try_accounts P acs args s = Ok (s1, c, b)"
    and adm: "ic_admin c = Some (key (aa_admin acs))" "ic_pending_admin c = None"
      "length (ic_adapter_infos c) < 128"
    and s': "s' = emit_cpi (AdapterAdded ?I ?A (of_nat (length (ic_adapter_infos c))))
       (store (key (aa_adapter_info acs)) (Adapter_Info_Data \<lparr>ad_bump = b,
          ad_integrator_program_id = ?I, ad_adapter_program_id = ?A,
          ad_index = of_nat (length (ic_adapter_infos c))\<rparr>)
       (store (key (aa_integrator_config acs)) (Integrator_Config_Data
          (c\<lparr>ic_adapter_infos := ic_adapter_infos c @ [?A]\<rparr>)) s))"
    using assms(3) unfolding add_adapter_eq_Ok by blast
  have c: "config_at s (key (aa_integrator_config acs)) = Some c" "config_of P s ?I = Some c"
    "ic_integrator_program_id c = ?I"
    and free: "\<not> in_use s (key (aa_adapter_info acs))"
      "key (aa_adapter_info acs) \<noteq> key (aa_integrator_config acs)"
    using acc config_of_checked [OF assms(1)] assms(4)
      read_SomeD [of as_integrator_config s "key (aa_integrator_config acs)" c]
    by (auto simp: add_adapter_try_accounts_eq_Ok)
  have new: "?A \<notin> set (ic_adapter_infos c)"
  proof
    assume "?A \<in> set (ic_adapter_infos c)"
    then obtain i where "i < length (ic_adapter_infos c)" "ic_adapter_infos c ! i = ?A"
      by (auto simp: in_set_conv_nth)
    then obtain ka a where a: "adapter_info_at s ka = Some a" "ad_integrator_program_id a = ?I"
      "ad_adapter_program_id a = ?A"
      using assms(2) c(1,3) unfolding registry_ok_def adapters_backed_def by metis
    then have "ka = key (aa_adapter_info acs)"
      using adapter_account.wf_readD [OF assms(1) a(1)] acc
      by (auto simp: derived_def add_adapter_try_accounts_eq_Ok adapter_info_pda_def)
    then show False using read_SomeD [OF a(1)] free(1) by simp
  qed
  show ?thesis
    unfolding s' using adm c new free router_put_config [OF assms(1,2) c(1)]
    by (simp add: for_member_def members_router router_store_adapter_info read_simps)
      (simp add: member_of_def MAX_ADAPTERS_def)
qed

section \<open>Requests about a chain\<close>

lemma chain_adapters_eq:
  "chain_of P s x = Some cc \<Longrightarrow>
     senders (router_of P s) x = named (config_of P s) (fst x) (cc_send_adapter_bitmap cc) \<and>
     receivers (router_of P s) x = named (config_of P s) (fst x) (cc_recv_adapter_bitmap cc)"
  "chain_of P s x = None \<Longrightarrow> senders (router_of P s) x = {} \<and> receivers (router_of P s) x = {}"
  by (simp_all add: router_of_def router_from_def chain_adapters_def)

lemma bitmap_new_empty: "adapters_of bitmap_new = {}"
  by (simp add: adapters_of_def bitmap_new_def bits_def)

lemma checked_adapter_named:
  assumes "wf_ledger P T s" "registry_ok s" "adapter_info_at s k = Some a"
    and "create_program_address P (adapter_info_seeds I A @ [[b]]) endpoint_id = Some k"
    and "adapter_info_seeds I A \<in> T" "config_of P s I = Some c"
  shows "distinct (ic_adapter_infos c) \<and> unat (ad_index a) < length (ic_adapter_infos c) \<and>
     ic_adapter_infos c ! unat (ad_index a) = A"
proof -
  have "ad_integrator_program_id a = I" "ad_adapter_program_id a = A"
    using checked_adapter [OF assms(1,3), of I A b] assms(4,5) by (simp_all add: checked_def)
  then show ?thesis
    using adapter_named [OF assms(1-3)] assms(6) by (metis option.inject)
qed

lemma chain_account_of:
  assumes "wf_ledger P T s" "chain_account P s k x cc"
  shows "chain_of P s x = Some cc \<or> chain_of P s x = None \<and>
      cc_send_adapter_bitmap cc = bitmap_new \<and> cc_recv_adapter_bitmap cc = bitmap_new"
proof (cases "in_use s k")
  case True
  then show ?thesis
    using assms(2) stored_reads(2) [OF assms(1)] by (auto simp: chain_account_def)
next
  case False
  then have "chain_of P s x = None"
    using assms(2) free_reads [OF False]
    by (simp add: chain_account_def chain_of_def stored_def integrator_chain_config_pda_def split_beta)
  then show ?thesis
    using assms(2) read_not_in_use [OF False, of as_chain_config] by (simp add: chain_account_def)
qed

lemma chain_account_router:
  assumes "wf_ledger P T s" "registry_ok s" "chain_account P s k x cc"
  shows "senders (router_of P s) x = named (config_of P s) (fst x) (cc_send_adapter_bitmap cc)"
    "receivers (router_of P s) x = named (config_of P s) (fst x) (cc_recv_adapter_bitmap cc)"
    "\<And>j. j \<in> adapters_of (cc_send_adapter_bitmap cc) \<union> adapters_of (cc_recv_adapter_bitmap cc) \<Longrightarrow>
       j < length (adapters_in (config_of P s) (fst x))"
  using chain_account_of [OF assms(1,3)] chain_adapters_eq [of s x]
    chain_bits_bound [OF assms(1,2), of x cc]
  by (auto simp: named_def bitmap_new_empty)

lemma chain_account_store:
  assumes "wf_ledger P T s" "registry_ok s" "chain_account P s k x cc"
  shows "router_of P (store k (Chain_Config_Data (cc\<lparr>cc_send_adapter_bitmap := bm\<rparr>)) s) =
      router_of P s\<lparr>senders := (senders (router_of P s))(x := named (config_of P s) (fst x) bm)\<rparr>"
    "router_of P (store k (Chain_Config_Data (cc\<lparr>cc_recv_adapter_bitmap := bm\<rparr>)) s) =
      router_of P s\<lparr>receivers := (receivers (router_of P s))(x := named (config_of P s) (fst x) bm)\<rparr>"
  using assms(3) chain_account_router(1,2) [OF assms, symmetric]
    router_store_chain [of P "cc\<lparr>cc_send_adapter_bitmap := bm\<rparr>" k s x]
    router_store_chain [of P "cc\<lparr>cc_recv_adapter_bitmap := bm\<rparr>" k s x]
  by (auto simp: chain_account_def fun_upd_idem)

lemma opened_chain_account:
  assumes "wf_ledger P T s" "integrator_chain_config_pda P (aia_integrator_program_id args)
      (aia_chain_id args) = (k, b)"
    and "integrator_chain_config_seeds (aia_integrator_program_id args) (aia_chain_id args) \<in> T"
    and "\<not> in_use s k \<and> cc = zero_chain_config \<or> chain_config_at s k = Some cc"
  shows "chain_account P s k (aia_integrator_program_id args, aia_chain_id args)
     (initial_chain_config args b cc)"
  using assms(4)
proof
  assume cc: "chain_config_at s k = Some cc"
  have "derived P T k (integrator_chain_config_seeds (aia_integrator_program_id args)
      (aia_chain_id args)) b"
    using assms(2,3) by (simp add: derived_def integrator_chain_config_pda_def)
  from checked_chain [OF assms(1) cc derived_checked [OF this]] show ?thesis
    using chain_config.wf_readD [OF assms(1) cc] cc assms(2) by (auto simp: chain_account_def initial_chain_config_def)
qed (use assms(2) in \<open>simp add: chain_account_def initial_chain_config_def zero_chain_config_def\<close>)

text \<open>What the account constraints of \<^verbatim>\<open>EnableAdapter\<close> and \<^verbatim>\<open>DisableAdapter\<close> say about the router.\<close>

lemma enable_adapter_facts:
  assumes "wf_ledger P T s" "registry_ok s"
    and "enable_adapter_try_accounts P acs args s = Ok (s1, c, a, cc, b)"
    and "{integrator_config_seeds (aia_integrator_program_id args),
      integrator_chain_config_seeds (aia_integrator_program_id args) (aia_chain_id args),
      adapter_info_seeds (aia_integrator_program_id args) (aia_adapter_program_id args)} \<subseteq> T"
  shows "config_of P s (aia_integrator_program_id args) = Some c"
    "distinct (ic_adapter_infos c) \<and> unat (ad_index a) < length (ic_adapter_infos c) \<and>
     ic_adapter_infos c ! unat (ad_index a) = aia_adapter_program_id args"
    "chain_account P s (key (en_integrator_chain_config acs))
       (aia_integrator_program_id args, aia_chain_id args) (initial_chain_config args b cc)"
proof -
  note acc = assms(3) [unfolded enable_adapter_try_accounts_eq_Ok]
  show config: "config_of P s (aia_integrator_program_id args) = Some c"
    using acc config_of_checked [OF assms(1)] assms(4) by auto
  show "distinct (ic_adapter_infos c) \<and> unat (ad_index a) < length (ic_adapter_infos c) \<and>
     ic_adapter_infos c ! unat (ad_index a) = aia_adapter_program_id args"
    using acc assms(4) by (intro checked_adapter_named [OF assms(1,2) _ _ _ config]) auto
  show "chain_account P s (key (en_integrator_chain_config acs))
       (aia_integrator_program_id args, aia_chain_id args) (initial_chain_config args b cc)"
    using acc assms(4) by (intro opened_chain_account [OF assms(1)]) auto
qed

lemma disable_adapter_facts:
  assumes "wf_ledger P T s" "registry_ok s"
    and "disable_adapter_try_accounts P acs args s = Ok (c, cc, a)"
    and "{integrator_config_seeds (aia_integrator_program_id args),
      integrator_chain_config_seeds (aia_integrator_program_id args) (aia_chain_id args),
      adapter_info_seeds (aia_integrator_program_id args) (aia_adapter_program_id args)} \<subseteq> T"
  shows "config_of P s (aia_integrator_program_id args) = Some c"
    "distinct (ic_adapter_infos c) \<and> unat (ad_index a) < length (ic_adapter_infos c) \<and>
     ic_adapter_infos c ! unat (ad_index a) = aia_adapter_program_id args"
    "chain_account P s (key (ds_integrator_chain_config acs))
       (aia_integrator_program_id args, aia_chain_id args) cc"
proof -
  note acc = assms(3) [unfolded disable_adapter_try_accounts_eq_Ok]
  show config: "config_of P s (aia_integrator_program_id args) = Some c"
    using acc config_of_checked [OF assms(1)] assms(4) by auto
  show "distinct (ic_adapter_infos c) \<and> unat (ad_index a) < length (ic_adapter_infos c) \<and>
     ic_adapter_infos c ! unat (ad_index a) = aia_adapter_program_id args"
    using acc assms(4) by (intro checked_adapter_named [OF assms(1,2) _ _ _ config]) auto
  obtain b where pda: "integrator_chain_config_pda P (aia_integrator_program_id args)
      (aia_chain_id args) = (key (ds_integrator_chain_config acs), b)"
    using acc by (metis prod.collapse)
  have cc: "chain_config_at s (key (ds_integrator_chain_config acs)) = Some cc" using acc by blast
  have "initial_chain_config args b cc = cc"
    using chain_config.wf_readD [OF assms(1) cc] by (simp add: initial_chain_config_def)
  then show "chain_account P s (key (ds_integrator_chain_config acs))
       (aia_integrator_program_id args, aia_chain_id args) cc"
    using opened_chain_account [OF assms(1) pda, of cc] cc assms(4) by auto
qed

lemma chain_account_adapter:
  assumes "wf_ledger P T s" "registry_ok s" "chain_account P s k x cc"
    and "config_of P s (fst x) = Some c"
    and "distinct (ic_adapter_infos c) \<and> i < length (ic_adapter_infos c) \<and> ic_adapter_infos c ! i = A"
    and "f = cc_send_adapter_bitmap \<or> f = cc_recv_adapter_bitmap"
  shows "A \<in> named (config_of P s) (fst x) (f cc) \<longleftrightarrow> i \<in> adapters_of (f cc)"
    "i < 128 \<Longrightarrow> named (config_of P s) (fst x) (with_adapter i (f cc)) =
       insert A (named (config_of P s) (fst x) (f cc))"
    "named (config_of P s) (fst x) (without_adapter i (f cc)) =
       named (config_of P s) (fst x) (f cc) - {A}"
proof -
  let ?C = "config_of P s"
  have list: "adapters_in ?C (fst x) = ic_adapter_infos c"
    using assms(4) by (simp add: adapters_in_def)
  have bound: "j < length (adapters_in ?C (fst x))" if "j \<in> adapters_of (f cc)" for j
    using chain_account_router(3) [OF assms(1-3), of j] that assms(6) by auto
  have A: "distinct (adapters_in ?C (fst x))" "i < length (adapters_in ?C (fst x))"
    "adapters_in ?C (fst x) ! i = A"
    using assms(5) by (simp_all add: list)
  show "A \<in> named ?C (fst x) (f cc) \<longleftrightarrow> i \<in> adapters_of (f cc)"
    using nth_in_named [OF A(1,2) bound] A(3) by simp
  show "i < 128 \<Longrightarrow> named ?C (fst x) (with_adapter i (f cc)) = insert A (named ?C (fst x) (f cc))"
    using named_with [of i ?C "fst x"] A(3) by simp
  show "named ?C (fst x) (without_adapter i (f cc)) = named ?C (fst x) (f cc) - {A}"
    using named_without [OF A(1,2) bound] A(3) by simp
qed

lemma member_adapter:
  assumes "distinct (ic_adapter_infos c) \<and> i < length (ic_adapter_infos c) \<and> ic_adapter_infos c ! i = A"
  shows "A \<in> set (mb_adapters (member_of c))" "position A (mb_adapters (member_of c)) = i"
  using assms position_nth [of "ic_adapter_infos c" i] nth_mem [of i "ic_adapter_infos c"]
  by (simp_all add: member_of_def)

lemma enable_recv_refines:
  assumes "wf_ledger P T s" "registry_ok s" "enable_recv_adapter P acs args s = Ok s'"
    and "seeds_used P s (Enable_Recv_Adapter acs args) \<subseteq> T"
  shows "perform (request_of P s (Enable_Recv_Adapter acs args)) (router_of P s) =
     Some (router_of P s')"
proof -
  obtain s1 c a cc b where acc: "enable_adapter_try_accounts P acs args s = Ok (s1, c, a, cc, b)"
    and adm: "ic_admin c = Some (key (en_admin acs))" "ic_pending_admin c = None"
      "aia_chain_id args \<noteq> 0" "unat (ad_index a) < 128"
      "unat (ad_index a) \<notin> adapters_of (cc_recv_adapter_bitmap (initial_chain_config args b cc))"
    and s': "s' = emit_cpi (RecvAdapterEnabledForChain (aia_integrator_program_id args)
         (aia_chain_id args) (aia_adapter_program_id args))
       (store (key (en_integrator_chain_config acs)) (Chain_Config_Data
          ((initial_chain_config args b cc)\<lparr>cc_recv_adapter_bitmap := with_adapter
             (unat (ad_index a)) (cc_recv_adapter_bitmap (initial_chain_config args b cc))\<rparr>)) s)"
    using assms(3) unfolding recv.enable_eq_Ok [OF bitmaps_crate_axioms] Let_def by blast
  note facts = enable_adapter_facts [OF assms(1,2) acc assms(4) [unfolded seeds_used.simps]]
  note chain = chain_account_router [OF assms(1,2) facts(3)]
    chain_account_adapter [OF assms(1,2) facts(3) _ facts(2), of cc_recv_adapter_bitmap]
  show ?thesis
    unfolding s' using adm facts(1) chain member_adapter [OF facts(2)]
    by (simp add: for_member_def members_router chain_account_store [OF assms(1,2) facts(3)])
qed

lemma enable_send_refines:
  assumes "wf_ledger P T s" "registry_ok s" "enable_send_adapter P acs args s = Ok s'"
    and "seeds_used P s (Enable_Send_Adapter acs args) \<subseteq> T"
  shows "perform (request_of P s (Enable_Send_Adapter acs args)) (router_of P s) =
     Some (router_of P s')"
proof -
  obtain s1 c a cc b where acc: "enable_adapter_try_accounts P acs args s = Ok (s1, c, a, cc, b)"
    and adm: "ic_admin c = Some (key (en_admin acs))" "ic_pending_admin c = None"
      "aia_chain_id args \<noteq> 0" "unat (ad_index a) < 128"
      "unat (ad_index a) \<notin> adapters_of (cc_send_adapter_bitmap (initial_chain_config args b cc))"
    and s': "s' = emit_cpi (SendAdapterEnabledForChain (aia_integrator_program_id args)
         (aia_chain_id args) (aia_adapter_program_id args))
       (store (key (en_integrator_chain_config acs)) (Chain_Config_Data
          ((initial_chain_config args b cc)\<lparr>cc_send_adapter_bitmap := with_adapter
             (unat (ad_index a)) (cc_send_adapter_bitmap (initial_chain_config args b cc))\<rparr>)) s)"
    using assms(3) unfolding send.enable_eq_Ok [OF bitmaps_crate_axioms] Let_def by blast
  note facts = enable_adapter_facts [OF assms(1,2) acc assms(4) [unfolded seeds_used.simps]]
  note chain = chain_account_router [OF assms(1,2) facts(3)]
    chain_account_adapter [OF assms(1,2) facts(3) _ facts(2), of cc_send_adapter_bitmap]
  show ?thesis
    unfolding s' using adm facts(1) chain member_adapter [OF facts(2)]
    by (simp add: for_member_def members_router chain_account_store [OF assms(1,2) facts(3)])
qed

lemma disable_recv_refines:
  assumes "wf_ledger P T s" "registry_ok s" "disable_recv_adapter P acs args s = Ok s'"
    and "seeds_used P s (Disable_Recv_Adapter acs args) \<subseteq> T"
  shows "perform (request_of P s (Disable_Recv_Adapter acs args)) (router_of P s) =
     Some (router_of P s')"
proof -
  obtain c cc a where acc: "disable_adapter_try_accounts P acs args s = Ok (c, cc, a)"
    and adm: "ic_admin c = Some (key (ds_admin acs))" "ic_pending_admin c = None"
      "unat (ad_index a) \<in> adapters_of (cc_recv_adapter_bitmap cc)"
    and s': "s' = emit_cpi (RecvAdapterDisabledForChain (aia_integrator_program_id args)
         (aia_chain_id args) (aia_adapter_program_id args))
       (store (key (ds_integrator_chain_config acs)) (Chain_Config_Data
          (cc\<lparr>cc_recv_adapter_bitmap := without_adapter (unat (ad_index a))
             (cc_recv_adapter_bitmap cc)\<rparr>)) s)"
    using assms(3) unfolding recv.disable_eq_Ok [OF bitmaps_crate_axioms] by blast
  note facts = disable_adapter_facts [OF assms(1,2) acc assms(4) [unfolded seeds_used.simps]]
  note chain = chain_account_router [OF assms(1,2) facts(3)]
    chain_account_adapter [OF assms(1,2) facts(3) _ facts(2), of cc_recv_adapter_bitmap]
  show ?thesis
    unfolding s' using adm facts(1) chain
    by (simp add: for_member_def members_router chain_account_store [OF assms(1,2) facts(3)])
qed

lemma disable_send_refines:
  assumes "wf_ledger P T s" "registry_ok s" "disable_send_adapter P acs args s = Ok s'"
    and "seeds_used P s (Disable_Send_Adapter acs args) \<subseteq> T"
  shows "perform (request_of P s (Disable_Send_Adapter acs args)) (router_of P s) =
     Some (router_of P s')"
proof -
  obtain c cc a where acc: "disable_adapter_try_accounts P acs args s = Ok (c, cc, a)"
    and adm: "ic_admin c = Some (key (ds_admin acs))" "ic_pending_admin c = None"
      "unat (ad_index a) \<in> adapters_of (cc_send_adapter_bitmap cc)"
    and s': "s' = emit_cpi (SendAdapterDisabledForChain (aia_integrator_program_id args)
         (aia_chain_id args) (aia_adapter_program_id args))
       (store (key (ds_integrator_chain_config acs)) (Chain_Config_Data
          (cc\<lparr>cc_send_adapter_bitmap := without_adapter (unat (ad_index a))
             (cc_send_adapter_bitmap cc)\<rparr>)) s)"
    using assms(3) unfolding send.disable_eq_Ok [OF bitmaps_crate_axioms] by blast
  note facts = disable_adapter_facts [OF assms(1,2) acc assms(4) [unfolded seeds_used.simps]]
  note chain = chain_account_router [OF assms(1,2) facts(3)]
    chain_account_adapter [OF assms(1,2) facts(3) _ facts(2), of cc_send_adapter_bitmap]
  show ?thesis
    unfolding s' using adm facts(1) chain
    by (simp add: for_member_def members_router chain_account_store [OF assms(1,2) facts(3)])
qed

section \<open>Requests about messages\<close>

text \<open>What the account constraints of \<^verbatim>\<open>SendMessage\<close> say about the router.\<close>

lemma send_message_facts:
  assumes "wf_ledger P T s" "send_message_try_accounts P acs args s = Ok (s1, cc, t)"
    and "seeds_used P s (Send_Message acs args) \<subseteq> T"
  shows "st_integrator_program_id t = sm_integrator_program_id args"
    "fst (sequence_tracker_pda P (sm_integrator_program_id args)) = key (sm_sequence_tracker acs)"
    "sent (router_of P s) (sm_integrator_program_id args) = Some (unat (st_sequence t))"
    "senders (router_of P s) (sm_integrator_program_id args, sm_dst_chain args) =
      named (config_of P s) (sm_integrator_program_id args) (cc_send_adapter_bitmap cc)"
proof -
  let ?I = "sm_integrator_program_id args" and ?kt = "key (sm_sequence_tracker acs)"
  note acc = assms(2) [unfolded send_message_try_accounts_eq_Ok]
  show t: "st_integrator_program_id t = ?I"
    using acc checked_tracker [OF assms(1)] assms(3) by (auto simp: checked_def)
  show "fst (sequence_tracker_pda P ?I) = ?kt"
    using acc tracker.wf_readD [OF assms(1), of ?kt t] t
    by (auto simp: derived_def sequence_tracker_pda_def)
  show "sent (router_of P s) ?I = Some (unat (st_sequence t))"
    using acc stored_reads(3) [OF assms(1), of ?kt t] t by (simp add: router_of_def router_from_def)
  have "(cc_integrator_program_id cc, cc_chain_id cc) = (?I, sm_dst_chain args)"
    using acc checked_chain [OF assms(1)] assms(3) by (auto simp: checked_def)
  then have "chain_of P s (?I, sm_dst_chain args) = Some cc"
    using acc stored_reads(2) [OF assms(1)] by metis
  then show "senders (router_of P s) (?I, sm_dst_chain args) =
      named (config_of P s) ?I (cc_send_adapter_bitmap cc)"
    using chain_adapters_eq(1) by simp
qed

lemma send_message_refines:
  assumes "wf_ledger P T s" "registry_ok s" "send_message P acs args s = Ok s'"
    and "seeds_used P s (Send_Message acs args) \<subseteq> T"
  shows "perform (request_of P s (Send_Message acs args)) (router_of P s) = Some (router_of P s')"
proof -
  let ?I = "sm_integrator_program_id args" and ?k = "key (sm_outbox_message acs)"
  obtain s1 cc t t' q where acc: "send_message_try_accounts P acs args s = Ok (s1, cc, t)"
    and some: "\<not> bitmap_is_empty P (cc_send_adapter_bitmap cc)" and n: "next_sequence t = Ok (t', q)"
    and s': "s' = emit_cpi (MessageSent (from_pubkey ?I) (st_sequence t') (sm_dst_addr args)
         (sm_dst_chain args) (sm_payload_hash args))
       (store ?k (Outbox_Message_Data \<lparr>ob_src_addr = from_pubkey ?I, ob_sequence = q,
          ob_dst_chain = sm_dst_chain args, ob_dst_addr = sm_dst_addr args,
          ob_payload_hash = sm_payload_hash args,
          ob_outstanding_adapters = cc_send_adapter_bitmap cc,
          ob_refund_recipient = key (sm_payer acs)\<rparr>)
       (store (key (sm_sequence_tracker acs)) (Sequence_Tracker_Data t') s))"
    using assms(3) unfolding send_message_eq_Ok by blast
  note acc' = acc [unfolded send_message_try_accounts_eq_Ok]
  note facts = send_message_facts [OF assms(1) acc assms(4)]
  let ?s = "store (key (sm_sequence_tracker acs)) (Sequence_Tracker_Data t') s"
  have t': "t' = t\<lparr>st_sequence := st_sequence t'\<rparr>" and q: "q = st_sequence t"
    and n1: "unat (st_sequence t') = unat (st_sequence t) + 1"
    using n by (simp_all add: next_sequence_eq_Ok)
  have I': "st_integrator_program_id t' = ?I"
    using arg_cong [OF t', of st_integrator_program_id] facts(1) by simp
  have max: "unat (st_sequence t) < 2 ^ 64 - 1"
    using n1 unsigned_less [of "st_sequence t'", where 'a = nat] by simp
  have config: "config_of P ?s = config_of P s"
    using acc' one_type(3) by (simp add: config_of_def stored_frame)
  have r: "router_of P ?s = router_of P s
      \<lparr>sent := (sent (router_of P s))(?I := Some (unat (st_sequence t')))\<rparr>"
    using router_store_tracker [of P t'] facts(1,2) acc' I' by auto
  have free: "\<not> in_use ?s ?k" "outbox (router_of P s) ?k = None"
    using acc' send_message_try_accounts_distinct [OF acc] free_reads [of s ?k]
    by (simp_all add: read_simps router_of_def router_from_def)
  have "senders (router_of P s) (?I, sm_dst_chain args) \<noteq> {}"
    using facts(4) some by (simp add: bitmap_is_empty_unfold named_def)
  then show ?thesis
    unfolding s' using max free q n1 facts(3,4)
    by (simp add: router_store_outbox r config parcel_of_def)
qed

lemma pick_up_named:
  assumes "wf_ledger P T s" "registry_ok s" "pick_up_message_try_accounts P acs args s = Ok (m, a)"
    and "seeds_used P s (Pick_Up_Message acs args) \<subseteq> T"
  shows "pu_adapter_program_id args \<in>
      named (config_of P s) (to_pubkey (ob_src_addr m)) (ob_outstanding_adapters m) \<longleftrightarrow>
     unat (ad_index a) \<in> adapters_of (ob_outstanding_adapters m)"
    "named (config_of P s) (to_pubkey (ob_src_addr m))
       (without_adapter (unat (ad_index a)) (ob_outstanding_adapters m)) =
     named (config_of P s) (to_pubkey (ob_src_addr m)) (ob_outstanding_adapters m) -
       {pu_adapter_program_id args}"
proof -
  let ?C = "config_of P s" and ?J = "to_pubkey (ob_src_addr m)" and ?i = "unat (ad_index a)"
  note acc = assms(3) [unfolded pick_up_message_try_accounts_eq_Ok]
  have a: "ad_integrator_program_id a = ?J" "ad_adapter_program_id a = pu_adapter_program_id args"
    using acc checked_adapter [OF assms(1), of "key (pu_adapter_info acs)" a] assms(4)
    by (auto simp: checked_def)
  obtain c where c: "?C ?J = Some c" "distinct (ic_adapter_infos c)"
    "?i < length (ic_adapter_infos c)" "ic_adapter_infos c ! ?i = pu_adapter_program_id args"
    using adapter_named [OF assms(1,2), of "key (pu_adapter_info acs)" a] acc a by metis
  have list: "adapters_in ?C ?J = ic_adapter_infos c" using c(1) by (simp add: adapters_in_def)
  have bound: "j < length (adapters_in ?C ?J)" if "j \<in> adapters_of (ob_outstanding_adapters m)" for j
    using outbox_bits_bound [OF assms(1,2) _ that] acc by blast
  show "pu_adapter_program_id args \<in> named ?C ?J (ob_outstanding_adapters m) \<longleftrightarrow>
      ?i \<in> adapters_of (ob_outstanding_adapters m)"
    using nth_in_named [of ?C ?J ?i, OF _ _ bound] c by (simp add: list)
  show "named ?C ?J (without_adapter ?i (ob_outstanding_adapters m)) =
      named ?C ?J (ob_outstanding_adapters m) - {pu_adapter_program_id args}"
    using named_without [of ?C ?J ?i, OF _ _ bound] c by (simp add: list)
qed

lemma named_cong: "adapters_of b = adapters_of b' \<Longrightarrow> named C I b = named C I b'"
  by (simp add: named_def)

lemma pick_up_message_refines:
  assumes "wf_ledger P T s" "registry_ok s" "pick_up_message P acs args s = Ok s'"
    and "seeds_used P s (Pick_Up_Message acs args) \<subseteq> T"
  shows "perform (request_of P s (Pick_Up_Message acs args)) (router_of P s) = Some (router_of P s')"
proof -
  let ?k = "key (pu_outbox_message acs)"
  have box: "outbox_at s ?k = Some m \<Longrightarrow>
      outbox (router_of P s) ?k = Some (parcel_of (config_of P s) m)" for m
    by (simp add: router_of_def router_from_def)
  show ?thesis
    using assms(3)
  proof (cases rule: pick_up_message_OkE)
    case (last m a)
    then have m: "outbox_at s ?k = Some m" by (simp add: pick_up_message_try_accounts_eq_Ok)
    have "named (config_of P s) (to_pubkey (ob_src_addr m)) (ob_outstanding_adapters m) =
        {pu_adapter_program_id args}"
      using pick_up_named(1) [OF assms(1,2) last(1) assms(4)] by (simp add: named_def last(2))
    then show ?thesis
      using m by (simp add: last(3) box router_close_outbox read_simps parcel_of_def guarded_def)
  next
    case (more m a bm)
    then have m: "outbox_at s ?k = Some m" by (simp add: pick_up_message_try_accounts_eq_Ok)
    let ?N = "named (config_of P s) (to_pubkey (ob_src_addr m))"
    have "?N bm = ?N (without_adapter (unat (ad_index a)) (ob_outstanding_adapters m))"
      by (rule named_cong) (simp add: more(3))
    then have N: "?N bm = ?N (ob_outstanding_adapters m) - {pu_adapter_program_id args}"
      "pu_adapter_program_id args \<in> ?N (ob_outstanding_adapters m)"
      using pick_up_named [OF assms(1,2) more(1) assms(4)] more(2) by simp_all
    moreover have "?N bm \<noteq> {}" using more(4) by (simp add: named_def)
    ultimately have "?N (ob_outstanding_adapters m) \<noteq> {pu_adapter_program_id args}" by blast
    then show ?thesis
      using m N(2) by (simp add: more(5) box router_store_outbox read_simps parcel_of_def guarded_def N(1))
  qed
qed

section \<open>Requests about votes\<close>

lemma attestation_parts:
  "voted (router_of P s) h = votes_for (attestation_of P s h)"
  "h \<in> executed (router_of P s) \<longleftrightarrow> is_executed (attestation_of P s h)"
  by (simp_all add: router_of_def router_from_def)

text \<open>The stored attestation of the hash \<open>h\<close>, or the fresh one, at the program address of \<open>h\<close>.\<close>

lemma attestation_account:
  assumes "wf_ledger P T s" "attestation_info_pda P h = (k, b)" "attestation_info_seeds h \<in> T"
    and "attestation_at s k = Some i \<or> \<not> in_use s k \<and> \<not> at_executed i \<and>
       at_attested_adapters i = bitmap_new \<and> at_message_hash i = h"
  shows "at_message_hash i = h" "adapters_of (at_attested_adapters i) = votes_for (attestation_of P s h)"
    "at_executed i \<longleftrightarrow> is_executed (attestation_of P s h)"
    "\<not> in_use s k \<or> (\<exists>i0. attestation_at s k = Some i0 \<and> at_message_hash i0 = h)"
proof -
  have "at_message_hash i = h \<and>
      adapters_of (at_attested_adapters i) = votes_for (attestation_of P s h) \<and>
      (at_executed i \<longleftrightarrow> is_executed (attestation_of P s h)) \<and>
      (\<not> in_use s k \<or> (\<exists>i0. attestation_at s k = Some i0 \<and> at_message_hash i0 = h))"
    using assms(4)
  proof
    assume i: "attestation_at s k = Some i"
    have "derived P T k (attestation_info_seeds h) b"
      using assms(2,3) by (simp add: derived_def attestation_info_pda_def)
    from checked_attestation [OF assms(1) i derived_checked [OF this]] have h: "at_message_hash i = h" .
    then show ?thesis
      using i stored_reads(4) [OF assms(1) i] by (auto simp: votes_for_def is_executed_def)
  next
    assume free: "\<not> in_use s k \<and> \<not> at_executed i \<and> at_attested_adapters i = bitmap_new \<and>
      at_message_hash i = h"
    then have "attestation_of P s h = None"
      using assms(2) free_reads [of s k]
      by (simp add: attestation_of_def stored_def attestation_info_pda_def)
    then show ?thesis
      using free by (simp add: votes_for_def is_executed_def bitmap_new_empty)
  qed
  then show "at_message_hash i = h"
    "adapters_of (at_attested_adapters i) = votes_for (attestation_of P s h)"
    "at_executed i \<longleftrightarrow> is_executed (attestation_of P s h)"
    "\<not> in_use s k \<or> (\<exists>i0. attestation_at s k = Some i0 \<and> at_message_hash i0 = h)"
    by blast+
qed

text \<open>Writing a vote, and writing that the message is executed.\<close>

lemma router_vote:
  assumes "wf_ledger P T s" "attestation_info_pda P h = (k, b)" "attestation_info_seeds h \<in> T"
    and "attestation_at s k = Some i \<or> \<not> in_use s k \<and> \<not> at_executed i \<and>
       at_attested_adapters i = bitmap_new \<and> at_message_hash i = h"
  shows "router_of P (store k (Attestation_Info_Data (i\<lparr>at_attested_adapters := bm\<rparr>)) s) =
      router_of P s\<lparr>voted := (voted (router_of P s))(h := adapters_of bm)\<rparr>"
    "router_of P (store k (Attestation_Info_Data (i\<lparr>at_executed := True\<rparr>)) s) =
      router_of P s\<lparr>executed := insert h (executed (router_of P s))\<rparr>"
proof -
  note a = attestation_account [OF assms]
  have k: "fst (attestation_info_pda P h) = k" using assms(2) by simp
  have e: "(if at_executed i then insert h (executed (router_of P s))
      else executed (router_of P s) - {h}) = executed (router_of P s)"
    using a(3) attestation_parts(2) [of h s] by auto
  have v: "(voted (router_of P s))(h := adapters_of (at_attested_adapters i)) =
      voted (router_of P s)"
    using a(2) attestation_parts(1) [of s h] by (simp add: fun_upd_idem)
  show "router_of P (store k (Attestation_Info_Data (i\<lparr>at_attested_adapters := bm\<rparr>)) s) =
      router_of P s\<lparr>voted := (voted (router_of P s))(h := adapters_of bm)\<rparr>"
    using router_store_attestation [of P "i\<lparr>at_attested_adapters := bm\<rparr>" k s] a(1,4) k e
    by (cases "at_executed i") simp_all
  show "router_of P (store k (Attestation_Info_Data (i\<lparr>at_executed := True\<rparr>)) s) =
      router_of P s\<lparr>executed := insert h (executed (router_of P s))\<rparr>"
    using router_store_attestation [of P "i\<lparr>at_executed := True\<rparr>" k s] a(1,4) k v by simp
qed

text \<open>The attestation that the two handlers which may create one go on with.\<close>

lemma attest_message_opened:
  assumes "wf_ledger P T s" "attest_message_try_accounts P acs args s = Ok (s1, a, cc, i0, b)"
    and "if at_src_chain i0 = 0
     then attestation_info_new P b (am_src_chain args) (am_src_addr args)
            (am_sequence args) (am_dst_chain args)
            (from_pubkey (am_integrator_program_id args)) (am_payload_hash args) = Ok i
     else i = i0"
    and "seeds_used P s (Attest_Message acs args) \<subseteq> T"
  shows "attestation_info_pda P (am_message_hash P args) = (key (am_attestation_info acs), b)"
    "attestation_info_seeds (am_message_hash P args) \<in> T"
    "attestation_at s (key (am_attestation_info acs)) = Some i \<or>
      \<not> in_use s (key (am_attestation_info acs)) \<and> \<not> at_executed i \<and>
      at_attested_adapters i = bitmap_new \<and> at_message_hash i = am_message_hash P args"
proof -
  show h: "attestation_info_pda P (am_message_hash P args) = (key (am_attestation_info acs), b)"
    "attestation_info_seeds (am_message_hash P args) \<in> T"
    using assms(2,4) by (auto simp: attest_message_try_accounts_eq_Ok)
  show "attestation_at s (key (am_attestation_info acs)) = Some i \<or>
      \<not> in_use s (key (am_attestation_info acs)) \<and> \<not> at_executed i \<and>
      at_attested_adapters i = bitmap_new \<and> at_message_hash i = am_message_hash P args"
    using attestation_opened(5) [OF assms(1) h [unfolded am_message_hash_def] _ assms(3)] assms(2)
    by (auto simp: am_message_hash_def attest_message_try_accounts_eq_Ok)
qed

lemma exec_message_opened:
  assumes "wf_ledger P T s" "exec_message_try_accounts P acs args s = Ok (s1, i0, b)"
    and "if at_src_chain i0 = 0
     then attestation_info_new P b (em_src_chain args) (em_src_addr args)
            (em_sequence args) (em_dst_chain args)
            (from_pubkey (em_integrator_program_id args)) (em_payload_hash args) = Ok i
     else i = i0"
    and "seeds_used P s (Exec_Message acs args) \<subseteq> T"
  shows "attestation_info_pda P (em_message_hash P args) = (key (em_attestation_info acs), b)"
    "attestation_info_seeds (em_message_hash P args) \<in> T"
    "attestation_at s (key (em_attestation_info acs)) = Some i \<or>
      \<not> in_use s (key (em_attestation_info acs)) \<and> \<not> at_executed i \<and>
      at_attested_adapters i = bitmap_new \<and> at_message_hash i = em_message_hash P args"
proof -
  show h: "attestation_info_pda P (em_message_hash P args) = (key (em_attestation_info acs), b)"
    "attestation_info_seeds (em_message_hash P args) \<in> T"
    using assms(2,4) by (auto simp: exec_message_try_accounts_eq_Ok)
  show "attestation_at s (key (em_attestation_info acs)) = Some i \<or>
      \<not> in_use s (key (em_attestation_info acs)) \<and> \<not> at_executed i \<and>
      at_attested_adapters i = bitmap_new \<and> at_message_hash i = em_message_hash P args"
    using attestation_opened(5) [OF assms(1) h [unfolded em_message_hash_def] _ assms(3)] assms(2)
    by (auto simp: em_message_hash_def exec_message_try_accounts_eq_Ok)
qed

text \<open>
  The chain ids of the arguments are checked when the account is fresh; a stored attestation
  that is not executed has votes.
\<close>

lemma attestation_known:
  assumes "wf_ledger P T s" "attestation_info_pda P h = (k, b)" "attestation_info_seeds h \<in> T"
    and "\<not> in_use s k \<and> i0 = zero_attestation_info \<or> attestation_at s k = Some i0"
    and "\<not> at_executed i0"
  shows "at_src_chain i0 \<noteq> 0 \<longleftrightarrow> voted (router_of P s) h \<noteq> {}"
  using assms(4)
proof
  assume i: "attestation_at s k = Some i0"
  show ?thesis
    using attestation_account(2) [OF assms(1-3) disjI1 [OF i]] attestation_parts(1) [of s h]
      attestation.wf_readD [OF assms(1) i] assms(5) by auto
next
  assume free: "\<not> in_use s k \<and> i0 = zero_attestation_info"
  then have "attestation_of P s h = None"
    using assms(2) free_reads [of s k]
    by (simp add: attestation_of_def stored_def attestation_info_pda_def)
  then show ?thesis
    using free attestation_parts(1) [of s h] by (simp add: zero_attestation_info_def votes_for_def)
qed

text \<open>What the account constraints of \<^verbatim>\<open>AttestMessage\<close> say about the router.\<close>

lemma attest_message_facts:
  assumes "wf_ledger P T s" "registry_ok s"
    and "attest_message_try_accounts P acs args s = Ok (s1, a, cc, i0, b)"
    and "seeds_used P s (Attest_Message acs args) \<subseteq> T"
  obtains c where "config_of P s (am_integrator_program_id args) = Some c"
    "distinct (ic_adapter_infos c) \<and> unat (ad_index a) < length (ic_adapter_infos c) \<and>
      ic_adapter_infos c ! unat (ad_index a) = am_adapter_program_id args"
    "chain_account P s (key (am_integrator_chain_config acs))
      (am_integrator_program_id args, am_src_chain args) cc"
proof -
  let ?I = "am_integrator_program_id args" and ?A = "am_adapter_program_id args"
  note acc = assms(3) [unfolded attest_message_try_accounts_eq_Ok]
  have "ad_integrator_program_id a = ?I"
    using checked_adapter [OF assms(1), of "key (am_adapter_info acs)" a] acc assms(4)
    by (auto simp: checked_def)
  then obtain c where c: "config_of P s ?I = Some c"
    using adapter_named [OF assms(1,2), of "key (am_adapter_info acs)" a] acc by metis
  have named: "distinct (ic_adapter_infos c) \<and> unat (ad_index a) < length (ic_adapter_infos c) \<and>
      ic_adapter_infos c ! unat (ad_index a) = ?A"
    using acc assms(4) by (intro checked_adapter_named [OF assms(1,2) _ _ _ c]) auto
  have ident: "(cc_integrator_program_id cc, cc_chain_id cc) = (?I, am_src_chain args)"
    using acc checked_chain [OF assms(1)] assms(4) by (auto simp: checked_def)
  have "chain_account P s (key (am_integrator_chain_config acs)) (?I, am_src_chain args) cc"
    using acc chain_config.wf_readD [OF assms(1), of "key (am_integrator_chain_config acs)" cc] ident
    by (auto simp: chain_account_def derived_def integrator_chain_config_pda_def)
  with c named show thesis by (rule that)
qed

lemma attest_message_refines:
  assumes "wf_ledger P T s" "registry_ok s" "attest_message P acs args s = Ok s'"
    and "seeds_used P s (Attest_Message acs args) \<subseteq> T"
  shows "perform (request_of P s (Attest_Message acs args)) (router_of P s) = Some (router_of P s')"
  using assms(3)
proof (cases rule: attest_message_OkE)
  case (1 s1 a cc i0 b i bm)
  let ?I = "am_integrator_program_id args" and ?A = "am_adapter_program_id args"
  let ?x = "(?I, am_src_chain args)" and ?h = "am_message_hash P args"
  obtain c where c: "config_of P s ?I = Some c"
    and named: "distinct (ic_adapter_infos c) \<and> unat (ad_index a) < length (ic_adapter_infos c) \<and>
      ic_adapter_infos c ! unat (ad_index a) = ?A"
    and chain: "chain_account P s (key (am_integrator_chain_config acs)) ?x cc"
    using attest_message_facts [OF assms(1,2) 1(1) assms(4)] by blast
  note opened = attest_message_opened [OF assms(1) 1(1,4) assms(4)]
  have "adapters_of (at_attested_adapters i) = voted (router_of P s) ?h"
    using attestation_account(2) [OF assms(1) opened] attestation_parts(1) by simp
  then show ?thesis
    using 1(2,3,5) chain_account_router(2) [OF assms(1,2) chain] member_adapter [OF named]
      chain_account_adapter(1) [OF assms(1,2) chain _ named, of cc_recv_adapter_bitmap]
    by (simp add: 1(6,7) for_member_def members_router c router_vote(1) [OF assms(1) opened])
qed

lemma exec_message_refines:
  assumes "wf_ledger P T s" "exec_message P acs args s = Ok s'"
    and "seeds_used P s (Exec_Message acs args) \<subseteq> T"
  shows "perform (request_of P s (Exec_Message acs args)) (router_of P s) = Some (router_of P s')"
proof -
  let ?h = "em_message_hash P args"
  obtain s1 i0 b i where acc: "exec_message_try_accounts P acs args s = Ok (s1, i0, b)"
    and ne: "\<not> at_executed i0"
    and new: "if at_src_chain i0 = 0
     then attestation_info_new P b (em_src_chain args) (em_src_addr args)
            (em_sequence args) (em_dst_chain args)
            (from_pubkey (em_integrator_program_id args)) (em_payload_hash args) = Ok i
     else i = i0"
    and s': "s' = emit_cpi (MessageExecuted (at_message_hash i) (em_src_chain args)
                 (em_src_addr args) (em_sequence args) (em_dst_chain args)
                 (from_pubkey (em_integrator_program_id args)) (em_payload_hash args))
               (store (key (em_attestation_info acs))
                  (Attestation_Info_Data (i\<lparr>at_executed := True\<rparr>)) s)"
    using assms(2) unfolding exec_message_eq_Ok by blast
  note opened = exec_message_opened [OF assms(1) acc new assms(3)]
  have "\<not> at_executed i"
    using new ne by (auto simp: attestation_info_new_eq_Ok split: if_splits)
  then have "?h \<notin> executed (router_of P s)"
    using attestation_account(3) [OF assms(1) opened] attestation_parts(2) by simp
  moreover have "voted (router_of P s) ?h \<noteq> {} \<or> em_src_chain args \<noteq> 0 \<and> em_dst_chain args \<noteq> 0"
    using attestation_known [OF assms(1) opened(1,2) _ ne] acc new
    by (auto simp: exec_message_try_accounts_eq_Ok attestation_info_new_eq_Ok split: if_splits)
  ultimately show ?thesis
    by (simp add: s' router_vote(2) [OF assms(1) opened])
qed

lemma recv_message_refines:
  assumes "wf_ledger P T s" "recv_message P acs args s = Ok s'"
    and "seeds_used P s (Recv_Message acs args) \<subseteq> T"
  shows "perform (request_of P s (Recv_Message acs args)) (router_of P s) = Some (router_of P s')"
proof -
  let ?h = "rm_message_hash P args" and ?k = "key (rm_attestation_info acs)"
  obtain cc i where acc: "recv_message_try_accounts P acs args s = Ok (cc, i)"
    and ne: "\<not> at_executed i"
    and s': "s' = emit_cpi (MessageReceived (at_message_hash i) (at_src_chain i) (at_src_addr i)
         (at_sequence i) (at_dst_chain i) (at_dst_addr i) (at_payload_hash i)
         (as_value (cc_recv_adapter_bitmap cc)) (as_value (at_attested_adapters i)))
       (store ?k (Attestation_Info_Data (i\<lparr>at_executed := True\<rparr>)) s)"
    using assms(2) unfolding recv_message_eq_Ok by blast
  have i: "attestation_at s ?k = Some i"
    using acc by (simp add: recv_message_try_accounts_eq_Ok)
  have ih: "at_message_hash i = ?h"
    using acc checked_attestation [OF assms(1) i] assms(3)
    by (auto simp: recv_message_try_accounts_eq_Ok checked_def)
  then have h: "attestation_info_pda P ?h = (?k, at_bump i)" "attestation_info_seeds ?h \<in> T"
    using attestation.wf_readD [OF assms(1) i] by (auto simp: derived_def attestation_info_pda_def)
  note a = attestation_account [OF assms(1) h disjI1 [OF i]]
  have "?h \<notin> executed (router_of P s)" "voted (router_of P s) ?h \<noteq> {}"
    using ne a(2,3) attestation_parts attestation.wf_readD [OF assms(1) i] by auto
  then show ?thesis
    by (simp add: s' router_vote(2) [OF assms(1) h disjI1 [OF i]])
qed

section \<open>The simulation\<close>

lemma process_refines:
  assumes "wf_ledger P T s" "registry_ok s" "process P ix s = Ok s'" "seeds_used P s ix \<subseteq> T"
  shows "perform (request_of P s ix) (router_of P s) = Some (router_of P s')"
  using assms(3,4)
  by (cases ix) (auto simp del: request_of.simps perform.simps seeds_used.simps
      intro: register_refines [OF assms(1,2)] add_adapter_refines [OF assms(1,2)]
      enable_recv_refines [OF assms(1,2)] enable_send_refines [OF assms(1,2)]
      disable_recv_refines [OF assms(1,2)] disable_send_refines [OF assms(1,2)]
      update_admin_refines [OF assms(1,2)] transfer_admin_refines [OF assms(1,2)]
      claim_admin_refines [OF assms(1,2)] discard_admin_refines [OF assms(1,2)]
      send_message_refines [OF assms(1,2)] pick_up_message_refines [OF assms(1,2)]
      attest_message_refines [OF assms(1,2)] exec_message_refines [OF assms(1)]
      recv_message_refines [OF assms(1)])

end

text \<open>The router of a ledger reads the endpoint's accounts only, so other programs do not change it.\<close>

lemmas reads_view = config.read_eq_view chain_config.read_eq_view tracker.read_eq_view
  outbox.read_eq_view attestation.read_eq_view

lemma router_of_view: "view s' = view s \<Longrightarrow> router_of P s' = router_of P s"
  unfolding router_of_def router_from_def stored_defs stored_def by (simp add: reads_view)

lemma router_of_initial: "initial s \<Longrightarrow> router_of P s = new_router"
  by (simp add: router_of_def router_from_def new_router_def stored_defs stored_def reads_view
      initial_def chain_adapters_def votes_for_def is_executed_def fun_eq_iff)

context deployment
begin

lemma reachable_granted: "reachable P T s \<Longrightarrow> granted (router_of P s)"
proof (induction rule: reachable.induct)
  case (reachable_initial s)
  then show ?case by (simp add: router_of_initial granted_new)
next
  case (reachable_step s s')
  have wf: "wf_ledger P T s" "registry_ok s"
    using reachable_wf [OF bitmaps_crate_axioms] reachable_registry reachable_step.hyps(1) by blast+
  from reachable_step.hyps(2) show ?case
  proof cases
    case (instruction_step ix)
    then show ?thesis
      using granted_step [OF reachable_step.IH process_refines [OF wf]] by blast
  next
    case other_step
    then show ?thesis
      using reachable_step.IH router_of_view [of s' s P] by (simp add: outside_step_def)
  qed
qed

end

end
