(* ===== verification/Event_Log.thy ===== *)
theory Event_Log
  imports Refinement
begin

text \<open>
  The event log tells the whole story except for the outbox: \<open>replay\<close> rebuilds the state of the
  router from the events alone, and for a reachable ledger it rebuilds the state that the
  accounts hold. This is what a program that follows the endpoint's events relies on.
\<close>

section \<open>Replaying events\<close>

definition update_member :: "pubkey \<Rightarrow> (member \<Rightarrow> member) \<Rightarrow> router \<Rightarrow> router" where
  "update_member I f r = r\<lparr>members := (members r)(I := map_option f (members r I))\<rparr>"

definition update_senders :: "pubkey \<times> u16 \<Rightarrow> (pubkey set \<Rightarrow> pubkey set) \<Rightarrow> router \<Rightarrow> router" where
  "update_senders x f r = r\<lparr>senders := (senders r)(x := f (senders r x))\<rparr>"

definition update_receivers :: "pubkey \<times> u16 \<Rightarrow> (pubkey set \<Rightarrow> pubkey set) \<Rightarrow> router \<Rightarrow> router" where
  "update_receivers x f r = r\<lparr>receivers := (receivers r)(x := f (receivers r x))\<rparr>"

fun apply_event :: "event \<Rightarrow> router \<Rightarrow> router" where
  "apply_event (IntegratorRegistered I adm) r =
     r\<lparr>members := (members r)(I := Some \<lparr>mb_admin = Some adm, mb_pending = None, mb_adapters = []\<rparr>),
       sent := (sent r)(I := Some 0)\<rparr>"
| "apply_event (AdminUpdated I old new) r =
     update_member I (\<lambda>m. m\<lparr>mb_admin := Some new, mb_pending := None\<rparr>) r"
| "apply_event (AdminUpdateRequested I old new) r =
     update_member I (\<lambda>m. m\<lparr>mb_pending := Some new\<rparr>) r"
| "apply_event (AdminDiscarded I) r = update_member I (\<lambda>m. m\<lparr>mb_admin := None\<rparr>) r"
| "apply_event (AdapterAdded I a n) r =
     update_member I (\<lambda>m. m\<lparr>mb_adapters := mb_adapters m @ [a]\<rparr>) r"
| "apply_event (SendAdapterEnabledForChain I ch a) r = update_senders (I, ch) (insert a) r"
| "apply_event (RecvAdapterEnabledForChain I ch a) r = update_receivers (I, ch) (insert a) r"
| "apply_event (SendAdapterDisabledForChain I ch a) r = update_senders (I, ch) (\<lambda>A. A - {a}) r"
| "apply_event (RecvAdapterDisabledForChain I ch a) r = update_receivers (I, ch) (\<lambda>A. A - {a}) r"
| "apply_event (MessageSent sender q addr ch payload) r =
     r\<lparr>sent := (sent r)(to_pubkey sender := Some (unat q))\<rparr>"
| "apply_event (MessagePickedUp _ _ _ _ _ _ _) r = r"
| "apply_event (MessageAttestedTo h _ _ _ _ _ _ v _) r = r\<lparr>voted := (voted r)(h := bits v)\<rparr>"
| "apply_event (MessageExecuted h _ _ _ _ _ _) r = r\<lparr>executed := insert h (executed r)\<rparr>"
| "apply_event (MessageReceived h _ _ _ _ _ _ _ _) r = r\<lparr>executed := insert h (executed r)\<rparr>"

definition replay :: "event list \<Rightarrow> router" where
  "replay es = fold apply_event es new_router"

text \<open>The state without the outbox, whose addresses and refund recipients no event names.\<close>

definition logged :: "router \<Rightarrow> router" where
  "logged r = r\<lparr>outbox := (\<lambda>_. None)\<rparr>"

section \<open>The event of a request\<close>

text \<open>The event \<open>e\<close> reports the request, which led to the state \<open>r'\<close>.\<close>

fun reports :: "event \<Rightarrow> request \<Rightarrow> router \<Rightarrow> bool" where
  "reports e (Join I adm) r' \<longleftrightarrow> e = IntegratorRegistered I adm"
| "reports e (Add who I a) r' \<longleftrightarrow> (\<exists>n. e = AdapterAdded I a n)"
| "reports e (Start_Receiving who I ch a) r' \<longleftrightarrow> e = RecvAdapterEnabledForChain I ch a"
| "reports e (Start_Sending who I ch a) r' \<longleftrightarrow> e = SendAdapterEnabledForChain I ch a"
| "reports e (Stop_Receiving who I ch a) r' \<longleftrightarrow> e = RecvAdapterDisabledForChain I ch a"
| "reports e (Stop_Sending who I ch a) r' \<longleftrightarrow> e = SendAdapterDisabledForChain I ch a"
| "reports e (Replace_Admin who I new) r' \<longleftrightarrow> (\<exists>old. e = AdminUpdated I old new)"
| "reports e (Offer_Admin who I new) r' \<longleftrightarrow> (\<exists>old. e = AdminUpdateRequested I old new)"
| "reports e (Settle_Admin who I) r' \<longleftrightarrow> (\<exists>old. e = AdminUpdated I old who)"
| "reports e (Drop_Admin who I) r' \<longleftrightarrow> e = AdminDiscarded I"
| "reports e (Send I box ch addr payload refund) r' \<longleftrightarrow>
     (\<exists>q. e = MessageSent (from_pubkey I) q addr ch payload \<and> sent r' I = Some (unat q))"
| "reports e (Pick_Up box a) r' \<longleftrightarrow>
     (\<exists>src q ch addr payload v. e = MessagePickedUp src q ch addr payload a v)"
| "reports e (Vote I ch dst a h) r' \<longleftrightarrow> (\<exists>c src q d addr payload v who.
     e = MessageAttestedTo h c src q d addr payload v who \<and> voted r' h = bits v)"
| "reports e (Execute src dst h) r' \<longleftrightarrow>
     (\<exists>c addr q d addr' payload. e = MessageExecuted h c addr q d addr' payload)"
| "reports e (Receive h) r' \<longleftrightarrow>
     (\<exists>c src q d dst payload en v. e = MessageReceived h c src q d dst payload en v)"

lemma replay_step:
  assumes "perform q r = Some r'" "reports e q r'"
  shows "logged r' = apply_event e (logged r)"
  using assms
  by (cases q) (auto simp: for_member_def put_member_def update_member_def update_senders_def
      update_receivers_def in_charge_def logged_def fun_eq_iff split: option.splits)

lemma replay_snoc: "replay (es @ [e]) = apply_event e (replay es)"
  by (simp add: replay_def)

section \<open>The event of an instruction\<close>

context deployment
begin

lemma send_message_reports:
  assumes "wf_ledger P T s" "registry_ok s" "send_message P acs args s = Ok s'"
    and "seeds_used P s (Send_Message acs args) \<subseteq> T"
  shows "\<exists>e. events s' = events s @ [e] \<and>
     reports e (request_of P s (Send_Message acs args)) (router_of P s')"
proof -
  let ?I = "sm_integrator_program_id args"
  obtain s1 cc t t' q where acc: "send_message_try_accounts P acs args s = Ok (s1, cc, t)"
    and n: "next_sequence t = Ok (t', q)"
    and ev: "events s' = events s @ [MessageSent (from_pubkey ?I) (st_sequence t')
      (sm_dst_addr args) (sm_dst_chain args) (sm_payload_hash args)]"
    using assms(3) unfolding send_message_eq_Ok by (auto simp: read_simps)
  have "sent (router_of P s) ?I = Some (unat (st_sequence t))"
    by (rule send_message_facts(3) [OF assms(1) acc assms(4)])
  then have "sent (router_of P s') ?I = Some (unat (st_sequence t'))"
    using send_message_refines [OF assms] n by (auto simp: next_sequence_eq_Ok)
  then show ?thesis using ev by auto
qed

lemma attest_message_reports:
  assumes "wf_ledger P T s" "attest_message P acs args s = Ok s'"
    and "seeds_used P s (Attest_Message acs args) \<subseteq> T"
  shows "\<exists>e. events s' = events s @ [e] \<and>
     reports e (request_of P s (Attest_Message acs args)) (router_of P s')"
  using assms(2)
proof (cases rule: attest_message_OkE)
  case (1 s1 a cc i0 b i bm)
  note opened = attest_message_opened [OF assms(1) 1(1,4) assms(3)]
  have "at_message_hash i = am_message_hash P args"
    using attestation_account(1) [OF assms(1) opened] .
  then show ?thesis
    using router_vote(1) [OF assms(1) opened, of bm]
    by (auto simp: 1(7) adapters_of_def as_value_def)
qed

lemma exec_message_reports:
  assumes "wf_ledger P T s" "exec_message P acs args s = Ok s'"
    and "seeds_used P s (Exec_Message acs args) \<subseteq> T"
  shows "\<exists>e. events s' = events s @ [e] \<and>
     reports e (request_of P s (Exec_Message acs args)) (router_of P s')"
proof -
  obtain s1 i0 b i where acc: "exec_message_try_accounts P acs args s = Ok (s1, i0, b)"
    and new: "if at_src_chain i0 = 0
     then attestation_info_new P b (em_src_chain args) (em_src_addr args)
            (em_sequence args) (em_dst_chain args)
            (from_pubkey (em_integrator_program_id args)) (em_payload_hash args) = Ok i
     else i = i0"
    and ev: "events s' = events s @ [MessageExecuted (at_message_hash i) (em_src_chain args)
       (em_src_addr args) (em_sequence args) (em_dst_chain args)
       (from_pubkey (em_integrator_program_id args)) (em_payload_hash args)]"
    using assms(2) unfolding exec_message_eq_Ok by auto
  have "at_message_hash i = em_message_hash P args"
    using attestation_account(1) [OF assms(1) exec_message_opened [OF assms(1) acc new assms(3)]] .
  then show ?thesis using ev by auto
qed

lemma recv_message_reports:
  assumes "wf_ledger P T s" "recv_message P acs args s = Ok s'"
    and "seeds_used P s (Recv_Message acs args) \<subseteq> T"
  shows "\<exists>e. events s' = events s @ [e] \<and>
     reports e (request_of P s (Recv_Message acs args)) (router_of P s')"
proof -
  obtain cc i where acc: "recv_message_try_accounts P acs args s = Ok (cc, i)"
    and ev: "events s' = events s @ [MessageReceived (at_message_hash i) (at_src_chain i)
      (at_src_addr i) (at_sequence i) (at_dst_chain i) (at_dst_addr i) (at_payload_hash i)
      (as_value (cc_recv_adapter_bitmap cc)) (as_value (at_attested_adapters i))]"
    using assms(2) unfolding recv_message_eq_Ok by auto
  have "at_message_hash i = rm_message_hash P args"
    using acc checked_attestation [OF assms(1)] assms(3)
    by (auto simp: recv_message_try_accounts_eq_Ok checked_def)
  then show ?thesis using ev by auto
qed

lemma process_reports:
  assumes "wf_ledger P T s" "registry_ok s" "process P ix s = Ok s'" "seeds_used P s ix \<subseteq> T"
  shows "\<exists>e. events s' = events s @ [e] \<and> reports e (request_of P s ix) (router_of P s')"
proof (cases ix)
  case (Enable_Recv_Adapter acs args)
  then show ?thesis
    using assms(3) by (auto simp: recv.enable_eq_Ok [OF bitmaps_crate_axioms] Let_def)
next
  case (Enable_Send_Adapter acs args)
  then show ?thesis
    using assms(3) by (auto simp: send.enable_eq_Ok [OF bitmaps_crate_axioms] Let_def)
next
  case (Disable_Recv_Adapter acs args)
  then show ?thesis
    using assms(3) by (auto simp: recv.disable_eq_Ok [OF bitmaps_crate_axioms])
next
  case (Disable_Send_Adapter acs args)
  then show ?thesis
    using assms(3) by (auto simp: send.disable_eq_Ok [OF bitmaps_crate_axioms])
next
  case (Pick_Up_Message acs args)
  then have "pick_up_message P acs args s = Ok s'" using assms(3) by simp
  then show ?thesis
    unfolding Pick_Up_Message by (cases rule: pick_up_message_OkE) auto
next
  case (Send_Message acs args)
  then show ?thesis using send_message_reports [OF assms(1,2)] assms(3,4) by simp
next
  case (Attest_Message acs args)
  then show ?thesis using attest_message_reports [OF assms(1)] assms(3,4) by simp
next
  case (Exec_Message acs args)
  then show ?thesis using exec_message_reports [OF assms(1)] assms(3,4) by simp
next
  case (Recv_Message acs args)
  then show ?thesis using recv_message_reports [OF assms(1)] assms(3,4) by simp
qed (use assms(3) in \<open>auto simp: register_eq_Ok add_adapter_eq_Ok update_admin_eq_Ok
  transfer_admin_eq_Ok claim_admin_eq_Ok claim_admin_try_accounts_eq_Ok discard_admin_eq_Ok
  discard_admin_try_accounts_eq_Ok\<close>)

lemma reachable_replay: "reachable P T s \<Longrightarrow> logged (router_of P s) = replay (events s)"
proof (induction rule: reachable.induct)
  case (reachable_initial s)
  then have "events s = []" by (simp add: initial_def)
  then show ?case
    using router_of_initial [OF reachable_initial, of P]
    by (simp add: replay_def logged_def new_router_def)
next
  case (reachable_step s s')
  have wf: "wf_ledger P T s" "registry_ok s"
    using reachable_wf [OF bitmaps_crate_axioms] reachable_registry reachable_step.hyps(1) by blast+
  from reachable_step.hyps(2) show ?case
  proof cases
    case (instruction_step ix)
    obtain e where e: "events s' = events s @ [e]" "reports e (request_of P s ix) (router_of P s')"
      using process_reports [OF wf instruction_step(2,1)] by blast
    have "logged (router_of P s') = apply_event e (logged (router_of P s))"
      by (rule replay_step [OF process_refines [OF wf instruction_step(2,1)] e(2)])
    then show ?thesis by (simp add: e(1) replay_snoc reachable_step.IH)
  next
    case other_step
    then show ?thesis
      using reachable_step.IH router_of_view [of s' s P] by (simp add: outside_step_def)
  qed
qed

end

end
