(* ===== verification/Completeness.thy ===== *)
theory Completeness
  imports Refinement
begin

text \<open>
  The converse of the refinement: an instruction whose accounts pass their constraints succeeds
  whenever the router grants its request. Together with \<open>process_refines\<close>, the router says exactly
  what the endpoint does, refusals included.
\<close>

section \<open>Accounts that pass\<close>

text \<open>\<^verbatim>\<open>Result::is_ok\<close> and \<^verbatim>\<open>Result::ok\<close>.\<close>

fun is_ok :: "'a result \<Rightarrow> bool" where
  "is_ok (Ok _) = True"
| "is_ok (Err _) = False"

fun ok :: "'a result \<Rightarrow> 'a option" where
  "ok (Ok x) = Some x"
| "ok (Err _) = None"

lemma is_ok_iff: "is_ok r \<longleftrightarrow> (\<exists>x. r = Ok x)"
  by (cases r) auto

text \<open>
  The accounts of an instruction satisfy the constraints of its struct, and the endpoint is
  passed as the \<^verbatim>\<open>program\<close> that the event is emitted through.
\<close>

fun accepted :: "'bm platform \<Rightarrow> ledger \<Rightarrow> instruction \<Rightarrow> bool" where
  "accepted P s (Register acs args) \<longleftrightarrow>
     is_ok (register_try_accounts P acs args s) \<and> key (rg_program acs) = endpoint_id"
| "accepted P s (Add_Adapter acs args) \<longleftrightarrow>
     is_ok (add_adapter_try_accounts P acs args s) \<and> key (aa_program acs) = endpoint_id"
| "accepted P s (Enable_Recv_Adapter acs args) \<longleftrightarrow>
     is_ok (enable_adapter_try_accounts P acs args s) \<and> key (en_program acs) = endpoint_id"
| "accepted P s (Enable_Send_Adapter acs args) \<longleftrightarrow>
     is_ok (enable_adapter_try_accounts P acs args s) \<and> key (en_program acs) = endpoint_id"
| "accepted P s (Disable_Recv_Adapter acs args) \<longleftrightarrow>
     is_ok (disable_adapter_try_accounts P acs args s) \<and> key (ds_program acs) = endpoint_id"
| "accepted P s (Disable_Send_Adapter acs args) \<longleftrightarrow>
     is_ok (disable_adapter_try_accounts P acs args s) \<and> key (ds_program acs) = endpoint_id"
| "accepted P s (Update_Admin acs args) \<longleftrightarrow>
     is_ok (update_admin_try_accounts P acs args s) \<and> key (up_program acs) = endpoint_id"
| "accepted P s (Transfer_Admin acs args) \<longleftrightarrow>
     is_ok (transfer_admin_try_accounts P acs args s) \<and> key (tr_program acs) = endpoint_id"
| "accepted P s (Claim_Admin acs) \<longleftrightarrow>
     is_ok (claim_admin_try_accounts P acs s) \<and> key (cl_program acs) = endpoint_id"
| "accepted P s (Discard_Admin acs) \<longleftrightarrow>
     is_ok (discard_admin_try_accounts P acs s) \<and> key (di_program acs) = endpoint_id"
| "accepted P s (Send_Message acs args) \<longleftrightarrow>
     is_ok (send_message_try_accounts P acs args s) \<and> key (sm_program acs) = endpoint_id"
| "accepted P s (Pick_Up_Message acs args) \<longleftrightarrow>
     is_ok (pick_up_message_try_accounts P acs args s) \<and> key (pu_program acs) = endpoint_id"
| "accepted P s (Attest_Message acs args) \<longleftrightarrow>
     is_ok (attest_message_try_accounts P acs args s) \<and> key (am_program acs) = endpoint_id"
| "accepted P s (Exec_Message acs args) \<longleftrightarrow>
     is_ok (exec_message_try_accounts P acs args s) \<and> key (em_program acs) = endpoint_id"
| "accepted P s (Recv_Message acs args) \<longleftrightarrow>
     is_ok (recv_message_try_accounts P acs args s) \<and> key (rm_program acs) = endpoint_id"

lemma mb_adapters_member [simp]: "mb_adapters (member_of c) = ic_adapter_infos c"
  by (simp add: member_of_def)

section \<open>Granted requests succeed\<close>

context deployment
begin

lemma process_accepted: "process P ix s = Ok s' \<Longrightarrow> accepted P s ix"
  by (cases ix) (auto simp: is_ok_iff register_def add_adapter_eq_Ok
      recv.enable_eq_Ok [OF bitmaps_crate_axioms] send.enable_eq_Ok [OF bitmaps_crate_axioms]
      recv.disable_eq_Ok [OF bitmaps_crate_axioms] send.disable_eq_Ok [OF bitmaps_crate_axioms]
      update_admin_eq_Ok transfer_admin_eq_Ok claim_admin_eq_Ok discard_admin_eq_Ok
      send_message_eq_Ok pick_up_message_eq_Ok attest_message_eq_Ok exec_message_eq_Ok
      recv_message_eq_Ok and_then_eq_Ok self_cpi_eq_Ok Let_def)

lemma add_requests_succeed:
  assumes "wf_ledger P T s" "accepted P s (Add_Adapter acs args)"
    and "seeds_used P s (Add_Adapter acs args) \<subseteq> T"
    and "perform (request_of P s (Add_Adapter acs args)) (router_of P s) \<noteq> None"
  shows "\<exists>s'. add_adapter P acs args s = Ok s'"
proof -
  obtain s1 c b where acc: "add_adapter_try_accounts P acs args s = Ok (s1, c, b)"
    using assms(2) by (auto simp: is_ok_iff)
  then have "config_of P s (aa_integrator_program_id args) = Some c"
    using config_of_checked [OF assms(1)] assms(3) by (auto simp: add_adapter_try_accounts_eq_Ok)
  then show ?thesis
    using assms(2,4) acc
    by (auto simp: for_member_def members_router add_adapter_eq_Ok MAX_ADAPTERS_def)
qed

lemma admin_requests_succeed:
  assumes "wf_ledger P T s" "accepted P s ix" "seeds_used P s ix \<subseteq> T"
    and "perform (request_of P s ix) (router_of P s) \<noteq> None"
  shows "ix = Update_Admin acs args \<Longrightarrow> \<exists>s'. update_admin P acs args s = Ok s'"
    "ix = Transfer_Admin tacs targs \<Longrightarrow> \<exists>s'. transfer_admin P tacs targs s = Ok s'"
    "ix = Discard_Admin dacs \<Longrightarrow> \<exists>s'. discard_admin P dacs s = Ok s'"
proof -
  note config = config_of_checked [OF assms(1)] stored_reads(1) [OF assms(1)]
  show "\<exists>s'. update_admin P acs args s = Ok s'" if ix: "ix = Update_Admin acs args"
    using assms(2-4) config unfolding ix
    by (fastforce simp: is_ok_iff for_member_def members_router update_admin_eq_Ok
        update_admin_try_accounts_eq_Ok)
  show "\<exists>s'. transfer_admin P tacs targs s = Ok s'" if ix: "ix = Transfer_Admin tacs targs"
    using assms(2-4) config unfolding ix
    by (fastforce simp: is_ok_iff for_member_def members_router transfer_admin_eq_Ok
        transfer_admin_try_accounts_eq_Ok)
  show "\<exists>s'. discard_admin P dacs s = Ok s'" if ix: "ix = Discard_Admin dacs"
    using assms(2-4) config unfolding ix
    by (fastforce simp: is_ok_iff for_member_def members_router discard_admin_eq_Ok
        discard_admin_try_accounts_eq_Ok)
qed

text \<open>Requests about a chain: the router's sets of names are the bitmaps.\<close>

lemma enable_requests_succeed:
  assumes "wf_ledger P T s" "registry_ok s"
    and "enable_adapter_try_accounts P acs args s = Ok (s1, c, a, cc, b)"
    and "{integrator_config_seeds (aia_integrator_program_id args),
      integrator_chain_config_seeds (aia_integrator_program_id args) (aia_chain_id args),
      adapter_info_seeds (aia_integrator_program_id args) (aia_adapter_program_id args)} \<subseteq> T"
    and "key (en_program acs) = endpoint_id"
  shows "perform (request_of P s (Enable_Recv_Adapter acs args)) (router_of P s) \<noteq> None \<Longrightarrow>
      \<exists>s'. enable_recv_adapter P acs args s = Ok s'"
    "perform (request_of P s (Enable_Send_Adapter acs args)) (router_of P s) \<noteq> None \<Longrightarrow>
      \<exists>s'. enable_send_adapter P acs args s = Ok s'"
proof -
  note facts = enable_adapter_facts [OF assms(1-4)]
  note chain = chain_account_router(1,2) [OF assms(1,2) facts(3)]
    chain_account_adapter(1) [OF assms(1,2) facts(3) _ facts(2), of cc_recv_adapter_bitmap]
    chain_account_adapter(1) [OF assms(1,2) facts(3) _ facts(2), of cc_send_adapter_bitmap]
  have "adapter_info_at s (key (en_adapter_info acs)) = Some a"
    using assms(3) by (simp add: enable_adapter_try_accounts_eq_Ok)
  then have "unat (ad_index a) < 128"
    using adapter_account.wf_readD [OF assms(1)] by (auto simp: MAX_ADAPTERS_def)
  then show "perform (request_of P s (Enable_Recv_Adapter acs args)) (router_of P s) \<noteq> None \<Longrightarrow>
      \<exists>s'. enable_recv_adapter P acs args s = Ok s'"
    "perform (request_of P s (Enable_Send_Adapter acs args)) (router_of P s) \<noteq> None \<Longrightarrow>
      \<exists>s'. enable_send_adapter P acs args s = Ok s'"
    using assms(3,5) chain facts(1)
    by (auto simp: for_member_def members_router recv.enable_eq_Ok [OF bitmaps_crate_axioms]
        send.enable_eq_Ok [OF bitmaps_crate_axioms] Let_def)
qed

lemma disable_requests_succeed:
  assumes "wf_ledger P T s" "registry_ok s"
    and "disable_adapter_try_accounts P acs args s = Ok (c, cc, a)"
    and "{integrator_config_seeds (aia_integrator_program_id args),
      integrator_chain_config_seeds (aia_integrator_program_id args) (aia_chain_id args),
      adapter_info_seeds (aia_integrator_program_id args) (aia_adapter_program_id args)} \<subseteq> T"
    and "key (ds_program acs) = endpoint_id"
  shows "perform (request_of P s (Disable_Recv_Adapter acs args)) (router_of P s) \<noteq> None \<Longrightarrow>
      \<exists>s'. disable_recv_adapter P acs args s = Ok s'"
    "perform (request_of P s (Disable_Send_Adapter acs args)) (router_of P s) \<noteq> None \<Longrightarrow>
      \<exists>s'. disable_send_adapter P acs args s = Ok s'"
proof -
  note facts = disable_adapter_facts [OF assms(1-4)]
  note chain = chain_account_router(1,2) [OF assms(1,2) facts(3)]
    chain_account_adapter(1) [OF assms(1,2) facts(3) _ facts(2), of cc_recv_adapter_bitmap]
    chain_account_adapter(1) [OF assms(1,2) facts(3) _ facts(2), of cc_send_adapter_bitmap]
  show "perform (request_of P s (Disable_Recv_Adapter acs args)) (router_of P s) \<noteq> None \<Longrightarrow>
      \<exists>s'. disable_recv_adapter P acs args s = Ok s'"
    "perform (request_of P s (Disable_Send_Adapter acs args)) (router_of P s) \<noteq> None \<Longrightarrow>
      \<exists>s'. disable_send_adapter P acs args s = Ok s'"
    using assms(3,5) chain facts(1)
    by (auto simp: for_member_def members_router recv.disable_eq_Ok [OF bitmaps_crate_axioms]
        send.disable_eq_Ok [OF bitmaps_crate_axioms])
qed

text \<open>Requests about messages.\<close>

lemma send_requests_succeed:
  assumes "wf_ledger P T s" "accepted P s (Send_Message acs args)"
    and "seeds_used P s (Send_Message acs args) \<subseteq> T"
    and "perform (request_of P s (Send_Message acs args)) (router_of P s) \<noteq> None"
  shows "\<exists>s'. send_message P acs args s = Ok s'"
proof -
  obtain s1 cc t where acc: "send_message_try_accounts P acs args s = Ok (s1, cc, t)"
    using assms(2) by (auto simp: is_ok_iff)
  note facts = send_message_facts [OF assms(1) acc assms(3)]
  have "\<not> bitmap_is_empty P (cc_send_adapter_bitmap cc)" "unat (st_sequence t) < 2 ^ 64 - 1"
    using assms(4) facts(3,4) by (auto simp: bitmap_is_empty_unfold named_def)
  moreover from this(2) have "st_sequence t \<noteq> - 1"
    by (auto simp: unsigned_minus_1_eq_mask mask_eq_exp_minus_1)
  ultimately show ?thesis
    using acc assms(2) by (auto simp: send_message_eq_Ok next_sequence_branches)
qed

lemma pick_up_requests_succeed:
  assumes "wf_ledger P T s" "registry_ok s" "accepted P s (Pick_Up_Message acs args)"
    and "seeds_used P s (Pick_Up_Message acs args) \<subseteq> T"
    and "perform (request_of P s (Pick_Up_Message acs args)) (router_of P s) \<noteq> None"
  shows "\<exists>s'. pick_up_message P acs args s = Ok s'"
proof -
  obtain m a where acc: "pick_up_message_try_accounts P acs args s = Ok (m, a)"
    using assms(3) by (auto simp: is_ok_iff)
  then have "outbox (router_of P s) (key (pu_outbox_message acs)) = Some (parcel_of (config_of P s) m)"
    by (simp add: pick_up_message_try_accounts_eq_Ok router_of_def router_from_def)
  then have "pu_adapter_program_id args \<in>
      named (config_of P s) (to_pubkey (ob_src_addr m)) (ob_outstanding_adapters m)"
    using assms(5) by (auto simp: parcel_of_def)
  then have "unat (ad_index a) \<in> adapters_of (ob_outstanding_adapters m)"
    using pick_up_named [OF assms(1,2) acc assms(4)] by simp
  then show ?thesis
    using acc assms(3) by (auto simp: pick_up_message_eq_Ok)
qed

lemma attestation_choice:
  assumes "at_src_chain i0 = 0 \<Longrightarrow> c \<noteq> 0 \<and> d \<noteq> 0"
  shows "\<exists>i. if at_src_chain i0 = 0 then attestation_info_new P b c a q d e h = Ok i else i = i0"
  using assms by (cases "at_src_chain i0 = 0") (auto simp: attestation_info_new_eq_Ok)

lemma attest_requests_succeed:
  assumes "wf_ledger P T s" "registry_ok s" "accepted P s (Attest_Message acs args)"
    and "seeds_used P s (Attest_Message acs args) \<subseteq> T"
    and "perform (request_of P s (Attest_Message acs args)) (router_of P s) \<noteq> None"
  shows "\<exists>s'. attest_message P acs args s = Ok s'"
proof -
  obtain s1 a cc i0 b where acc: "attest_message_try_accounts P acs args s = Ok (s1, a, cc, i0, b)"
    using assms(3) by (auto simp: is_ok_iff)
  obtain c where c: "config_of P s (am_integrator_program_id args) = Some c"
    and named: "distinct (ic_adapter_infos c) \<and> unat (ad_index a) < length (ic_adapter_infos c) \<and>
      ic_adapter_infos c ! unat (ad_index a) = am_adapter_program_id args"
    and chain: "chain_account P s (key (am_integrator_chain_config acs))
      (am_integrator_program_id args, am_src_chain args) cc"
    using attest_message_facts [OF assms(1,2) acc assms(4)] by blast
  have dst: "am_dst_chain args = CHAIN_ID"
    and bit: "unat (ad_index a) \<in> adapters_of (cc_recv_adapter_bitmap cc)"
    and new: "unat (ad_index a) \<notin> voted (router_of P s) (am_message_hash P args)"
    using assms(5) c chain_account_router(2) [OF assms(1,2) chain] member_adapter(2) [OF named]
      chain_account_adapter(1) [OF assms(1,2) chain _ named, of cc_recv_adapter_bitmap]
    by (auto simp: for_member_def members_router)
  have src: "am_src_chain args \<noteq> 0"
    using acc chain chain_config.wf_readD [OF assms(1), of "key (am_integrator_chain_config acs)" cc]
    by (auto simp: attest_message_try_accounts_eq_Ok chain_account_def)
  have "\<exists>i. if at_src_chain i0 = 0
     then attestation_info_new P b (am_src_chain args) (am_src_addr args)
            (am_sequence args) (am_dst_chain args)
            (from_pubkey (am_integrator_program_id args)) (am_payload_hash args) = Ok i
     else i = i0"
    using src dst by (intro attestation_choice) (simp add: CHAIN_ID_def)
  then obtain i where i: "if at_src_chain i0 = 0
     then attestation_info_new P b (am_src_chain args) (am_src_addr args)
            (am_sequence args) (am_dst_chain args)
            (from_pubkey (am_integrator_program_id args)) (am_payload_hash args) = Ok i
     else i = i0" ..
  have "unat (ad_index a) \<notin> adapters_of (at_attested_adapters i)"
    using attestation_account(2) [OF assms(1) attest_message_opened [OF assms(1) acc i assms(4)]]
      attestation_parts(1) new by simp
  then show ?thesis
    using acc dst bit i assms(3) unfolding attest_message_eq_Ok by fastforce
qed

lemma exec_requests_succeed:
  assumes "wf_ledger P T s" "accepted P s (Exec_Message acs args)"
    and "seeds_used P s (Exec_Message acs args) \<subseteq> T"
    and "perform (request_of P s (Exec_Message acs args)) (router_of P s) \<noteq> None"
  shows "\<exists>s'. exec_message P acs args s = Ok s'"
proof -
  let ?h = "em_message_hash P args" and ?k = "key (em_attestation_info acs)"
  obtain s1 i0 b where acc: "exec_message_try_accounts P acs args s = Ok (s1, i0, b)"
    using assms(2) by (auto simp: is_ok_iff)
  have h: "attestation_info_pda P ?h = (?k, b)" "attestation_info_seeds ?h \<in> T"
    and stored: "\<not> in_use s ?k \<and> i0 = zero_attestation_info \<or> attestation_at s ?k = Some i0"
    using acc assms(3) by (auto simp: exec_message_try_accounts_eq_Ok)
  have new: "?h \<notin> executed (router_of P s)"
    "voted (router_of P s) ?h \<noteq> {} \<or> em_src_chain args \<noteq> 0 \<and> em_dst_chain args \<noteq> 0"
    using assms(4) by auto
  have ne: "\<not> at_executed i0"
    using stored new(1) attestation_account(3) [OF assms(1) h, of i0] attestation_parts(2) [of ?h s]
    by (auto simp: zero_attestation_info_def)
  have "\<exists>i. if at_src_chain i0 = 0
     then attestation_info_new P b (em_src_chain args) (em_src_addr args)
            (em_sequence args) (em_dst_chain args)
            (from_pubkey (em_integrator_program_id args)) (em_payload_hash args) = Ok i
     else i = i0"
    using attestation_known [OF assms(1) h stored ne] new(2) by (intro attestation_choice) blast
  then show ?thesis
    using acc ne assms(2) unfolding exec_message_eq_Ok by fastforce
qed

lemma recv_requests_succeed:
  assumes "wf_ledger P T s" "accepted P s (Recv_Message acs args)"
    and "seeds_used P s (Recv_Message acs args) \<subseteq> T"
    and "perform (request_of P s (Recv_Message acs args)) (router_of P s) \<noteq> None"
  shows "\<exists>s'. recv_message P acs args s = Ok s'"
proof -
  obtain cc i where acc: "recv_message_try_accounts P acs args s = Ok (cc, i)"
    using assms(2) by (auto simp: is_ok_iff)
  then have i: "attestation_at s (key (rm_attestation_info acs)) = Some i"
    by (simp add: recv_message_try_accounts_eq_Ok)
  have "at_message_hash i = rm_message_hash P args"
    using acc checked_attestation [OF assms(1) i] assms(3)
    by (auto simp: recv_message_try_accounts_eq_Ok checked_def)
  then have "\<not> at_executed i"
    using assms(4) stored_reads(4) [OF assms(1) i] attestation_parts(2) by (auto simp: is_executed_def)
  then show ?thesis using acc assms(2) by (auto simp: recv_message_eq_Ok)
qed

lemma granted_succeeds:
  assumes "wf_ledger P T s" "registry_ok s" "accepted P s ix" "seeds_used P s ix \<subseteq> T"
    and "perform (request_of P s ix) (router_of P s) \<noteq> None"
  shows "\<exists>s'. process P ix s = Ok s'"
proof (cases ix)
  case (Register acs args)
  then show ?thesis
    using assms(3) by (auto simp: is_ok_iff register_def self_cpi_def require_def Let_def)
next
  case (Claim_Admin acs)
  then show ?thesis using assms(3) by (auto simp: is_ok_iff claim_admin_eq_Ok)
qed (use assms(3-5) admin_requests_succeed [OF assms(1,3-5)] add_requests_succeed [OF assms(1)]
    enable_requests_succeed [OF assms(1,2)] disable_requests_succeed [OF assms(1,2)]
    send_requests_succeed [OF assms(1)] pick_up_requests_succeed [OF assms(1,2)]
    attest_requests_succeed [OF assms(1,2)] exec_requests_succeed [OF assms(1)]
    recv_requests_succeed [OF assms(1)] in \<open>auto simp: is_ok_iff\<close>)

text \<open>The endpoint does what the router says, and nothing when the accounts do not pass.\<close>

lemma process_exact:
  assumes "wf_ledger P T s" "registry_ok s" "seeds_used P s ix \<subseteq> T"
  shows "map_option (router_of P) (ok (process P ix s)) =
     (if accepted P s ix then perform (request_of P s ix) (router_of P s) else None)"
proof (cases "process P ix s")
  case (Ok s')
  then show ?thesis
    using process_refines [OF assms(1,2) Ok assms(3)] process_accepted [OF Ok] by simp
next
  case (Err e)
  then have "perform (request_of P s ix) (router_of P s) = None" if "accepted P s ix"
    using granted_succeeds [OF assms(1,2) that assms(3)] by (metis result.distinct(1))
  then show ?thesis using Err by simp
qed

end

end
