(* ===== verification/Delivery.thy ===== *)
theory Delivery
  imports Authority Registry
begin

text \<open>
  A message in the outbox waits for its adapters: nothing but a pick-up of this very message
  touches its account, and the AdapterInfo accounts that a pick-up needs never change.
\<close>

section \<open>Only pick-ups touch a message\<close>

fun picks_up :: "pubkey \<Rightarrow> instruction \<Rightarrow> bool" where
  "picks_up k (Pick_Up_Message acs args) = (key (pu_outbox_message acs) = k)"
| "picks_up k _ = False"

lemma message_kept:
  assumes "outbox_at s k = Some m"
    and "\<not> in_use s l \<or> config_at s l \<noteq> None \<or> chain_config_at s l \<noteq> None \<or>
      adapter_info_at s l \<noteq> None \<or> tracker_at s l \<noteq> None \<or> attestation_at s l \<noteq> None"
  shows "k \<noteq> l"
  using assms read_SomeD [OF assms(1)]
  by (auto simp: config.read_Some_iff chain_config.read_Some_iff adapter_account.read_Some_iff
      tracker.read_Some_iff outbox.read_Some_iff attestation.read_Some_iff)

context adapter_direction
begin

lemma enable_keeps_message:
  assumes "bitmaps_crate P" "enable P acs args s = Ok s'" "outbox_at s k = Some m"
  shows "outbox_at s' k = Some m"
  using assms(2,3) message_kept [OF assms(3), of "key (en_integrator_chain_config acs)"]
  unfolding enable_eq_Ok [OF assms(1)]
  by (auto simp: enable_adapter_try_accounts_eq_Ok read_simps Let_def split: if_splits)

lemma disable_keeps_message:
  assumes "bitmaps_crate P" "disable P acs args s = Ok s'" "outbox_at s k = Some m"
  shows "outbox_at s' k = Some m"
  using assms(2,3) message_kept [OF assms(3), of "key (ds_integrator_chain_config acs)"]
  unfolding disable_eq_Ok [OF assms(1)]
  by (auto simp: disable_adapter_try_accounts_eq_Ok read_simps split: if_splits)

end

lemma config_handlers_keep_message:
  assumes "outbox_at s k = Some m"
  shows "register P ra rg s = Ok s' \<Longrightarrow> outbox_at s' k = Some m"
    "add_adapter P aa ag s = Ok s' \<Longrightarrow> outbox_at s' k = Some m"
    "update_admin P ua ug s = Ok s' \<Longrightarrow> outbox_at s' k = Some m"
    "transfer_admin P ta tg s = Ok s' \<Longrightarrow> outbox_at s' k = Some m"
    "claim_admin P ca s = Ok s' \<Longrightarrow> outbox_at s' k = Some m"
    "discard_admin P da s = Ok s' \<Longrightarrow> outbox_at s' k = Some m"
  using assms message_kept [OF assms]
  by (auto simp: register_eq_Ok add_adapter_eq_Ok update_admin_eq_Ok transfer_admin_eq_Ok
      claim_admin_eq_Ok discard_admin_eq_Ok add_adapter_try_accounts_eq_Ok
      update_admin_try_accounts_eq_Ok transfer_admin_try_accounts_eq_Ok
      claim_admin_try_accounts_eq_Ok discard_admin_try_accounts_eq_Ok read_simps)

lemma message_handlers_keep_message:
  assumes "outbox_at s k = Some m"
  shows "send_message P sa sg s = Ok s' \<Longrightarrow> outbox_at s' k = Some m"
    "recv_message P ra rg s = Ok s' \<Longrightarrow> outbox_at s' k = Some m"
    "exec_message P ea eg s = Ok s' \<Longrightarrow> outbox_at s' k = Some m"
  using assms message_kept [OF assms]
  by (auto simp: send_message_eq_Ok recv_message_eq_Ok exec_message_eq_Ok
      send_message_try_accounts_eq_Ok recv_message_try_accounts_eq_Ok
      exec_message_try_accounts_eq_Ok read_simps)

lemma attest_message_keeps_message:
  assumes "bitmaps_crate P" "attest_message P acs args s = Ok s'" "outbox_at s k = Some m"
  shows "outbox_at s' k = Some m"
  using assms(1,2)
proof (rule bitmaps_crate.attest_message_OkE)
  fix s1 a cc i0 b i bm
  assume "attest_message_try_accounts P acs args s = Ok (s1, a, cc, i0, b)"
    and "s' = emit_cpi (MessageAttestedTo (at_message_hash i) (am_src_chain args)
             (am_src_addr args) (am_sequence args) (am_dst_chain args)
             (from_pubkey (am_integrator_program_id args)) (am_payload_hash args)
             (as_value bm) (from_pubkey (am_adapter_program_id args)))
           (store (key (am_attestation_info acs))
              (Attestation_Info_Data (i\<lparr>at_attested_adapters := bm\<rparr>)) s)"
  then show ?thesis
    using assms(3) message_kept [OF assms(3), of "key (am_attestation_info acs)"]
    by (auto simp: attest_message_try_accounts_eq_Ok read_simps)
qed

lemma pick_up_keeps_other_message:
  assumes "bitmaps_crate P" "pick_up_message P acs args s = Ok s'" "outbox_at s k = Some m"
    and "key (pu_outbox_message acs) \<noteq> k"
  shows "outbox_at s' k = Some m"
  using assms(3,4) by (cases rule: bitmaps_crate.pick_up_message_OkE [OF assms(1,2)])
    (auto simp: read_simps)

lemma process_keeps_message:
  assumes "bitmaps_crate P" "process P ix s = Ok s'" "outbox_at s k = Some m" "\<not> picks_up k ix"
  shows "outbox_at s' k = Some m"
  using assms(2,4)
  by (cases ix) (auto intro: config_handlers_keep_message [OF assms(3)]
      message_handlers_keep_message [OF assms(3)] attest_message_keeps_message [OF assms(1) _ assms(3)]
      pick_up_keeps_other_message [OF assms(1) _ assms(3)]
      recv.enable_keeps_message [OF assms(1) _ assms(3)]
      send.enable_keeps_message [OF assms(1) _ assms(3)]
      recv.disable_keeps_message [OF assms(1) _ assms(3)]
      send.disable_keeps_message [OF assms(1) _ assms(3)])

lemma run_keeps_message:
  assumes "bitmaps_crate P" "run P ixs s = Ok s'" "outbox_at s k = Some m"
    and "\<forall>ix \<in> set ixs. \<not> picks_up k ix"
  shows "outbox_at s' k = Some m"
  using assms(2-4)
proof (induction ixs arbitrary: s)
  case (Cons ix ixs)
  then obtain s1 where s1: "process P ix s = Ok s1" "run P ixs s1 = Ok s'"
    by (auto simp: and_then_eq_Ok)
  have "outbox_at s1 k = Some m"
    using process_keeps_message [OF assms(1) s1(1)] Cons.prems by simp
  then show ?case using Cons.IH [OF s1(2)] Cons.prems(3) by simp
qed simp

section \<open>What a pick-up needs stays\<close>

lemma run_keeps_adapter:
  assumes "bitmaps_crate P" "wf_ledger P UNIV s" "run P ixs s = Ok s'" "adapter_info_at s k = Some a"
  shows "adapter_info_at s' k = Some a"
proof -
  obtain d where "view s' k = Some d" "evolves (Adapter_Info_Data a) d"
    using steps_keep [OF assms(1) run_steps [OF assms(3)] assms(2) view_Some_read(3) [OF assms(4)]]
    by auto
  then show ?thesis
    by (elim evolves_adapterE) (auto simp: adapter_account.view_emb_iff)
qed

text \<open>The message a successful \<^verbatim>\<open>send_message\<close> leaves in the outbox.\<close>

lemma sent_message_at:
  assumes "send_message P acs args s = Ok s'"
    and "chain_config_at s (key (sm_integrator_chain_config acs)) = Some cc"
  obtains m where "outbox_at s' (key (sm_outbox_message acs)) = Some m"
    "to_pubkey (ob_src_addr m) = sm_integrator_program_id args"
    "ob_outstanding_adapters m = cc_send_adapter_bitmap cc"
    "ob_refund_recipient m = key (sm_payer acs)"
  using assms by (auto simp: send_message_eq_Ok send_message_try_accounts_eq_Ok read_simps)

end
