(* ===== verification/Spec2Isabelle.thy ===== *)
theory Spec2Isabelle
  imports Component_Properties Config_Properties Message_Properties Isolation Votes Event_Log
    Completeness Delivery
begin

text \<open>
  A verification of the Solana endpoint of the example GMP router
  (\<^verbatim>\<open>src/svm/programs/endpoint\<close>), of the crate \<^verbatim>\<open>src/svm/modules/universal-address\<close> and of the two
  mock programs that call the endpoint.

  \<^bold>\<open>The program.\<close> The endpoint routes messages between an integrator program and the adapters the
  integrator trusts. An integrator registers (\<^verbatim>\<open>register.rs\<close>) and gets an IntegratorConfig with an
  admin and a SequenceTracker. Its admin appends adapters to the list (\<^verbatim>\<open>add_adapter.rs\<close>, at most 128,
  never removed) and enables or disables them per chain, separately for sending and receiving
  (\<^verbatim>\<open>enable_adapter.rs\<close>, \<^verbatim>\<open>disable_adapter.rs\<close>); the admin can be replaced in one step
  (\<^verbatim>\<open>update_admin.rs\<close>), in two steps (\<^verbatim>\<open>transfer_admin.rs\<close>) or given up (\<^verbatim>\<open>discard_admin.rs\<close>). Sending
  (\<^verbatim>\<open>send_message.rs\<close>) creates an OutboxMessage with a snapshot of the enabled send adapters, each of
  which picks it up once (\<^verbatim>\<open>pick_up_message.rs\<close>); the last one closes it. Incoming messages are
  attested by enabled receive adapters in an AttestationInfo (\<^verbatim>\<open>attest_message.rs\<close>); the integrator
  marks one as executed with \<^verbatim>\<open>recv_message.rs\<close> (needs an AttestationInfo) or \<^verbatim>\<open>exec_message.rs\<close>
  (does not), at most once.

  \<^bold>\<open>The theories.\<close>
  \<^item> \<open>Prelude\<close>: machine integers as words, \<^verbatim>\<open>[u8; 32]\<close> as the type \<open>bytes32\<close>, big-endian bytes,
    words as bit sets. \<open>Errors\<close>: \<^verbatim>\<open>error.rs\<close>, the errors of Anchor and of the runtime, results
    and the \<^verbatim>\<open>?\<close> operator.
  \<^item> \<open>UniversalAddr\<close>: the \<^verbatim>\<open>universal-address\<close> crate. \<open>Events\<close>: \<^verbatim>\<open>event.rs\<close>.
  \<^item> \<open>Platform\<close>: the code outside the repository as a record of functions (the \<^verbatim>\<open>bitmaps\<close> crate,
    keccak, program addresses), with the laws the endpoint relies on as the locales
    \<open>bitmaps_crate\<close> and \<open>program_addresses\<close>, the predicates \<open>collision_free\<close> and
    \<open>hash_collision_free\<close>, and one concrete platform that satisfies them.
  \<^item> \<open>Bitmap\<close>: \<^verbatim>\<open>utils/bitmap.rs\<close>. \<open>State\<close>: \<^verbatim>\<open>state/*.rs\<close>, the six account types with their seeds.
  \<^item> \<open>Ledger\<close>: accounts with owner and typed data, the event log, and the meaning of the account
    types and constraints the \<^verbatim>\<open>#[derive(Accounts)]\<close> structs use; the locale \<open>account_type\<close> is the
    contract of \<^verbatim>\<open>Account<T>\<close>, interpreted for the six types.
  \<^item> \<open>Register\<close>, \<open>Admin\<close>, \<open>Adapters\<close>, \<open>Outbound\<close>, \<open>Inbound\<close>: one \<open>_try_accounts\<close> definition per
    accounts struct, one \<open>_validate\<close> per \<^verbatim>\<open>access_control\<close> function and one definition per handler,
    with the file names above. Each comes with a lemma \<open>_eq_Ok\<close> that says exactly when it
    succeeds and with which ledger. The locale \<open>adapter_direction\<close> is the common contract of
    enabling and disabling, interpreted for the send and the receive handlers.
  \<^item> \<open>Endpoint\<close>: \<^verbatim>\<open>lib.rs\<close>, the fifteen instructions and their dispatch \<open>process\<close>; the step
    relation, reachable ledgers and runs.
  \<^item> \<open>Authority\<close>: the locale \<open>admin_gated\<close>, interpreted for the eight instructions reserved to the
    admin, and who can change a configuration.
  \<^item> \<open>Invariants\<close>: every account of the endpoint obeys the rules of its type and, except for outbox
    messages (keypair accounts), stands at the address of its own data. \<open>Effects\<close>: the abstract step relation \<open>effect\<close> on the endpoint's
    accounts that every successful instruction refines. \<open>Evolution\<close>: what may become of an
    account, and the count of executions. \<open>Registry\<close>: how accounts fit together when the seed
    lists in use do not collide (the locale \<open>deployment\<close>). \<open>Isolation\<close>: an instruction leaves
    the accounts of other integrators alone. \<open>Votes\<close>: where a new attestation comes from.
    \<open>Delivery\<close>: an outbox message waits for its adapters, untouched by every other instruction.
  \<^item> \<open>Router\<close>: the abstract specification, a router without accounts, addresses and bitmaps, with
    one request per instruction. \<open>Refinement\<close>: \<open>router_of\<close> reads the router's state off a ledger, and
    every instruction refines its request. \<open>Completeness\<close>: a granted request succeeds when the
    accounts pass. \<open>Event_Log\<close>: replaying the events rebuilds the router's state.
  \<^item> \<open>Serialization\<close>: the bytes of the six account types and the space allocated for them, over the
    \<^verbatim>\<open>borsh\<close> crate as a parameter (the locales \<open>codec\<close> and \<open>borsh_crate\<close>, interpreted on the format
    its specification gives); the typed accounts of \<open>Ledger\<close> stand for these bytes.
  \<^item> \<open>Cpi\<close>, \<open>Mock_Integrator\<close>, \<open>Mock_Adapter\<close>: cross-program calls and the two mock programs.
  \<^item> \<open>Scenario\<close>: a concrete run, used to apply the theorems. \<open>Component_Properties\<close>,
    \<open>Config_Properties\<close>, \<open>Message_Properties\<close>: the properties of single components; this
    theory holds those of whole runs.

  \<^bold>\<open>State and operations.\<close> A ledger maps addresses to accounts; an operation takes the platform,
  the accounts passed (address, signer and writable flag), the arguments and the ledger, and
  returns the new ledger or an error. A transaction that fails changes nothing, so errors carry
  no ledger. A handler is \<^verbatim>\<open>try_accounts\<close>, then \<^verbatim>\<open>access_control\<close>, then its body, in the order of
  the source. \<open>reachable P T\<close> starts from a ledger on which the endpoint owns no data; a step is an
  instruction, or anything other programs may do to the rest of the ledger. \<open>T\<close> collects the seed
  lists in use; theorems that do not need collision-freeness hold for every \<open>T\<close>, in particular
  for the set of all seed lists.

  \<^bold>\<open>Bounds.\<close> Integers have the widths of the source; \<^verbatim>\<open>checked_add\<close> and the casts \<^verbatim>\<open>as u8\<close> are
  modelled with their overflow behaviour. All definitions are total and need no fuel.

  \<^bold>\<open>What the laws of the platform are.\<close> \<open>bitmaps_crate\<close>, \<open>program_addresses\<close> and \<open>borsh_crate\<close> state
  documented behaviour of third-party code, which is why they are interpreted on a concrete
  platform and a concrete format only. No theorem assumes that hashes never collide; where it matters, it is stated for the
  seed lists or encodings in use.

  \<^bold>\<open>Not modelled.\<close> Lamports and rent (so a payer that cannot pay), the compute budget, accounts
  passed beyond those of the structs, the checks of space, owner and rent that \<^verbatim>\<open>init_if_needed\<close>
  repeats on an existing account (they hold of every account the endpoint created), the byte layout of instructions and events, and
  \<^verbatim>\<open>find_program_address\<close> panicking when no bump works. The EVM and Aptos implementations and the
  TypeScript and Rust tests are not part of this development.
\<close>

section \<open>Replay protection\<close>

lemma deploymentI:
  assumes "bitmaps_crate P" "program_addresses P" "collision_free P endpoint_id T"
  shows "deployment P T"
  using assms by (simp add: deployment_def deployment_axioms_def)

text \<open>C1. Replay protection: in every reachable ledger, the event log marks a message hash as
  executed at most once, by \<^verbatim>\<open>recv_message\<close> or by \<^verbatim>\<open>exec_message\<close>, and exactly once when its
  AttestationInfo is stored as executed. This needs no assumption about collisions.\<close>

theorem replay_protection:
  assumes "bitmaps_crate P" "reachable P T s"
  shows "executions h (events s) \<le> 1 \<and> (executions h (events s) = 1 \<longleftrightarrow> executed_at P s h)"
  using reachable_execution_log [OF assms] by (simp add: execution_log_ok_def)

theorem replay_protection_witness:
  "executions the_hash (events ledger_11) = 1 \<and> executions the_hash (events ledger_10) = 0"
proof -
  have "executed_at sample_platform ledger_11 the_hash"
    "\<not> executed_at sample_platform ledger_10 the_hash"
    by (simp_all add: executed_at_def scenario read_simps)
  then show ?thesis
    using replay_protection [OF sample_laws(1) scenario_reachable(11) [OF subset_UNIV], of the_hash]
      replay_protection [OF sample_laws(1) scenario_reachable(10) [OF subset_UNIV], of the_hash]
    by auto
qed

text \<open>C2. Execution is final: once an AttestationInfo is executed, no call of \<^verbatim>\<open>recv_message\<close> or
  \<^verbatim>\<open>exec_message\<close> with that account succeeds in any later ledger.\<close>

theorem executed_is_final:
  assumes "bitmaps_crate P" "reachable P T s" "attestation_at s k = Some i" "at_executed i"
    and "rtranclp (step P T) s s'"
    and "key (rm_attestation_info racs) = k" "key (em_attestation_info eacs) = k"
  shows "recv_message P racs rargs s' \<noteq> Ok s1 \<and> exec_message P eacs eargs s' \<noteq> Ok s1"
proof -
  obtain d where "view s' k = Some d" "evolves (Attestation_Info_Data i) d"
    using steps_keep [OF assms(1,5) reachable_wf [OF assms(1,2)] view_Some_read(6) [OF assms(3)]]
    by auto
  then obtain i' where i': "attestation_at s' k = Some i'" "at_executed i'"
    using assms(4) by (elim evolves_attestationE) (auto simp: attestation.view_emb_iff)
  have "in_use s' k" using read_SomeD [OF i'(1)] by simp
  then show ?thesis
    using i' assms(6,7)
    by (auto simp: recv_message_eq_Ok recv_message_try_accounts_eq_Ok exec_message_eq_Ok
        exec_message_try_accounts_eq_Ok)
qed

theorem executed_is_final_witness:
  "recv_message sample_platform recv_accounts recv_args ledger_11 \<noteq> Ok ledger_11 \<and>
   exec_message sample_platform exec_accounts exec_args ledger_11 \<noteq> Ok ledger_11"
  by (rule executed_is_final [OF sample_laws(1) scenario_reachable(11) [OF subset_UNIV],
        where i = "the_attestation True 1" and k = attestation_key])
    (simp_all add: scenario read_simps)

section \<open>Well-formed and consistent ledgers\<close>

text \<open>C3. Every account of the endpoint in a reachable ledger is well-formed. An account of one of the
  five types with seeds stands at the program address of the identity it stores, with the
  canonical bump, and so does every account but an outbox message, which is created at a keypair's
  address. A configuration has at most 128 adapters and no pending transfer without an admin;
  chain ids are not 0; an adapter's index is below 128; an outbox message has an outstanding
  adapter; an attestation stores the hash of its own fields and has a vote unless it was
  executed.\<close>

theorem reachable_accounts_well_formed:
  assumes "bitmaps_crate P" "reachable P T s" "view s k = Some d"
  shows "account_ok P T k d \<and>
     (is_outbox d \<or> (\<exists>sds b. sds \<in> T \<and> find_program_address P sds endpoint_id = (k, b)))"
proof -
  have "account_ok P T k d"
    using wf_viewD [OF reachable_wf [OF assms(1,2)] assms(3)] .
  moreover have "carries_discriminator d"
    using assms(3) by (rule view_typed)
  ultimately show ?thesis
    by (cases d) (auto simp: derived_def)
qed

theorem reachable_accounts_well_formed_witness:
  "account_ok sample_platform UNIV attestation_key (Attestation_Info_Data (the_attestation True 1)) \<and>
   account_ok sample_platform UNIV the_outbox (Outbox_Message_Data (the_message 3))"
proof -
  have "view ledger_11 attestation_key = Some (Attestation_Info_Data (the_attestation True 1))"
    by (rule view_Some_read(6), simp add: ledger_11_def read_simps)
  moreover have "view ledger_7 the_outbox = Some (Outbox_Message_Data (the_message 3))"
    by (rule view_Some_read(5), simp add: ledger_7_def read_simps)
  ultimately show ?thesis
    using reachable_accounts_well_formed [OF sample_laws(1) scenario_reachable(11) [OF subset_UNIV]]
      reachable_accounts_well_formed [OF sample_laws(1) scenario_reachable(7) [OF subset_UNIV]]
    by blast
qed

text \<open>C4. The adapter list of a configuration and the AdapterInfo accounts agree: the list has no
  duplicates and at most 128 entries, every entry has an AdapterInfo with its position as the
  index, and every AdapterInfo of the integrator is an entry of the list.\<close>

theorem adapter_numbering:
  assumes "bitmaps_crate P" "program_addresses P" "collision_free P endpoint_id T"
    and "reachable P T s" "config_at s k = Some c"
  shows "distinct (ic_adapter_infos c) \<and> length (ic_adapter_infos c) \<le> MAX_ADAPTERS \<and>
     (\<forall>i<length (ic_adapter_infos c). \<exists>ka a. adapter_info_at s ka = Some a \<and>
        ad_integrator_program_id a = ic_integrator_program_id c \<and>
        ad_adapter_program_id a = ic_adapter_infos c ! i \<and> unat (ad_index a) = i) \<and>
     (\<forall>ka a. adapter_info_at s ka = Some a \<and>
        ad_integrator_program_id a = ic_integrator_program_id c \<longrightarrow>
        unat (ad_index a) < length (ic_adapter_infos c) \<and>
        ic_adapter_infos c ! unat (ad_index a) = ad_adapter_program_id a)"
proof -
  note dep = deploymentI [OF assms(1-3)]
  note wf = reachable_wf [OF assms(1,4)]
  have reg: "adapters_listed s" "adapters_backed s"
    using deployment.reachable_registry [OF dep assms(4)] by (simp_all add: registry_ok_def)
  have "unat (ad_index a) < length (ic_adapter_infos c) \<and>
      ic_adapter_infos c ! unat (ad_index a) = ad_adapter_program_id a"
    if a: "adapter_info_at s ka = Some a"
      "ad_integrator_program_id a = ic_integrator_program_id c" for ka a
  proof -
    obtain kc c' where c': "config_at s kc = Some c'"
      "ic_integrator_program_id c' = ad_integrator_program_id a"
      "unat (ad_index a) < length (ic_adapter_infos c')"
      "ic_adapter_infos c' ! unat (ad_index a) = ad_adapter_program_id a"
      using reg(1) a(1) unfolding adapters_listed_def by blast
    have "kc = k"
      using config_key_unique [OF wf c'(1) assms(5)] c'(2) a(2) by simp
    then show ?thesis using c' assms(5) by simp
  qed
  moreover have "length (ic_adapter_infos c) \<le> MAX_ADAPTERS"
    using config.wf_readD [OF wf assms(5)] by simp
  ultimately show ?thesis
    using deployment.reachable_distinct_adapters [OF dep assms(4,5)] reg(2) assms(5)
    unfolding adapters_backed_def by blast
qed

theorem adapter_numbering_witness:
  "distinct [adapter_a, adapter_b] \<and>
   (\<exists>ka a. adapter_info_at ledger_3 ka = Some a \<and> ad_integrator_program_id a = the_integrator \<and>
     ad_adapter_program_id a = adapter_b \<and> unat (ad_index a) = 1)"
proof -
  have "config_at ledger_3 config_key = Some (the_config [adapter_a, adapter_b])"
    by (simp add: ledger_3_def read_simps scenario_keys_distinct)
  note numbering = adapter_numbering [OF sample_laws scenario_collision_free
      scenario_reachable(3) [OF subset_refl] this, unfolded the_config_def
      integrator_config.select_convs]
  show ?thesis
    using numbering [THEN conjunct1]
      numbering [THEN conjunct2, THEN conjunct2, THEN conjunct1, rule_format, of 1]
    by simp
qed

text \<open>C5. Bitmaps only name registered adapters: every index set in a chain's send or receive bitmap,
  or outstanding in an outbox message, is a position in the adapter list of the integrator
  the account belongs to.\<close>

theorem bitmaps_name_registered_adapters:
  assumes "bitmaps_crate P" "program_addresses P" "collision_free P endpoint_id T"
    and "reachable P T s"
  shows "(\<forall>k cc i. chain_config_at s k = Some cc \<and>
        i \<in> adapters_of (cc_send_adapter_bitmap cc) \<union> adapters_of (cc_recv_adapter_bitmap cc) \<longrightarrow>
        has_adapters s (cc_integrator_program_id cc) (Suc i)) \<and>
     (\<forall>k m i. outbox_at s k = Some m \<and> i \<in> adapters_of (ob_outstanding_adapters m) \<longrightarrow>
        has_adapters s (to_pubkey (ob_src_addr m)) (Suc i))"
  using deployment.reachable_registry [OF deploymentI [OF assms(1-3)] assms(4)]
  by (auto simp: registry_ok_def chains_bounded_def outbox_bounded_def)

theorem bitmaps_name_registered_adapters_witness: "has_adapters ledger_7 the_integrator (Suc 1)"
proof -
  have "outbox_at ledger_7 the_outbox = Some (the_message 3)"
    by (simp add: ledger_7_def read_simps)
  moreover have "1 \<in> adapters_of (ob_outstanding_adapters (the_message 3))"
    by (simp add: the_message_def scenario_bits del: in_bits_iff)
  ultimately have "has_adapters ledger_7 (to_pubkey (ob_src_addr (the_message 3))) (Suc 1)"
    using bitmaps_name_registered_adapters [OF sample_laws scenario_collision_free
        scenario_reachable(7) [OF subset_refl]] by blast
  then show ?thesis by (simp add: the_message_def)
qed

text \<open>C6. Sequence numbers are never reused: in the whole event log, no two \<^verbatim>\<open>MessageSent\<close> events have
  the same sender and sequence, and no two messages in the outbox have the same source and
  sequence; every message in the outbox has a number below its integrator's tracker.\<close>

theorem sequences_unique:
  assumes "bitmaps_crate P" "program_addresses P" "collision_free P endpoint_id T"
    and "reachable P T s"
  shows "distinct (sent_ids (events s)) \<and>
     (\<forall>k l m n. outbox_at s k = Some m \<and> outbox_at s l = Some n \<and>
        ob_src_addr m = ob_src_addr n \<and> ob_sequence m = ob_sequence n \<longrightarrow> k = l) \<and>
     (\<forall>k m. outbox_at s k = Some m \<longrightarrow>
        used_sequence s (to_pubkey (ob_src_addr m)) (ob_sequence m))"
  using deployment.reachable_registry [OF deploymentI [OF assms(1-3)] assms(4)]
  by (simp add: registry_ok_def sent_once_def sequences_ok_def)

theorem sequences_unique_witness:
  "distinct (sent_ids (events ledger_7)) \<and> used_sequence ledger_7 the_integrator 0"
proof -
  have "outbox_at ledger_7 the_outbox = Some (the_message 3)"
    by (simp add: ledger_7_def read_simps)
  with sequences_unique [OF sample_laws scenario_collision_free
      scenario_reachable(7) [OF subset_refl]]
  have "used_sequence ledger_7 (to_pubkey (ob_src_addr (the_message 3)))
      (ob_sequence (the_message 3))" "distinct (sent_ids (events ledger_7))"
    by blast+
  then show ?thesis by (simp add: the_message_def)
qed

section \<open>What happens to accounts over time\<close>

text \<open>C7. Over any run, an account of the endpoint other than an outbox message stays and evolves
  monotonically: its identity is fixed, adapter lists only grow at the end, an AdapterInfo never
  changes, sequence numbers and attestations only increase, an executed message stays
  executed, and a configuration without an admin never changes again.\<close>

theorem accounts_evolve:
  assumes "bitmaps_crate P" "reachable P T s" "rtranclp (step P T) s s'"
    and "view s k = Some d" "\<not> is_outbox d"
  shows "\<exists>d'. view s' k = Some d' \<and> evolves d d'"
  using steps_keep [OF assms(1,3) reachable_wf [OF assms(1,2)] assms(4,5)] .

theorem accounts_evolve_witness:
  "\<exists>d'. view ledger_11 attestation_key = Some d' \<and>
     evolves (Attestation_Info_Data (the_attestation False 1)) d'"
proof -
  have "rtranclp (step sample_platform UNIV) ledger_10 ledger_11"
    using instruction_step [of sample_platform ledger_10 "Recv_Message recv_accounts recv_args" UNIV
        ledger_11] run_11 by auto
  then show ?thesis
    by (rule accounts_evolve [OF sample_laws(1) scenario_reachable(10) [OF subset_UNIV]])
      (rule view_Some_read(6), simp_all add: ledger_10_def read_simps)
qed

text \<open>C8. Refinement: the endpoint implements the abstract router exactly. On a reachable ledger, an
  instruction whose accounts pass their constraints succeeds exactly when the router grants its
  request in the state read off the ledger, and the state read off the new ledger is the one the
  router goes to; an instruction whose accounts do not pass fails.\<close>

theorem endpoint_refines_router:
  assumes "bitmaps_crate P" "program_addresses P" "collision_free P endpoint_id T"
    and "reachable P T s" "seeds_used P s ix \<subseteq> T"
  shows "map_option (router_of P) (ok (process P ix s)) =
     (if accepted P s ix then perform (request_of P s ix) (router_of P s) else None)"
proof -
  note dep = deploymentI [OF assms(1-3)]
  show ?thesis
    using deployment.process_exact [OF dep reachable_wf [OF assms(1,4)]
        deployment.reachable_registry [OF dep assms(4)] assms(5)] .
qed

theorem endpoint_refines_router_witness:
  "accepted sample_platform ledger_10 (Recv_Message recv_accounts recv_args) \<and>
   perform (Receive (rm_message_hash sample_platform recv_args)) (router_of sample_platform ledger_10) =
     Some (router_of sample_platform ledger_11) \<and>
   rm_message_hash sample_platform recv_args \<in> executed (router_of sample_platform ledger_11)"
proof -
  let ?ix = "Recv_Message recv_accounts recv_args"
  have run: "process sample_platform ?ix ledger_10 = Ok ledger_11"
    by (simp add: run_11)
  have exact: "map_option (router_of sample_platform) (ok (process sample_platform ?ix ledger_10)) =
      (if accepted sample_platform ledger_10 ?ix then perform (request_of sample_platform ledger_10 ?ix)
         (router_of sample_platform ledger_10) else None)"
    by (rule endpoint_refines_router [OF sample_laws scenario_collision_free
          scenario_reachable(10) [OF subset_refl]]) (simp add: scenario_seeds_def scenario)
  show ?thesis
    using exact [symmetric] unfolding run by (auto split: if_splits simp del: accepted.simps)
qed

section \<open>Delivery\<close>

text \<open>C33. A message that was sent can be picked up by every adapter that was enabled for sending at
  that time and signs with its PDA, whatever instructions run in between, even ones that disable the adapter or change
  the admin, as long as none of them picks up this message. The seeds of the pick-up come from
  the message's universal source address, which leads back to the sending integrator. The
  pick-up takes exactly this adapter off, and closes the account when no other is left.\<close>

theorem sent_message_can_be_picked_up:
  assumes "bitmaps_crate P" "program_addresses P" "reachable P UNIV s"
    and "send_message P acs args s = Ok s1"
    and "run P ixs s1 = Ok s2" "\<forall>ix \<in> set ixs. \<not> picks_up (key (sm_outbox_message acs)) ix"
    and "chain_config_at s (key (sm_integrator_chain_config acs)) = Some cc"
    and "adapter_info_at s (key (pu_adapter_info pacs)) = Some a"
    and "unat (ad_index a) \<in> adapters_of (cc_send_adapter_bitmap cc)"
    and "ad_integrator_program_id a = sm_integrator_program_id args"
      "ad_adapter_program_id a = pu_adapter_program_id pargs"
    and "create_program_address P (adapter_pda_seeds @ [[pu_adapter_pda_bump pargs]])
       (pu_adapter_program_id pargs) = Some (key (pu_adapter_pda pacs))"
    and "is_signer (pu_adapter_pda pacs)" "key (pu_system_program pacs) = system_program_id"
      "key (pu_outbox_message pacs) = key (sm_outbox_message acs)"
      "is_writable (pu_outbox_message pacs)" "key (pu_refund_recipient pacs) = key (sm_payer acs)"
      "is_writable (pu_refund_recipient pacs)" "key (pu_event_authority pacs) = event_authority P"
      "key (pu_program pacs) = endpoint_id"
  shows "\<exists>s3. pick_up_message P pacs pargs s2 = Ok s3 \<and>
     (if adapters_of (cc_send_adapter_bitmap cc) = {unat (ad_index a)}
      then accounts s3 (key (sm_outbox_message acs)) = None
      else \<exists>m. outbox_at s3 (key (sm_outbox_message acs)) = Some m \<and>
        to_pubkey (ob_src_addr m) = sm_integrator_program_id args \<and>
        adapters_of (ob_outstanding_adapters m) =
          adapters_of (cc_send_adapter_bitmap cc) - {unat (ad_index a)})"
proof -
  let ?k = "key (sm_outbox_message acs)" and ?i = "unat (ad_index a)"
  obtain m where m: "outbox_at s1 ?k = Some m" and sent:
    "to_pubkey (ob_src_addr m) = sm_integrator_program_id args"
    "ob_outstanding_adapters m = cc_send_adapter_bitmap cc"
    "ob_refund_recipient m = key (sm_payer acs)"
    using sent_message_at [OF assms(4,7)] by blast
  note wf = reachable_wf [OF assms(1,3)]
  have "outbox_at s2 ?k = Some m"
    by (rule run_keeps_message [OF assms(1,5) m assms(6)])
  moreover have "run P (Send_Message acs args # ixs) s = Ok s2"
    using assms(4,5) by simp
  from run_keeps_adapter [OF assms(1) wf this assms(8)]
  have "adapter_info_at s2 (key (pu_adapter_info pacs)) = Some a" .
  moreover have "create_program_address P (adapter_info_seeds (sm_integrator_program_id args)
      (pu_adapter_program_id pargs) @ [[ad_bump a]]) endpoint_id = Some (key (pu_adapter_info pacs))"
    using adapter_account.wf_readD [OF wf assms(8)] program_addresses.find_create [OF assms(2),
      of "adapter_info_seeds (sm_integrator_program_id args) (pu_adapter_program_id pargs)"
         endpoint_id] assms(10,11)
    by (simp add: derived_def)
  ultimately have "pick_up_message_try_accounts P pacs pargs s2 = Ok (m, a)"
    using sent assms(12-20) by (simp add: pick_up_message_try_accounts_eq_Ok)
  from bitmaps_crate.pick_up_message_branches [OF assms(1) this] show ?thesis
    using assms(9,15,20) sent
    by (auto simp: Let_def read_simps) (simp_all add: close_account_def)
qed

theorem sent_message_can_be_picked_up_witness:
  "\<exists>s2 s3. run sample_platform [Disable_Send_Adapter (disable_accounts adapter_a)
       (chain_args adapter_a)] ledger_7 = Ok s2 \<and>
     pick_up_message sample_platform (pick_up_accounts adapter_a) (pick_up_args adapter_a) s2 =
       Ok s3"
proof -
  have "\<exists>s2. disable_send_adapter sample_platform (disable_accounts adapter_a)
      (chain_args adapter_a) ledger_7 = Ok s2"
    by (simp add: send.disable_eq_Ok [OF sample_laws(1)] disable_adapter_try_accounts_eq_Ok
        scenario read_simps)
  then obtain s2 where s2: "run sample_platform [Disable_Send_Adapter (disable_accounts adapter_a)
      (chain_args adapter_a)] ledger_7 = Ok s2"
    by auto
  have "\<exists>s3. pick_up_message sample_platform (pick_up_accounts adapter_a) (pick_up_args adapter_a)
      s2 = Ok s3"
    using sent_message_can_be_picked_up [OF sample_laws scenario_reachable(6) [OF subset_UNIV]
        run_7 s2, where cc = "the_chain 3 1" and a = "the_adapter adapter_a 0"
          and pacs = "pick_up_accounts adapter_a" and pargs = "pick_up_args adapter_a"]
    by (auto simp: scenario read_simps)
  then show ?thesis using s2 by blast
qed

section \<open>The log and the bytes\<close>

text \<open>C22. The event log determines the state: replaying the events of a reachable ledger from the
  empty router gives the admins, pending admins, adapter lists, enabled adapters, sequence
  numbers, votes and executions that the accounts hold; only the outbox is not in the log.\<close>

theorem event_log_determines_state:
  assumes "bitmaps_crate P" "program_addresses P" "collision_free P endpoint_id T"
    and "reachable P T s"
  shows "(router_of P s)\<lparr>outbox := (\<lambda>_. None)\<rparr> = replay (events s)"
  using deployment.reachable_replay [OF deploymentI [OF assms(1-3)] assms(4)]
  by (simp add: logged_def)

theorem event_log_determines_state_witness:
  "(router_of sample_platform ledger_11)\<lparr>outbox := (\<lambda>_. None)\<rparr> = replay (events ledger_11) \<and>
   members (router_of sample_platform ledger_3) the_integrator =
     Some \<lparr>mb_admin = Some the_admin, mb_pending = None, mb_adapters = [adapter_a, adapter_b]\<rparr>"
proof -
  have "members (router_of sample_platform ledger_3) = members (replay (events ledger_3))"
    using event_log_determines_state [OF sample_laws scenario_collision_free
        scenario_reachable(3) [OF subset_refl], symmetric] by simp
  then show ?thesis
    using event_log_determines_state [OF sample_laws scenario_collision_free
        scenario_reachable(11) [OF subset_refl]]
    by (simp add: ledger_3_def ledger_2_def ledger_1_def empty_ledger_def replay_def
        update_member_def)
qed

text \<open>C20. Every account fits the space its \<^verbatim>\<open>init\<close> constraint allocated: on a reachable ledger, the
  serialised bytes of an account of the endpoint are never longer than \<^verbatim>\<open>8 + T::INIT_SPACE\<close>, so that
  writing the account back at the end of an instruction does not fail.\<close>

theorem accounts_fit_their_space:
  assumes "borsh_crate B" "bitmaps_crate P" "reachable P T s" "view s k = Some d"
  shows "length (account_bytes B d) \<le> allocated_space d"
proof -
  have "carries_discriminator d"
    using assms(4) by (auto simp: view_def split: option.splits if_splits)
  moreover have "account_ok P T k d"
    using wf_viewD [OF reachable_wf [OF assms(2,3)] assms(4)] .
  ultimately have "representable B d" "carries_discriminator d"
    by (cases d; simp)+
  then show ?thesis by (rule borsh_crate.bytes_fit [OF assms(1)])
qed

theorem accounts_fit_their_space_witness:
  "length (account_bytes borsh_format (Integrator_Config_Data (the_config [adapter_a, adapter_b]))) \<le>
     8 + 4199"
proof -
  have "config_at ledger_3 config_key = Some (the_config [adapter_a, adapter_b])"
    by (simp add: ledger_3_def read_simps scenario_keys_distinct)
  note accounts_fit_their_space [OF bytes.borsh_crate_axioms sample_laws(1)
      scenario_reachable(3) [OF subset_UNIV] config.view_emb_iff [THEN iffD2, OF this]]
  then show ?thesis by (simp add: integrator_config_space_def integrator_config_INIT_SPACE_def)
qed

section \<open>Authority\<close>

text \<open>C9. The eight instructions reserved to the admin succeed only when the account passed as admin
  signed and is the admin stored in the configuration, and no admin transfer is pending.\<close>

theorem admin_only:
  assumes "administers ix = Some (adm, cfg)" "process P ix s = Ok s'"
  shows "is_signer adm \<and> (\<exists>c. config_at s (key cfg) = Some c \<and>
     ic_admin c = Some (key adm) \<and> ic_pending_admin c = None)"
  using administers_needs_admin [OF assms] .

theorem admin_only_witness:
  "is_signer (writable_signer the_admin) \<and> (\<exists>c. config_at ledger_5 config_key = Some c \<and>
     ic_admin c = Some the_admin \<and> ic_pending_admin c = None)"
  using admin_only [of "Enable_Recv_Adapter (enable_accounts adapter_a) (chain_args adapter_a)"
      "writable_signer the_admin" "writable config_key" sample_platform ledger_5 ledger_6] run_6
  by (simp add: enable_accounts_def writable_def writable_signer_def)

text \<open>C10. A stored configuration changes only by an instruction its admin signed while no transfer is
  pending, or by a \<^verbatim>\<open>claim_admin\<close> that the current or the pending admin signed.\<close>

theorem config_changes_need_authority:
  assumes "bitmaps_crate P" "process P ix s = Ok s'" "config_at s k = Some c"
    and "config_at s' k \<noteq> Some c"
  shows "(\<exists>adm cfg. administers ix = Some (adm, cfg) \<and> key cfg = k \<and> is_signer adm \<and>
        ic_admin c = Some (key adm) \<and> ic_pending_admin c = None) \<or>
     (\<exists>acs. ix = Claim_Admin acs \<and> key (cl_integrator_config acs) = k \<and>
        is_signer (cl_new_admin acs) \<and> ic_pending_admin c \<noteq> None \<and>
        (ic_pending_admin c = Some (key (cl_new_admin acs)) \<or>
         ic_admin c = Some (key (cl_new_admin acs))))"
  using config_change_authority [OF assms] .

theorem config_changes_need_authority_witness:
  "\<exists>adm cfg. administers (Transfer_Admin hand_over_accounts hand_over_args) = Some (adm, cfg) \<and>
     is_signer adm \<and> key adm = the_admin"
proof -
  have "config_at ledger_3 config_key = Some (the_config [adapter_a, adapter_b])"
    "config_at handed_over config_key \<noteq> Some (the_config [adapter_a, adapter_b])"
    by (simp_all add: ledger_3_def handed_over_def read_simps scenario_keys_distinct the_config_def)
  from config_changes_need_authority [OF sample_laws(1) _ this,
      of "Transfer_Admin hand_over_accounts hand_over_args"] hand_over_runs
  show ?thesis by (auto simp: the_config_def)
qed

text \<open>C29. Isolation of integrators: an instruction leaves every configuration, chain configuration,
  AdapterInfo and tracker of an integrator it does not act for exactly as it was.\<close>

theorem integrators_are_isolated:
  assumes "bitmaps_crate P" "program_addresses P" "collision_free P endpoint_id T"
    and "reachable P T s" "process P ix s = Ok s'" "seeds_used P s ix \<subseteq> T"
    and "view s k = Some d" "account_integrator d = Some J" "acts_for s ix \<noteq> Some J"
  shows "view s' k = Some d"
  using process_untouched [OF deploymentI [OF assms(1-3)] reachable_wf [OF assms(1,4)] assms(5,6,9)]
    assms(7,8) by (simp add: untouched_def)

theorem integrators_are_isolated_witness:
  "view ledger_8 config_key = Some (Integrator_Config_Data (the_config [adapter_a, adapter_b]))"
proof (rule integrators_are_isolated [OF sample_laws scenario_collision_free
      scenario_reachable(7) [OF subset_refl], where J = the_integrator
      and ix = "Pick_Up_Message (pick_up_accounts adapter_a) (pick_up_args adapter_a)"])
  show "view ledger_7 config_key =
      Some (Integrator_Config_Data (the_config [adapter_a, adapter_b]))"
    by (rule view_Some_read(1)) (simp add: scenario_ledgers read_simps scenario_keys_distinct)
  show "seeds_used sample_platform ledger_7
      (Pick_Up_Message (pick_up_accounts adapter_a) (pick_up_args adapter_a)) \<subseteq> scenario_seeds"
    by (simp add: scenario read_simps scenario_seeds_def)
qed (simp_all add: run_8 the_config_def)

text \<open>C13. Discarding the admin is irreversible: once a configuration has no admin, it is the same in
  every later ledger, and no instruction reserved to the admin succeeds on it.\<close>

theorem discarded_admin_is_final:
  assumes "bitmaps_crate P" "reachable P T s" "config_at s k = Some c" "ic_admin c = None"
    and "rtranclp (step P T) s s'"
  shows "config_at s' k = Some c \<and>
     (\<forall>ix adm cfg. administers ix = Some (adm, cfg) \<and> key cfg = k \<longrightarrow>
        (\<exists>e. process P ix s' = Err e))"
proof -
  obtain d where "view s' k = Some d" "evolves (Integrator_Config_Data c) d"
    using steps_keep [OF assms(1,5) reachable_wf [OF assms(1,2)] view_Some_read(1) [OF assms(3)]]
    by auto
  then have same: "config_at s' k = Some c"
    using assms(4) by (elim evolves_configE) (auto simp: config.view_emb_iff)
  have "\<exists>e. process P ix s' = Err e"
    if "administers ix = Some (adm, cfg)" "key cfg = k" for ix adm cfg
  proof (cases "process P ix s'")
    case (Ok s2)
    from administers_needs_admin [OF that(1) Ok] that(2) same assms(4) show ?thesis by simp
  qed simp
  with same show ?thesis by blast
qed

theorem discarded_admin_is_final_witness:
  "\<exists>e. process sample_platform (Add_Adapter (add_accounts adapter_a) (add_args adapter_a))
     abandoned = Err e"
proof -
  have "reachable sample_platform UNIV abandoned"
    by (rule reachable_process [OF scenario_reachable(1) [OF subset_UNIV] abandon_runs]) simp
  moreover have "config_at abandoned config_key = Some ((the_config [])\<lparr>ic_admin := None\<rparr>)"
    by (simp add: abandoned_def read_simps)
  ultimately have "\<forall>ix adm cfg. administers ix = Some (adm, cfg) \<and> key cfg = config_key \<longrightarrow>
      (\<exists>e. process sample_platform ix abandoned = Err e)"
    using discarded_admin_is_final [OF sample_laws(1), of UNIV abandoned config_key
        "(the_config [])\<lparr>ic_admin := None\<rparr>" abandoned] by simp
  then show ?thesis
    by (rule allE [of _ "Add_Adapter (add_accounts adapter_a) (add_args adapter_a)"])
      (simp add: add_accounts_def writable_def)
qed

section \<open>Attestations\<close>

text \<open>C11. A message is received only with a vote: when \<^verbatim>\<open>recv_message\<close> succeeds in a reachable
  ledger, at least one adapter attested the message, and the event reports exactly the stored
  message, the adapters enabled now and the adapters that attested.\<close>

theorem received_message_is_attested:
  assumes "bitmaps_crate P" "reachable P T s" "recv_message P acs args s = Ok s'"
  shows "\<exists>i cc. attestation_at s (key (rm_attestation_info acs)) = Some i \<and>
     chain_config_at s (key (rm_integrator_chain_config acs)) = Some cc \<and>
     adapters_of (at_attested_adapters i) \<noteq> {} \<and>
     at_message_hash i = compute_own_message_hash P i \<and>
     events s' = events s @ [MessageReceived (at_message_hash i) (at_src_chain i) (at_src_addr i)
       (at_sequence i) (at_dst_chain i) (at_dst_addr i) (at_payload_hash i)
       (as_value (cc_recv_adapter_bitmap cc)) (as_value (at_attested_adapters i))]"
proof -
  obtain cc i where i: "attestation_at s (key (rm_attestation_info acs)) = Some i"
      "chain_config_at s (key (rm_integrator_chain_config acs)) = Some cc" "\<not> at_executed i"
    and s': "events s' = events s @ [MessageReceived (at_message_hash i) (at_src_chain i)
       (at_src_addr i) (at_sequence i) (at_dst_chain i) (at_dst_addr i) (at_payload_hash i)
       (as_value (cc_recv_adapter_bitmap cc)) (as_value (at_attested_adapters i))]"
    using assms(3) by (auto simp: recv_message_eq_Ok recv_message_try_accounts_eq_Ok)
  then show ?thesis
    using attestation.wf_readD [OF reachable_wf [OF assms(1,2)] i(1)] by auto
qed

theorem received_message_is_attested_witness:
  "\<exists>i. attestation_at ledger_10 attestation_key = Some i \<and>
     adapters_of (at_attested_adapters i) \<noteq> {}"
  using received_message_is_attested [OF sample_laws(1) scenario_reachable(10) [OF subset_UNIV]
      run_11]
  by (auto simp: recv_accounts_def writable_def)

text \<open>C12. One vote per adapter: once an adapter's index is in a message's attestations, no
  \<^verbatim>\<open>attest_message\<close> of an AdapterInfo with that index succeeds on that account in any later
  ledger.\<close>

theorem one_vote_per_adapter:
  assumes "bitmaps_crate P" "reachable P T s" "attestation_at s k = Some i"
    and "unat (ad_index a) \<in> adapters_of (at_attested_adapters i)"
    and "rtranclp (step P T) s s'" "key (am_attestation_info acs) = k"
    and "adapter_info_at s' (key (am_adapter_info acs)) = Some a"
  shows "attest_message P acs args s' \<noteq> Ok s1"
proof
  assume ok: "attest_message P acs args s' = Ok s1"
  have wf: "wf_ledger P T s'"
    using reachable_wf [OF assms(1) reachable_steps [OF assms(5,2)]] .
  obtain d where "view s' k = Some d" "evolves (Attestation_Info_Data i) d"
    using steps_keep [OF assms(1,5) reachable_wf [OF assms(1,2)] view_Some_read(6) [OF assms(3)]]
    by auto
  then obtain i' where i': "attestation_at s' k = Some i'"
    "unat (ad_index a) \<in> adapters_of (at_attested_adapters i')"
    using assms(4) by (elim evolves_attestationE) (auto simp: attestation.view_emb_iff)
  have "at_src_chain i' \<noteq> 0" using attestation.wf_readD [OF wf i'(1)] by simp
  moreover have "in_use s' k" using read_SomeD [OF i'(1)] by simp
  ultimately show False
    using ok i' assms(6,7) unfolding bitmaps_crate.attest_message_eq_Ok [OF assms(1)]
    by (auto simp: attest_message_try_accounts_eq_Ok)
qed

theorem one_vote_per_adapter_witness:
  "attest_message sample_platform (attest_accounts adapter_a) (attest_args adapter_a) ledger_11 \<noteq>
     Ok ledger_11"
  by (rule one_vote_per_adapter [OF sample_laws(1) scenario_reachable(11) [OF subset_UNIV],
        where i = "the_attestation True 1" and a = "the_adapter adapter_a 0"])
    (simp_all add: scenario read_simps)

text \<open>C15. Votes need an enabled adapter: when an instruction adds the vote \<open>n\<close> to the account \<open>k\<close>, it
  is an \<^verbatim>\<open>attest_message\<close> for the message \<open>k\<close> belongs to, signed by the program address of an
  adapter that the receiving integrator registered with index \<open>n\<close> and has enabled for receiving
  from the source chain.\<close>

theorem votes_need_enabled_adapters:
  assumes "bitmaps_crate P" "program_addresses P" "collision_free P endpoint_id T"
    and "reachable P T s" "process P ix s = Ok s'" "seeds_used P s ix \<subseteq> T"
    and "n \<in> votes s' k" "n \<notin> votes s k"
  shows "\<exists>acs args a cc. ix = Attest_Message acs args \<and>
     k = fst (attestation_info_pda P (am_message_hash P args)) \<and>
     am_dst_chain args = CHAIN_ID \<and> is_signer (am_adapter_pda acs) \<and>
     create_program_address P (adapter_pda_seeds @ [[am_adapter_pda_bump args]])
       (am_adapter_program_id args) = Some (key (am_adapter_pda acs)) \<and>
     adapter_info_at s (key (am_adapter_info acs)) = Some a \<and>
     ad_integrator_program_id a = am_integrator_program_id args \<and>
     ad_adapter_program_id a = am_adapter_program_id args \<and> unat (ad_index a) = n \<and>
     chain_config_at s (key (am_integrator_chain_config acs)) = Some cc \<and>
     cc_integrator_program_id cc = am_integrator_program_id args \<and>
     cc_chain_id cc = am_src_chain args \<and> n \<in> adapters_of (cc_recv_adapter_bitmap cc)"
  using deployment.new_vote [OF deploymentI [OF assms(1-3)] reachable_wf [OF assms(1,4)] assms(5-8)] .

theorem votes_need_enabled_adapters_witness:
  "0 \<in> votes ledger_10 attestation_key \<and> 0 \<notin> votes ledger_9 attestation_key \<and>
   (\<exists>a. adapter_info_at ledger_9 (adapter_key adapter_a) = Some a \<and> unat (ad_index a) = 0 \<and>
     ad_adapter_program_id a = adapter_a)"
proof -
  have v: "0 \<in> votes ledger_10 attestation_key" "0 \<notin> votes ledger_9 attestation_key"
    by (simp_all add: votes_def scenario scenario_bits read_simps)
  obtain acs args a cc where "Attest_Message (attest_accounts adapter_a) (attest_args adapter_a) =
      Attest_Message acs args" "adapter_info_at ledger_9 (key (am_adapter_info acs)) = Some a"
    "ad_adapter_program_id a = am_adapter_program_id args" "unat (ad_index a) = 0"
    using votes_need_enabled_adapters [OF sample_laws scenario_collision_free
        scenario_reachable(9) [OF subset_refl],
        of "Attest_Message (attest_accounts adapter_a) (attest_args adapter_a)" ledger_10 0
          attestation_key] run_10 v
    by (auto simp: scenario_seeds_def scenario)
  then show ?thesis
    using v by (auto simp: attest_accounts_def attest_args_def writable_def)
qed

end
